theory Spec2Isabelle
  imports Main "HOL-Library.Word" "HOL-Library.Multiset"
begin

unbundle bit_operations_syntax

chapter \<open>The Mach-O object model of llvm-objcopy and the Mach-O emitter of yaml2obj\<close>

text \<open>
  Two translation units are embedded here: \<^verbatim>\<open>Object.cpp\<close> (the editing operations of
  llvm-objcopy's Mach-O object model) and \<^verbatim>\<open>MachOEmitter.cpp\<close> (the writer that
  serialises a MachOYAML description to bytes).  Vectors are lists, \<^verbatim>\<open>Optional\<close>
  is \<open>option\<close>, an \<^verbatim>\<open>Error\<close> return is a value, and the byte sink is the list of
  bytes written so far.
\<close>

section \<open>Object.cpp: data model\<close>

type_synonym u8 = "8 word"
type_synonym u32 = "32 word"
type_synonym u64 = "64 word"

text \<open>
  Modelled from the spec: the structs of \<^verbatim>\<open>Object.h\<close>, which is not among the sources
  (\<^verbatim>\<open>RelocationInfo\<close>, \<^verbatim>\<open>SymbolEntry\<close>, \<^verbatim>\<open>Section\<close>, \<^verbatim>\<open>LoadCommand\<close>,
  \<^verbatim>\<open>Object\<close> with its \<^verbatim>\<open>SymbolTable\<close>), each with the fields that \<^verbatim>\<open>Object.cpp\<close>
  reads and writes.  In the words of the spec: a relocation "optionally references a
  SymbolEntry by ownership-free back-reference"; a symbol has "a name, type/flags, an
  optional section reference (by section index), and a value"; a section has "a
  1-based index unique within the whole object" and "an ordered sequence of
  RelocationInfo"; the object holds "an ordered sequence of LoadCommand, a
  SymbolTable" and the cached indices of the special commands.

  A \<^verbatim>\<open>SymbolEntry\<close> lives on the heap and is owned by one \<^verbatim>\<open>unique_ptr\<close> of
  \<^verbatim>\<open>SymTable.Symbols\<close>; relocations hold plain pointers to it.  Addresses are
  natural numbers, the heap of symbol entries is a function from addresses.
\<close>

type_synonym sym_ptr = nat

text \<open>
  \<^verbatim>\<open>RelocationInfo::Symbol\<close> is an \<^verbatim>\<open>Optional<const SymbolEntry *>\<close>:
  \<open>None\<close> is the empty optional, \<open>Some None\<close> a null pointer, \<open>Some (Some p)\<close> the
  address \<open>p\<close>.
\<close>

record RelocationInfo =
  Symbol :: "sym_ptr option option"

text \<open>
  A symbol entry mirrors the nlist entry of the file format, where \<^verbatim>\<open>n_sect\<close> is one
  byte.  The index of a section is a 32-bit counter in the source; an object with
  \<open>2\<^sup>3\<^sup>2\<close> sections is out of reach, so it is a natural number here.
\<close>

record SymbolEntry =
  Name :: string
  n_sect :: u8

record Section =
  Index :: nat
  CanonicalName :: string
  Relocations :: "RelocationInfo list"

text \<open>
  Modelled from the spec: the union \<^verbatim>\<open>MachO::macho_load_command\<close> of \<^verbatim>\<open>MachO.h\<close>
  (not among the sources), used by both files: the "fixed-size header struct
  matching the tag" of a load command.  Each member of the
  union that the two files read is a group of fields here: \<^verbatim>\<open>load_command_data\<close>
  (\<open>cmd\<close>, \<open>cmdsize\<close>, at the start of every member), the two segment commands
  (the name, which both have at the same place, and the file offset and size of the
  32-bit and of the 64-bit member), \<^verbatim>\<open>symtab_command_data\<close> and
  \<^verbatim>\<open>dyld_info_command_data\<close>.  A member is read only for a command of its type.
\<close>

record macho_load_command =
  cmd :: u32
  cmdsize :: u32
  segname :: string
  fileoff :: u32
  filesize :: u32
  fileoff_64 :: u64
  filesize_64 :: u64
  symoff :: u32
  stroff :: u32
  rebase_off :: u32
  bind_off :: u32
  weak_bind_off :: u32
  lazy_bind_off :: u32
  export_off :: u32

record LoadCommand =
  MachOLoadCommand :: macho_load_command
  Sections :: "Section list"

record Object =
  Is64Bit :: bool
  LoadCommands :: "LoadCommand list"
  Symbols :: "sym_ptr list"
  SymHeap :: "sym_ptr \<Rightarrow> SymbolEntry"
  SymTabCommandIndex :: "nat option"
  DySymTabCommandIndex :: "nat option"
  DyLdInfoCommandIndex :: "nat option"
  DataInCodeCommandIndex :: "nat option"
  FunctionStartsCommandIndex :: "nat option"

datatype Error = invalid_argument string

text \<open>
  Modelled from the spec: the command types that the spec and the two files name
  (segment-32, segment-64, symtab, dysymtab, dyld-info, dyld-info-only,
  function-starts, data-in-code); \<^verbatim>\<open>MachO.def\<close>, which declares them, is not among the
  sources.  The values are those of the file format; the proofs use only that they
  differ.
\<close>

definition LC_SEGMENT :: u32 where "LC_SEGMENT = 0x1"
definition LC_SYMTAB :: u32 where "LC_SYMTAB = 0x2"
definition LC_DYSYMTAB :: u32 where "LC_DYSYMTAB = 0xb"
definition LC_SEGMENT_64 :: u32 where "LC_SEGMENT_64 = 0x19"
definition LC_DYLD_INFO :: u32 where "LC_DYLD_INFO = 0x22"
definition LC_DYLD_INFO_ONLY :: u32 where "LC_DYLD_INFO_ONLY = 0x80000022"
definition LC_FUNCTION_STARTS :: u32 where "LC_FUNCTION_STARTS = 0x26"
definition LC_DATA_IN_CODE :: u32 where "LC_DATA_IN_CODE = 0x29"

section \<open>Object.cpp: the cached indices of special load commands\<close>

text \<open>
  \<^verbatim>\<open>Object::updateLoadCommandIndexes\<close>: one pass over \<^verbatim>\<open>LoadCommands\<close> with the
  running position; a special command stores its position, every other command
  leaves the five fields alone.  Nothing resets a field.
\<close>

definition updateIndex :: "nat \<Rightarrow> LoadCommand \<Rightarrow> Object \<Rightarrow> Object" where
  "updateIndex i LC obj =
     (let c = cmd (MachOLoadCommand LC) in
      if c = LC_SYMTAB then obj\<lparr>SymTabCommandIndex := Some i\<rparr>
      else if c = LC_DYSYMTAB then obj\<lparr>DySymTabCommandIndex := Some i\<rparr>
      else if c = LC_DYLD_INFO \<or> c = LC_DYLD_INFO_ONLY then obj\<lparr>DyLdInfoCommandIndex := Some i\<rparr>
      else if c = LC_DATA_IN_CODE then obj\<lparr>DataInCodeCommandIndex := Some i\<rparr>
      else if c = LC_FUNCTION_STARTS then obj\<lparr>FunctionStartsCommandIndex := Some i\<rparr>
      else obj)"

fun updateLoop :: "nat \<Rightarrow> LoadCommand list \<Rightarrow> Object \<Rightarrow> Object" where
  "updateLoop i [] obj = obj"
| "updateLoop i (LC # LCs) obj = updateLoop (Suc i) LCs (updateIndex i LC obj)"

definition updateLoadCommandIndexes :: "Object \<Rightarrow> Object" where
  "updateLoadCommandIndexes obj = updateLoop 0 (LoadCommands obj) obj"

text \<open>
  \<^verbatim>\<open>Object::removeLoadCommands\<close>: \<^verbatim>\<open>stable_partition\<close> by \<open>\<not> ToRemove\<close> followed
  by \<^verbatim>\<open>erase\<close> of the tail keeps the commands that do not match, in order; then the
  indices are recomputed.  The function always returns success.
\<close>

definition removeLoadCommands :: "(LoadCommand \<Rightarrow> bool) \<Rightarrow> Object \<Rightarrow> Error option \<times> Object" where
  "removeLoadCommands ToRemove obj =
     (None, updateLoadCommandIndexes
              (obj\<lparr>LoadCommands := filter (\<lambda>LC. \<not> ToRemove LC) (LoadCommands obj)\<rparr>))"

text \<open>\<^verbatim>\<open>Object::addLoadCommand\<close> is a \<^verbatim>\<open>push_back\<close> and nothing else.\<close>

definition addLoadCommand :: "LoadCommand \<Rightarrow> Object \<Rightarrow> Object" where
  "addLoadCommand LC obj = obj\<lparr>LoadCommands := LoadCommands obj @ [LC]\<rparr>"

text \<open>
  \<^verbatim>\<open>Object::addSegment\<close>: a default-constructed command whose segment struct is
  zeroed, given the segment type of the object's bitness and the name, appended.
  (\<^verbatim>\<open>is64Bit()\<close> is declared in \<^verbatim>\<open>Object.h\<close>; the bitness is the field \<open>Is64Bit\<close>.)
\<close>

definition zero_load_command :: macho_load_command where
  "zero_load_command = \<lparr>cmd = 0, cmdsize = 0, segname = [], fileoff = 0, filesize = 0,
     fileoff_64 = 0, filesize_64 = 0, symoff = 0, stroff = 0, rebase_off = 0, bind_off = 0,
     weak_bind_off = 0, lazy_bind_off = 0, export_off = 0\<rparr>"

definition constructSegment :: "u32 \<Rightarrow> string \<Rightarrow> macho_load_command" where
  "constructSegment CmdType SegName = zero_load_command\<lparr>cmd := CmdType, segname := SegName\<rparr>"

definition addSegment :: "string \<Rightarrow> Object \<Rightarrow> Object" where
  "addSegment SegName obj =
     (let LC = \<lparr>MachOLoadCommand =
                  (if Is64Bit obj then constructSegment LC_SEGMENT_64 SegName
                   else constructSegment LC_SEGMENT SegName),
                Sections = []\<rparr>
      in obj\<lparr>LoadCommands := LoadCommands obj @ [LC]\<rparr>)"

section \<open>Object.cpp: removeSections\<close>

text \<open>
  Modelled from the spec: \<^verbatim>\<open>SymbolEntry::section()\<close> of \<^verbatim>\<open>Object.h\<close>, the symbol's
  "optional section reference (by section index)": no section for the number zero
  (\<^verbatim>\<open>NO_SECT\<close>), otherwise the section number, widened to 32 bits.
\<close>

definition section_of :: "SymbolEntry \<Rightarrow> nat option" where
  "section_of S = (if n_sect S = 0 then None else Some (unat (n_sect S)))"

text \<open>
  The inner loop of the first phase, over the sections that \<^verbatim>\<open>stable_partition\<close>
  put in front: the section is recorded under its old index, then it gets the next
  index.  The map holds a pointer in the source; the pointee is not written again
  after this loop, so the map holds the section as the loop leaves it.
\<close>

fun reindex :: "Section list \<Rightarrow> nat \<Rightarrow> (nat \<rightharpoonup> Section) \<Rightarrow> Section list \<times> nat \<times> (nat \<rightharpoonup> Section)" where
  "reindex [] n M = ([], n, M)"
| "reindex (s # ss) n M =
     (let s' = s\<lparr>Index := n\<rparr>;
          (ss', n', M') = reindex ss (Suc n) (M(Index s \<mapsto> s'))
      in (s' # ss', n', M'))"

fun partitionLoop :: "(Section \<Rightarrow> bool) \<Rightarrow> LoadCommand list \<Rightarrow> nat \<Rightarrow> (nat \<rightharpoonup> Section)
    \<Rightarrow> LoadCommand list \<times> nat \<times> (nat \<rightharpoonup> Section)" where
  "partitionLoop ToRemove [] n M = ([], n, M)"
| "partitionLoop ToRemove (LC # LCs) n M =
     (let (ss', n', M') = reindex (filter (\<lambda>Sec. \<not> ToRemove Sec) (Sections LC)) n M;
          (LCs', n'', M'') = partitionLoop ToRemove LCs n' M'
      in (LC\<lparr>Sections := ss'\<rparr> # LCs', n'', M''))"

definition IsDead :: "(nat \<rightharpoonup> Section) \<Rightarrow> SymbolEntry \<Rightarrow> bool" where
  "IsDead OldIndexToSection S =
     (case section_of S of None \<Rightarrow> False | Some i \<Rightarrow> OldIndexToSection i = None)"

text \<open>The decimal digits that \<^verbatim>\<open>%u\<close> prints, and the characters that \<^verbatim>\<open>%s\<close> prints
  of a \<^verbatim>\<open>c_str()\<close>: those before the first NUL.\<close>

definition digit_char :: "nat \<Rightarrow> char" where
  "digit_char d = ''0123456789'' ! d"

function show_nat :: "nat \<Rightarrow> string" where
  "show_nat n = (if n < 10 then [digit_char n] else show_nat (n div 10) @ [digit_char (n mod 10)])"
  by pat_completeness auto
termination
  by (relation "measure (\<lambda>n. n)") auto

declare show_nat.simps [simp del]

definition c_str :: "string \<Rightarrow> string" where
  "c_str s = takeWhile (\<lambda>c. c \<noteq> CHR 0x00) s"

definition dead_reloc_message :: "string \<Rightarrow> nat \<Rightarrow> string \<Rightarrow> string" where
  "dead_reloc_message name idx secname =
     ''symbol '' @ [CHR 0x27] @ c_str name @ [CHR 0x27] @ '' defined in section with index '' @
     [CHR 0x27] @ show_nat idx @ [CHR 0x27] @
     '' cannot be removed because it is referenced by a relocation in section '' @
     [CHR 0x27] @ c_str secname @ [CHR 0x27]"

text \<open>
  The three nested loops that look for a relocation of a remaining section whose
  symbol pointer is set, is not null and is in \<^verbatim>\<open>DeadSymbols\<close>; the first one found
  ends the function with the error.
\<close>

definition refersDead :: "sym_ptr set \<Rightarrow> RelocationInfo \<Rightarrow> bool" where
  "refersDead DeadSymbols R =
     (case Symbol R of Some (Some p) \<Rightarrow> p \<in> DeadSymbols | _ \<Rightarrow> False)"

fun checkRelocations :: "sym_ptr set \<Rightarrow> (sym_ptr \<Rightarrow> SymbolEntry) \<Rightarrow> Section \<Rightarrow> RelocationInfo list \<Rightarrow> Error option" where
  "checkRelocations DeadSymbols heap Sec [] = None"
| "checkRelocations DeadSymbols heap Sec (R # Rs) =
     (if refersDead DeadSymbols R
      then (let S = heap (the (the (Symbol R)))
            in Some (invalid_argument
                 (dead_reloc_message (Name S) (the (section_of S)) (CanonicalName Sec))))
      else checkRelocations DeadSymbols heap Sec Rs)"

fun checkSections :: "sym_ptr set \<Rightarrow> (sym_ptr \<Rightarrow> SymbolEntry) \<Rightarrow> Section list \<Rightarrow> Error option" where
  "checkSections DeadSymbols heap [] = None"
| "checkSections DeadSymbols heap (Sec # Secs) =
     (case checkRelocations DeadSymbols heap Sec (Relocations Sec) of
        Some e \<Rightarrow> Some e
      | None \<Rightarrow> checkSections DeadSymbols heap Secs)"

fun checkLoadCommands :: "sym_ptr set \<Rightarrow> (sym_ptr \<Rightarrow> SymbolEntry) \<Rightarrow> LoadCommand list \<Rightarrow> Error option" where
  "checkLoadCommands DeadSymbols heap [] = None"
| "checkLoadCommands DeadSymbols heap (LC # LCs) =
     (case checkSections DeadSymbols heap (Sections LC) of
        Some e \<Rightarrow> Some e
      | None \<Rightarrow> checkLoadCommands DeadSymbols heap LCs)"

text \<open>
  The last loop: a symbol with a section takes the index of the section recorded
  under its old number, narrowed to the width of \<^verbatim>\<open>n_sect\<close>.  \<^verbatim>\<open>operator[]\<close> of
  the map yields a null pointer for a number that was never recorded; following it
  is outside the language, here the result \<open>None\<close>.
\<close>

fun rewriteSymbols :: "(nat \<rightharpoonup> Section) \<Rightarrow> sym_ptr list \<Rightarrow> (sym_ptr \<Rightarrow> SymbolEntry)
    \<Rightarrow> (sym_ptr \<Rightarrow> SymbolEntry) option" where
  "rewriteSymbols M [] heap = Some heap"
| "rewriteSymbols M (p # ps) heap =
     (if section_of (heap p) \<noteq> None
      then (case M (unat (n_sect (heap p))) of
              None \<Rightarrow> None
            | Some Sec \<Rightarrow>
                rewriteSymbols M ps (heap(p := (heap p)\<lparr>n_sect := of_nat (Index Sec)\<rparr>)))
      else rewriteSymbols M ps heap)"

text \<open>
  \<^verbatim>\<open>Object::removeSections\<close>.  The result is \<open>None\<close> when the function leaves the
  language (the null pointer above), otherwise the returned \<^verbatim>\<open>Error\<close> (\<open>None\<close> for
  success) with the object as the function leaves it.
\<close>

definition removeSections :: "(Section \<Rightarrow> bool) \<Rightarrow> Object \<Rightarrow> (Error option \<times> Object) option" where
  "removeSections ToRemove obj =
     (let (LCs', NextSectionIndex, OldIndexToSection) =
            partitionLoop ToRemove (LoadCommands obj) 1 Map.empty;
          obj1 = obj\<lparr>LoadCommands := LCs'\<rparr>;
          DeadSymbols = set (filter (\<lambda>p. IsDead OldIndexToSection (SymHeap obj1 p)) (Symbols obj1))
      in case checkLoadCommands DeadSymbols (SymHeap obj1) (LoadCommands obj1) of
           Some e \<Rightarrow> Some (Some e, obj1)
         | None \<Rightarrow>
             (let syms' = filter (\<lambda>p. \<not> IsDead OldIndexToSection (SymHeap obj1 p)) (Symbols obj1)
              in case rewriteSymbols OldIndexToSection syms' (SymHeap obj1) of
                   None \<Rightarrow> None
                 | Some heap' \<Rightarrow> Some (None, obj1\<lparr>Symbols := syms', SymHeap := heap'\<rparr>)))"

section \<open>MachOEmitter.cpp: the sink, bytes and structs\<close>

text \<open>
  The sink \<^verbatim>\<open>raw_ostream\<close> is the list of the bytes written so far: \<^verbatim>\<open>tell()\<close> is
  their number and a write appends.
\<close>

type_synonym raw_ostream = "u8 list"

definition tell :: "raw_ostream \<Rightarrow> nat" where
  "tell OS = length OS"

text \<open>
  Modelled from the spec: \<^verbatim>\<open>MachO::swapStruct\<close> and the layout of the structs of
  \<^verbatim>\<open>MachO.h\<close>, which is not among the sources.  The spec: the structs are "fixed-size
  header/command/section/symbol/arch-table structs with byte-exact field ordering and
  widths", and a swap is "a full in-place byte-order reversal of every multi-byte
  field in a struct".

  A struct in memory is the sequence of its fields.  \<open>le_bytes n w\<close> are the \<open>n\<close> low
  bytes of \<open>w\<close>, least significant first; the host stores a field in this order or
  in the reverse one.  \<^verbatim>\<open>swapStruct\<close> reverses the bytes of every multi-byte field
  and leaves character arrays alone, so the image of a field is in the order \<open>le_bytes\<close>
  exactly when the host is little-endian and the struct was not swapped, or the host
  is big-endian and it was.
\<close>

datatype field = F8 u8 | F16 "16 word" | F32 u32 | F64 u64 | FChars "u8 list"

definition le_bytes :: "nat \<Rightarrow> 'a::len word \<Rightarrow> u8 list" where
  "le_bytes n w = map (\<lambda>i. ucast (drop_bit (8 * i) w)) [0..<n]"

definition in_memory :: "bool \<Rightarrow> bool \<Rightarrow> u8 list \<Rightarrow> u8 list" where
  "in_memory hostLE swapped bs = (if hostLE \<noteq> swapped then bs else rev bs)"

fun field_image :: "bool \<Rightarrow> bool \<Rightarrow> field \<Rightarrow> u8 list" where
  "field_image hostLE swapped (F8 b) = [b]"
| "field_image hostLE swapped (F16 w) = in_memory hostLE swapped (le_bytes 2 w)"
| "field_image hostLE swapped (F32 w) = in_memory hostLE swapped (le_bytes 4 w)"
| "field_image hostLE swapped (F64 w) = in_memory hostLE swapped (le_bytes 8 w)"
| "field_image hostLE swapped (FChars cs) = cs"

definition struct_image :: "bool \<Rightarrow> bool \<Rightarrow> field list \<Rightarrow> u8 list" where
  "struct_image hostLE swapped fs = concat (map (field_image hostLE swapped) fs)"

definition byte_of_char :: "char \<Rightarrow> u8" where
  "byte_of_char c = of_nat (of_char c)"

definition bytes_of_string :: "string \<Rightarrow> u8 list" where
  "bytes_of_string s = map byte_of_char s"

text \<open>A character array of 16 bytes, as \<^verbatim>\<open>memcpy\<close> reads it: a shorter name is followed
  by NUL bytes.\<close>

definition char16 :: "string \<Rightarrow> u8 list" where
  "char16 s = take 16 (bytes_of_string s @ replicate 16 0)"

text \<open>
  \<^verbatim>\<open>strncmp(a, b, n) == 0\<close>: the first \<open>n\<close> characters agree, or the strings agree up
  to a NUL before that.  The end of the list stands for the NUL that ends a literal
  and for the NUL bytes that fill a shorter name in its array.
\<close>

fun strncmp_eq :: "string \<Rightarrow> string \<Rightarrow> nat \<Rightarrow> bool" where
  "strncmp_eq a b 0 = True"
| "strncmp_eq a b (Suc n) =
     (let x = (case a of [] \<Rightarrow> CHR 0x00 | c # _ \<Rightarrow> c);
          y = (case b of [] \<Rightarrow> CHR 0x00 | c # _ \<Rightarrow> c)
      in if x \<noteq> y then False
         else if x = CHR 0x00 then True
         else strncmp_eq (tl a) (tl b) n)"

section \<open>MachOEmitter.cpp: the MachOYAML description\<close>

text \<open>
  Modelled from the spec: the structs of \<^verbatim>\<open>MachOYAML.h\<close> (not among the sources), with
  the fields that \<^verbatim>\<open>MachOEmitter.cpp\<close> reads; the spec describes them as the header,
  the load commands with their sections, payload and pad count, the relocations, the
  link-edit data (opcode streams, export trie, symbol list, string table) and the
  fat wrapper with its architectures and slices.  Isabelle's record fields share one name
  space and three of the structs are called like those of the object model above, so
  each field carries a short name of its struct (\<^verbatim>\<open>Sec.offset\<close> is \<open>Sec_offset\<close>)
  and the three types carry the name of their namespace.
\<close>

record FileHeader =
  FH_magic :: u32
  FH_cputype :: u32
  FH_cpusubtype :: u32
  FH_filetype :: u32
  FH_ncmds :: u32
  FH_sizeofcmds :: u32
  FH_flags :: u32
  FH_reserved :: u32

record Relocation =
  Rel_address :: u32
  Rel_symbolnum :: u32
  Rel_is_pcrel :: bool
  Rel_length :: u8
  Rel_is_extern :: bool
  Rel_type :: u8
  Rel_is_scattered :: bool
  Rel_value :: u32

record MachOYAML_Section =
  Sec_sectname :: string
  Sec_segname :: string
  Sec_addr :: u64
  Sec_size :: u64
  Sec_offset :: u32
  Sec_align :: u32
  Sec_reloff :: u32
  Sec_nreloc :: u32
  Sec_flags :: u32
  Sec_reserved1 :: u32
  Sec_reserved2 :: u32
  Sec_reserved3 :: u32
  Sec_content :: "u8 list option"
  Sec_relocations :: "Relocation list"

record build_tool_version =
  BTV_tool :: u32
  BTV_version :: u32

record MachOYAML_LoadCommand =
  Cmd_Data :: macho_load_command
  Cmd_Sections :: "MachOYAML_Section list"
  Cmd_Tools :: "build_tool_version list"
  Cmd_PayloadBytes :: "u8 list"
  Cmd_PayloadString :: string
  Cmd_ZeroPadBytes :: u64

record NListEntry =
  NL_n_strx :: u32
  NL_n_type :: u8
  NL_n_sect :: u8
  NL_n_desc :: "16 word"
  NL_n_value :: u64

record RebaseOpcode =
  Rebase_Opcode :: u8
  Rebase_Imm :: u8
  Rebase_ExtraData :: "u64 list"

record BindOpcode =
  Bind_Opcode :: u8
  Bind_Imm :: u8
  Bind_ULEBExtraData :: "u64 list"
  Bind_SLEBExtraData :: "u64 list"
  Bind_Symbol :: string

datatype ExportEntry = ExportEntry
  (EE_TerminalSize: u64) (EE_NodeOffset: u64) (EE_Name: string) (EE_Flags: u64)
  (EE_Address: u64) (EE_Other: u64) (EE_ImportName: string) (EE_Children: "ExportEntry list")

record LinkEditData =
  LE_RebaseOpcodes :: "RebaseOpcode list"
  LE_BindOpcodes :: "BindOpcode list"
  LE_WeakBindOpcodes :: "BindOpcode list"
  LE_LazyBindOpcodes :: "BindOpcode list"
  LE_ExportTrie :: ExportEntry
  LE_NameList :: "NListEntry list"
  LE_StringTable :: "string list"

text \<open>The debug information is opaque to the writer, which only asks whether the two
  optional tables are there; \<open>'d\<close> is the type of what the emitters take.\<close>

record 'd DWARF_Data =
  PubNames :: "'d option"
  PubTypes :: "'d option"
  DebugSections :: 'd

record 'd MachOYAML_Object =
  Obj_IsLittleEndian :: bool
  Obj_Header :: FileHeader
  Obj_LoadCommands :: "MachOYAML_LoadCommand list"
  Obj_LinkEdit :: LinkEditData
  Obj_DWARF :: "'d DWARF_Data"

record FatHeader =
  FatH_magic :: u32
  FatH_nfat_arch :: u32

record FatArch =
  FA_cputype :: u32
  FA_cpusubtype :: u32
  FA_offset :: u64
  FA_size :: u64
  FA_align :: u32
  FA_reserved :: u32

record 'd UniversalBinary =
  UB_Header :: FatHeader
  UB_FatArchs :: "FatArch list"
  UB_Slices :: "'d MachOYAML_Object list"

record 'd YamlObjectFile =
  YOF_MachO :: "'d MachOYAML_Object option"
  YOF_FatMachO :: "'d UniversalBinary option"

section \<open>MachOEmitter.cpp: what the file takes from headers and libraries\<close>

text \<open>
  Modelled from the spec: the struct that \<^verbatim>\<open>MachO.def\<close> (not among the sources) gives
  a command type, "a fixed-size header struct matching the tag".
  \<^verbatim>\<open>writeLoadCommandData\<close> is specialised for six of them; every other struct of the
  table is \<open>other_struct\<close> with its size.  The sizes are those of the structs of the
  file format; the theorems below hold for any sizes.
\<close>

datatype LCStruct = load_command | segment_command | segment_command_64 | dylib_command
  | dylinker_command | rpath_command | build_version_command | other_struct nat

fun sizeof_LCStruct :: "LCStruct \<Rightarrow> nat" where
  "sizeof_LCStruct load_command = 8"
| "sizeof_LCStruct segment_command = 56"
| "sizeof_LCStruct segment_command_64 = 72"
| "sizeof_LCStruct dylib_command = 24"
| "sizeof_LCStruct dylinker_command = 12"
| "sizeof_LCStruct rpath_command = 12"
| "sizeof_LCStruct build_version_command = 24"
| "sizeof_LCStruct (other_struct n) = n"

text \<open>The member functions that \<^verbatim>\<open>writeLinkEditData\<close> queues.\<close>

datatype writeHandler = WriteNameList | WriteStringTable | WriteRebaseOpcodes
  | WriteBasicBindOpcodes | WriteWeakBindOpcodes | WriteLazyBindOpcodes | WriteExportTrie

text \<open>
  These parts of the program, which are not in the two files, are parameters of the
  model, collected in one record:
  \<^item> \<open>IsLittleEndianHost\<close>: \<^verbatim>\<open>sys::IsLittleEndianHost\<close>;
  \<^item> \<open>lc_struct\<close>: the table of \<^verbatim>\<open>MachO.def\<close>, from the command type to its struct
    (\<open>load_command\<close> for a type that is not in the table: the \<^verbatim>\<open>default\<close> branch);
  \<^item> \<open>lc_image\<close>: byte \<open>i\<close> of the memory of the union member of that struct, after
    \<^verbatim>\<open>swapStruct\<close> when the flag is set;
  \<^item> \<open>isVirtualSection\<close>: \<^verbatim>\<open>MachO::isVirtualSection\<close>;
  \<^item> \<open>encodeULEB128\<close>, \<open>encodeSLEB128\<close>: the bytes the two encoders of
    \<^verbatim>\<open>LEB128.h\<close> write;
  \<^item> the emitters of \<^verbatim>\<open>DWARFYAML\<close>: the bytes each writes and the error it returns.
\<close>

record 'd Env =
  IsLittleEndianHost :: bool
  lc_struct :: "u32 \<Rightarrow> LCStruct"
  lc_image :: "LCStruct \<Rightarrow> bool \<Rightarrow> macho_load_command \<Rightarrow> nat \<Rightarrow> u8"
  isVirtualSection :: "u32 \<Rightarrow> bool"
  encodeULEB128 :: "u64 \<Rightarrow> u8 list"
  encodeSLEB128 :: "u64 \<Rightarrow> u8 list"
  emitDebugStr :: "'d DWARF_Data \<Rightarrow> u8 list \<times> Error option"
  emitDebugAbbrev :: "'d DWARF_Data \<Rightarrow> u8 list \<times> Error option"
  emitDebugAranges :: "'d DWARF_Data \<Rightarrow> u8 list \<times> Error option"
  emitDebugRanges :: "'d DWARF_Data \<Rightarrow> u8 list \<times> Error option"
  emitPubSection :: "'d \<Rightarrow> bool \<Rightarrow> u8 list \<times> Error option"
  emitDebugInfo :: "'d DWARF_Data \<Rightarrow> u8 list \<times> Error option"
  emitDebugLine :: "'d DWARF_Data \<Rightarrow> u8 list \<times> Error option"

text \<open>
  Modelled from the spec: \<^verbatim>\<open>llvm::sort\<close> of \<^verbatim>\<open>STLExtras.h\<close> (not among the sources), which
  the writer calls to "sort all collected operations by ascending target offset".  It
  sorts the range by the comparison it is given: \<open>Comp a b\<close> says that \<open>a\<close> goes before
  \<open>b\<close>.  Each element is put in front of the first element of the sorted rest that
  does not go before it.  The library leaves open the order of elements that the
  comparison does not tell apart; when no two elements are such, the range has only
  one sorted order.
\<close>

fun sort_insert :: "('a \<Rightarrow> 'a \<Rightarrow> bool) \<Rightarrow> 'a \<Rightarrow> 'a list \<Rightarrow> 'a list" where
  "sort_insert Comp x [] = [x]"
| "sort_insert Comp x (y # ys) =
     (if Comp y x then y # sort_insert Comp x ys else x # y # ys)"

fun llvm_sort :: "('a \<Rightarrow> 'a \<Rightarrow> bool) \<Rightarrow> 'a list \<Rightarrow> 'a list" where
  "llvm_sort Comp [] = []"
| "llvm_sort Comp (x # xs) = sort_insert Comp x (llvm_sort Comp xs)"

text \<open>Modelled from the spec: constants of \<^verbatim>\<open>MachO.h\<close> that the file names (the two
  64-bit magic numbers, the fat 64-bit magic number, the mask of the section type,
  the scattered marker bit and two flags of the export trie), with their values in
  the file format.\<close>

definition MH_MAGIC_64 :: u32 where "MH_MAGIC_64 = 0xFEEDFACF"
definition MH_CIGAM_64 :: u32 where "MH_CIGAM_64 = 0xCFFAEDFE"
definition FAT_MAGIC_64 :: u32 where "FAT_MAGIC_64 = 0xCAFEBABF"
definition SECTION_TYPE :: u32 where "SECTION_TYPE = 0x000000FF"
definition R_SCATTERED :: u32 where "R_SCATTERED = 0x80000000"
definition EXPORT_SYMBOL_FLAGS_REEXPORT :: u64 where "EXPORT_SYMBOL_FLAGS_REEXPORT = 0x08"
definition EXPORT_SYMBOL_FLAGS_STUB_AND_RESOLVER :: u64 where
  "EXPORT_SYMBOL_FLAGS_STUB_AND_RESOLVER = 0x10"

section \<open>MachOEmitter.cpp: MachOWriter\<close>

definition is64Bit :: "'d MachOYAML_Object \<Rightarrow> bool" where
  "is64Bit Obj = (FH_magic (Obj_Header Obj) = MH_MAGIC_64 \<or> FH_magic (Obj_Header Obj) = MH_CIGAM_64)"

definition swap_needed :: "'d Env \<Rightarrow> bool \<Rightarrow> bool" where
  "swap_needed env IsLittleEndian = (IsLittleEndian \<noteq> IsLittleEndianHost env)"

text \<open>\<^verbatim>\<open>writeHeader\<close>: the eight fields, swapped as a struct when the image's byte order is
  not the host's; the first 32 or 28 bytes are written.\<close>

definition writeHeader :: "'d Env \<Rightarrow> 'd MachOYAML_Object \<Rightarrow> raw_ostream \<Rightarrow> raw_ostream" where
  "writeHeader env Obj OS =
     (let H = Obj_Header Obj;
          Header = struct_image (IsLittleEndianHost env) (swap_needed env (Obj_IsLittleEndian Obj))
                     [F32 (FH_magic H), F32 (FH_cputype H), F32 (FH_cpusubtype H),
                      F32 (FH_filetype H), F32 (FH_ncmds H), F32 (FH_sizeofcmds H),
                      F32 (FH_flags H), F32 (FH_reserved H)];
          header_size = (if is64Bit Obj then 32 else 28)
      in OS @ take header_size Header)"

text \<open>\<^verbatim>\<open>constructSection\<close> for the two section structs (68 and 80 bytes); the 32-bit
  struct narrows the address and the size.\<close>

definition constructSection :: "MachOYAML_Section \<Rightarrow> field list" where
  "constructSection Sec =
     [FChars (char16 (Sec_sectname Sec)), FChars (char16 (Sec_segname Sec)),
      F32 (ucast (Sec_addr Sec)), F32 (ucast (Sec_size Sec)), F32 (Sec_offset Sec),
      F32 (Sec_align Sec), F32 (Sec_reloff Sec), F32 (Sec_nreloc Sec), F32 (Sec_flags Sec),
      F32 (Sec_reserved1 Sec), F32 (Sec_reserved2 Sec)]"

definition constructSection_64 :: "MachOYAML_Section \<Rightarrow> field list" where
  "constructSection_64 Sec =
     [FChars (char16 (Sec_sectname Sec)), FChars (char16 (Sec_segname Sec)),
      F64 (Sec_addr Sec), F64 (Sec_size Sec), F32 (Sec_offset Sec),
      F32 (Sec_align Sec), F32 (Sec_reloff Sec), F32 (Sec_nreloc Sec), F32 (Sec_flags Sec),
      F32 (Sec_reserved1 Sec), F32 (Sec_reserved2 Sec), F32 (Sec_reserved3 Sec)]"

text \<open>
  \<^verbatim>\<open>writeLoadCommandData\<close>, by the struct it is instantiated for: the bytes it writes.
  The number it returns is their count (each write adds the size it writes).
  \<^verbatim>\<open>writePayloadString\<close> writes the characters of the string, without a NUL.
\<close>

definition writePayloadString :: "MachOYAML_LoadCommand \<Rightarrow> u8 list" where
  "writePayloadString LC = bytes_of_string (Cmd_PayloadString LC)"

fun writeLoadCommandData :: "LCStruct \<Rightarrow> 'd Env \<Rightarrow> MachOYAML_LoadCommand \<Rightarrow> bool \<Rightarrow> u8 list" where
  "writeLoadCommandData segment_command env LC IsLittleEndian =
     concat (map (\<lambda>Sec. struct_image (IsLittleEndianHost env) (swap_needed env IsLittleEndian)
                          (constructSection Sec)) (Cmd_Sections LC))"
| "writeLoadCommandData segment_command_64 env LC IsLittleEndian =
     concat (map (\<lambda>Sec. struct_image (IsLittleEndianHost env) (swap_needed env IsLittleEndian)
                          (constructSection_64 Sec)) (Cmd_Sections LC))"
| "writeLoadCommandData dylib_command env LC IsLittleEndian = writePayloadString LC"
| "writeLoadCommandData dylinker_command env LC IsLittleEndian = writePayloadString LC"
| "writeLoadCommandData rpath_command env LC IsLittleEndian = writePayloadString LC"
| "writeLoadCommandData build_version_command env LC IsLittleEndian =
     concat (map (\<lambda>T. struct_image (IsLittleEndianHost env) (swap_needed env IsLittleEndian)
                        [F32 (BTV_tool T), F32 (BTV_version T)]) (Cmd_Tools LC))"
| "writeLoadCommandData st env LC IsLittleEndian = []"

text \<open>\<^verbatim>\<open>ZeroFillBytes\<close> writes a vector of \<open>Size\<close> zero bytes.  (The vector needs that much
  memory; a size that no memory holds ends the program, which the list does not
  show.)\<close>

definition ZeroFillBytes :: "raw_ostream \<Rightarrow> nat \<Rightarrow> raw_ostream" where
  "ZeroFillBytes OS Size = OS @ replicate Size 0"

text \<open>
  \<^verbatim>\<open>Fill\<close>: a vector of \<open>Size / 4 + 1\<close> copies of the 32-bit value; the first \<open>Size\<close>
  bytes of its memory are written.
\<close>

definition Fill :: "'d Env \<Rightarrow> raw_ostream \<Rightarrow> nat \<Rightarrow> u32 \<Rightarrow> raw_ostream" where
  "Fill env OS Size Data =
     OS @ take Size (concat (replicate (Size div 4 + 1)
                               (field_image (IsLittleEndianHost env) False (F32 Data))))"

text \<open>
  \<^verbatim>\<open>ZeroToOffset\<close>, of both writers.  The position never falls below \<open>fileStart\<close>,
  which is the position at the start of the image.
\<close>

definition ZeroToOffset :: "nat \<Rightarrow> raw_ostream \<Rightarrow> nat \<Rightarrow> raw_ostream" where
  "ZeroToOffset fileStart OS Offset =
     (let currOffset = tell OS - fileStart
      in if currOffset < Offset then ZeroFillBytes OS (Offset - currOffset) else OS)"

text \<open>
  One round of the loop of \<^verbatim>\<open>writeLoadCommands\<close>.  \<open>BytesWritten\<close> is a \<^verbatim>\<open>size_t\<close>
  (64 bits) and \<open>BytesRemaining\<close> is the unsigned difference: when more was written
  than \<open>cmdsize\<close>, it wraps around instead of being negative.
\<close>

definition writeLoadCommand :: "'d Env \<Rightarrow> 'd MachOYAML_Object \<Rightarrow> raw_ostream \<Rightarrow> MachOYAML_LoadCommand \<Rightarrow> raw_ostream" where
  "writeLoadCommand env Obj OS LC =
     (let Data = Cmd_Data LC;
          st = lc_struct env (cmd Data);
          hdr = map (lc_image env st (swap_needed env (Obj_IsLittleEndian Obj)) Data)
                    [0..<sizeof_LCStruct st];
          dat = writeLoadCommandData st env LC (Obj_IsLittleEndian Obj);
          OS1 = OS @ hdr @ dat;
          BytesWritten1 = (of_nat (sizeof_LCStruct st) + of_nat (length dat) :: u64);
          (OS2, BytesWritten2) =
             (if length (Cmd_PayloadBytes LC) > 0
              then (OS1 @ Cmd_PayloadBytes LC, BytesWritten1 + of_nat (length (Cmd_PayloadBytes LC)))
              else (OS1, BytesWritten1));
          (OS3, BytesWritten3) =
             (if Cmd_ZeroPadBytes LC > 0
              then (ZeroFillBytes OS2 (unat (Cmd_ZeroPadBytes LC)), BytesWritten2 + Cmd_ZeroPadBytes LC)
              else (OS2, BytesWritten2));
          BytesRemaining = (ucast (cmdsize Data) :: u64) - BytesWritten3
      in if BytesRemaining > 0 then ZeroFillBytes OS3 (unat BytesRemaining) else OS3)"

definition writeLoadCommands :: "'d Env \<Rightarrow> 'd MachOYAML_Object \<Rightarrow> raw_ostream \<Rightarrow> raw_ostream" where
  "writeLoadCommands env Obj OS = foldl (writeLoadCommand env Obj) OS (Obj_LoadCommands Obj)"

subsection \<open>The link-edit writers\<close>

definition writeRebaseOpcodes :: "'d Env \<Rightarrow> 'd MachOYAML_Object \<Rightarrow> raw_ostream \<Rightarrow> raw_ostream" where
  "writeRebaseOpcodes env Obj OS =
     OS @ concat (map (\<lambda>Opcode. (Rebase_Opcode Opcode OR Rebase_Imm Opcode) #
                                 concat (map (encodeULEB128 env) (Rebase_ExtraData Opcode)))
                      (LE_RebaseOpcodes (Obj_LinkEdit Obj)))"

definition writeBindOpcodes :: "'d Env \<Rightarrow> raw_ostream \<Rightarrow> BindOpcode list \<Rightarrow> raw_ostream" where
  "writeBindOpcodes env OS BindOpcodes =
     OS @ concat (map (\<lambda>Opcode. (Bind_Opcode Opcode OR Bind_Imm Opcode) #
                                 concat (map (encodeULEB128 env) (Bind_ULEBExtraData Opcode)) @
                                 concat (map (encodeSLEB128 env) (Bind_SLEBExtraData Opcode)) @
                                 (if Bind_Symbol Opcode \<noteq> []
                                  then bytes_of_string (Bind_Symbol Opcode) @ [0] else []))
                      BindOpcodes)"

text \<open>\<^verbatim>\<open>dumpExportEntry\<close>: the bytes of a node, the table of its children, then the
  children themselves.\<close>

fun dumpExportEntry :: "'d Env \<Rightarrow> ExportEntry \<Rightarrow> u8 list" where
  "dumpExportEntry env (ExportEntry TerminalSize NodeOffset Nm Flags Address Other ImportName Children) =
     encodeSLEB128 env TerminalSize @
     (if TerminalSize > 0
      then encodeSLEB128 env Flags @
           (if Flags AND EXPORT_SYMBOL_FLAGS_REEXPORT \<noteq> 0
            then encodeSLEB128 env Other @ bytes_of_string ImportName @ [0]
            else encodeSLEB128 env Address @
                 (if Flags AND EXPORT_SYMBOL_FLAGS_STUB_AND_RESOLVER \<noteq> 0
                  then encodeSLEB128 env Other else []))
      else []) @
     [of_nat (length Children)] @
     concat (map (\<lambda>EE. bytes_of_string (EE_Name EE) @ [0] @ encodeSLEB128 env (EE_NodeOffset EE))
                 Children) @
     concat (map (dumpExportEntry env) Children)"

definition writeExportTrie :: "'d Env \<Rightarrow> 'd MachOYAML_Object \<Rightarrow> raw_ostream \<Rightarrow> raw_ostream" where
  "writeExportTrie env Obj OS = OS @ dumpExportEntry env (LE_ExportTrie (Obj_LinkEdit Obj))"

text \<open>\<^verbatim>\<open>writeNListEntry\<close> for \<^verbatim>\<open>nlist_64\<close> and for \<^verbatim>\<open>nlist\<close>, whose value has 32 bits.\<close>

definition writeNListEntry :: "bool \<Rightarrow> 'd Env \<Rightarrow> NListEntry \<Rightarrow> bool \<Rightarrow> u8 list" where
  "writeNListEntry is64 env NLE IsLittleEndian =
     struct_image (IsLittleEndianHost env) (swap_needed env IsLittleEndian)
       [F32 (NL_n_strx NLE), F8 (NL_n_type NLE), F8 (NL_n_sect NLE), F16 (NL_n_desc NLE),
        (if is64 then F64 (NL_n_value NLE) else F32 (ucast (NL_n_value NLE)))]"

definition writeNameList :: "'d Env \<Rightarrow> 'd MachOYAML_Object \<Rightarrow> raw_ostream \<Rightarrow> raw_ostream" where
  "writeNameList env Obj OS =
     OS @ concat (map (\<lambda>NLE. writeNListEntry (is64Bit Obj) env NLE (Obj_IsLittleEndian Obj))
                      (LE_NameList (Obj_LinkEdit Obj)))"

definition writeStringTable :: "'d Env \<Rightarrow> 'd MachOYAML_Object \<Rightarrow> raw_ostream \<Rightarrow> raw_ostream" where
  "writeStringTable env Obj OS =
     OS @ concat (map (\<lambda>Str. bytes_of_string Str @ [0]) (LE_StringTable (Obj_LinkEdit Obj)))"

fun callHandler :: "'d Env \<Rightarrow> 'd MachOYAML_Object \<Rightarrow> writeHandler \<Rightarrow> raw_ostream \<Rightarrow> raw_ostream" where
  "callHandler env Obj WriteNameList OS = writeNameList env Obj OS"
| "callHandler env Obj WriteStringTable OS = writeStringTable env Obj OS"
| "callHandler env Obj WriteRebaseOpcodes OS = writeRebaseOpcodes env Obj OS"
| "callHandler env Obj WriteBasicBindOpcodes OS = writeBindOpcodes env OS (LE_BindOpcodes (Obj_LinkEdit Obj))"
| "callHandler env Obj WriteWeakBindOpcodes OS = writeBindOpcodes env OS (LE_WeakBindOpcodes (Obj_LinkEdit Obj))"
| "callHandler env Obj WriteLazyBindOpcodes OS = writeBindOpcodes env OS (LE_LazyBindOpcodes (Obj_LinkEdit Obj))"
| "callHandler env Obj WriteExportTrie OS = writeExportTrie env Obj OS"

text \<open>
  \<^verbatim>\<open>writeLinkEditData\<close>: the first loop fills \<open>WriteQueue\<close> from every symbol table
  command and every \<^verbatim>\<open>LC_DYLD_INFO_ONLY\<close> command, in command order; the queue is
  sorted with the comparison \<^verbatim>\<open>a.first < b.first\<close> of the offsets; the second loop
  pads to each offset and calls the handler.
\<close>

definition queueOf :: "MachOYAML_LoadCommand \<Rightarrow> (u64 \<times> writeHandler) list" where
  "queueOf LC =
     (let D = Cmd_Data LC in
      if cmd D = LC_SYMTAB
      then [(ucast (symoff D), WriteNameList), (ucast (stroff D), WriteStringTable)]
      else if cmd D = LC_DYLD_INFO_ONLY
      then [(ucast (rebase_off D), WriteRebaseOpcodes), (ucast (bind_off D), WriteBasicBindOpcodes),
            (ucast (weak_bind_off D), WriteWeakBindOpcodes),
            (ucast (lazy_bind_off D), WriteLazyBindOpcodes),
            (ucast (export_off D), WriteExportTrie)]
      else [])"

definition collectQueue :: "MachOYAML_LoadCommand list \<Rightarrow> (u64 \<times> writeHandler) list" where
  "collectQueue LCs = concat (map queueOf LCs)"

fun runQueue :: "'d Env \<Rightarrow> 'd MachOYAML_Object \<Rightarrow> nat \<Rightarrow> raw_ostream \<Rightarrow> (u64 \<times> writeHandler) list \<Rightarrow> raw_ostream" where
  "runQueue env Obj fileStart OS [] = OS"
| "runQueue env Obj fileStart OS (writeOp # WriteQueue) =
     runQueue env Obj fileStart
       (callHandler env Obj (snd writeOp) (ZeroToOffset fileStart OS (unat (fst writeOp))))
       WriteQueue"

definition writeLinkEditData :: "'d Env \<Rightarrow> 'd MachOYAML_Object \<Rightarrow> nat \<Rightarrow> raw_ostream \<Rightarrow> raw_ostream" where
  "writeLinkEditData env Obj fileStart OS =
     runQueue env Obj fileStart OS
       (llvm_sort (\<lambda>a b. fst a < fst b) (collectQueue (Obj_LoadCommands Obj)))"

subsection \<open>Section data\<close>

definition offsets_error :: Error where
  "offsets_error = invalid_argument
     (''wrote too much data somewhere, section offsets don'' @ [CHR 0x27] @ ''t line up'')"

text \<open>The chain of comparisons for a section of the \<^verbatim>\<open>__DWARF\<close> segment: the bytes the
  chosen emitter writes and its error; nothing for any other section name.\<close>

definition emitDWARF :: "'d Env \<Rightarrow> 'd MachOYAML_Object \<Rightarrow> MachOYAML_Section \<Rightarrow> u8 list \<times> Error option" where
  "emitDWARF env Obj Sec =
     (let nm = Sec_sectname Sec; DWARF = Obj_DWARF Obj in
      if strncmp_eq nm ''__debug_str'' 16 then emitDebugStr env DWARF
      else if strncmp_eq nm ''__debug_abbrev'' 16 then emitDebugAbbrev env DWARF
      else if strncmp_eq nm ''__debug_aranges'' 16 then emitDebugAranges env DWARF
      else if strncmp_eq nm ''__debug_ranges'' 16 then emitDebugRanges env DWARF
      else if strncmp_eq nm ''__debug_pubnames'' 16
      then (case PubNames DWARF of
              Some P \<Rightarrow> emitPubSection env P (Obj_IsLittleEndian Obj) | None \<Rightarrow> ([], None))
      else if strncmp_eq nm ''__debug_pubtypes'' 16
      then (case PubTypes DWARF of
              Some P \<Rightarrow> emitPubSection env P (Obj_IsLittleEndian Obj) | None \<Rightarrow> ([], None))
      else if strncmp_eq nm ''__debug_info'' 16 then emitDebugInfo env DWARF
      else if strncmp_eq nm ''__debug_line'' 16 then emitDebugLine env DWARF
      else ([], None))"

text \<open>
  The body of the loop over the sections of a segment: the returned error, if any,
  ends \<^verbatim>\<open>writeSectionData\<close>.  The size of the zero fill after inline content is an
  unsigned 64-bit difference.
\<close>

definition writeSection :: "'d Env \<Rightarrow> 'd MachOYAML_Object \<Rightarrow> nat \<Rightarrow> raw_ostream \<Rightarrow> MachOYAML_Section \<Rightarrow> Error option \<times> raw_ostream" where
  "writeSection env Obj fileStart OS Sec =
     (let OS1 = ZeroToOffset fileStart OS (unat (Sec_offset Sec)) in
      if tell OS1 - fileStart > unat (Sec_offset Sec) \<and> Sec_offset Sec \<noteq> 0
      then (Some offsets_error, OS1)
      else if strncmp_eq (Sec_segname Sec) ''__DWARF'' 16
      then (let (bytes, Err) = emitDWARF env Obj Sec in (Err, OS1 @ bytes))
      else if isVirtualSection env (Sec_flags Sec AND SECTION_TYPE) then (None, OS1)
      else (case Sec_content Sec of
              Some Content \<Rightarrow>
                (None, ZeroFillBytes (OS1 @ Content)
                         (unat (Sec_size Sec - of_nat (length Content))))
            | None \<Rightarrow> (None, Fill env OS1 (unat (Sec_size Sec)) 0xDEADBEEF)))"

fun writeSections :: "'d Env \<Rightarrow> 'd MachOYAML_Object \<Rightarrow> nat \<Rightarrow> raw_ostream \<Rightarrow> MachOYAML_Section list \<Rightarrow> Error option \<times> raw_ostream" where
  "writeSections env Obj fileStart OS [] = (None, OS)"
| "writeSections env Obj fileStart OS (Sec # Secs) =
     (case writeSection env Obj fileStart OS Sec of
        (Some Err, OS') \<Rightarrow> (Some Err, OS')
      | (None, OS') \<Rightarrow> writeSections env Obj fileStart OS' Secs)"

text \<open>
  The loop of \<^verbatim>\<open>writeSectionData\<close> over the load commands, with the flag
  \<open>FoundLinkEditSeg\<close> of the writer as part of the state.
\<close>

fun writeSectionData :: "'d Env \<Rightarrow> 'd MachOYAML_Object \<Rightarrow> nat \<Rightarrow> bool \<Rightarrow> raw_ostream \<Rightarrow> MachOYAML_LoadCommand list
    \<Rightarrow> Error option \<times> bool \<times> raw_ostream" where
  "writeSectionData env Obj fileStart FoundLinkEditSeg OS [] = (None, FoundLinkEditSeg, OS)"
| "writeSectionData env Obj fileStart FoundLinkEditSeg OS (LC # LCs) =
     (let D = Cmd_Data LC in
      if cmd D = LC_SEGMENT \<or> cmd D = LC_SEGMENT_64
      then (let segOff = (if is64Bit Obj then fileoff_64 D else ucast (fileoff D));
                isLinkEdit = strncmp_eq (segname D) ''__LINKEDIT'' 16;
                Found = (FoundLinkEditSeg \<or> isLinkEdit);
                OS1 = (if isLinkEdit then writeLinkEditData env Obj fileStart OS else OS)
            in case writeSections env Obj fileStart OS1 (Cmd_Sections LC) of
                 (Some Err, OS2) \<Rightarrow> (Some Err, Found, OS2)
               | (None, OS2) \<Rightarrow>
                   (let segSize = (if is64Bit Obj then filesize_64 D else ucast (filesize D))
                    in writeSectionData env Obj fileStart Found
                         (ZeroToOffset fileStart OS2 (unat (segOff + segSize))) LCs))
      else writeSectionData env Obj fileStart FoundLinkEditSeg OS LCs)"

subsection \<open>Relocations\<close>

text \<open>\<^verbatim>\<open>makeRelocationInfo\<close> and \<^verbatim>\<open>makeScatteredRelocationInfo\<close>: the two words
  \<open>r_word0\<close> and \<open>r_word1\<close>.  The casts to \<^verbatim>\<open>unsigned\<close> widen to 32 bits.\<close>

definition makeRelocationInfo :: "Relocation \<Rightarrow> bool \<Rightarrow> u32 \<times> u32" where
  "makeRelocationInfo R IsLE =
     (Rel_address R,
      if IsLE
      then push_bit 0 (Rel_symbolnum R) OR push_bit 24 (of_bool (Rel_is_pcrel R)) OR
           push_bit 25 (ucast (Rel_length R)) OR push_bit 27 (of_bool (Rel_is_extern R)) OR
           push_bit 28 (ucast (Rel_type R))
      else push_bit 8 (Rel_symbolnum R) OR push_bit 7 (of_bool (Rel_is_pcrel R)) OR
           push_bit 5 (ucast (Rel_length R)) OR push_bit 4 (of_bool (Rel_is_extern R)) OR
           push_bit 0 (ucast (Rel_type R)))"

definition makeScatteredRelocationInfo :: "Relocation \<Rightarrow> u32 \<times> u32" where
  "makeScatteredRelocationInfo R =
     (push_bit 0 (Rel_address R) OR push_bit 24 (ucast (Rel_type R)) OR
      push_bit 28 (ucast (Rel_length R)) OR push_bit 30 (of_bool (Rel_is_pcrel R)) OR R_SCATTERED,
      Rel_value R)"

text \<open>The body of the innermost loop of \<^verbatim>\<open>writeRelocations\<close>: the eight bytes of one
  relocation.\<close>

definition writeRelocation :: "'d Env \<Rightarrow> 'd MachOYAML_Object \<Rightarrow> Relocation \<Rightarrow> u8 list" where
  "writeRelocation env Obj R =
     (let MRE = (if Rel_is_scattered R then makeScatteredRelocationInfo R
                 else makeRelocationInfo R (Obj_IsLittleEndian Obj))
      in struct_image (IsLittleEndianHost env) (swap_needed env (Obj_IsLittleEndian Obj))
           [F32 (fst MRE), F32 (snd MRE)])"

definition writeSectionRelocations :: "'d Env \<Rightarrow> 'd MachOYAML_Object \<Rightarrow> nat \<Rightarrow> raw_ostream \<Rightarrow> MachOYAML_Section \<Rightarrow> raw_ostream" where
  "writeSectionRelocations env Obj fileStart OS Sec =
     (if Sec_relocations Sec = [] then OS
      else ZeroToOffset fileStart OS (unat (Sec_reloff Sec)) @
           concat (map (writeRelocation env Obj) (Sec_relocations Sec)))"

definition writeRelocations :: "'d Env \<Rightarrow> 'd MachOYAML_Object \<Rightarrow> nat \<Rightarrow> raw_ostream \<Rightarrow> raw_ostream" where
  "writeRelocations env Obj fileStart OS =
     foldl (\<lambda>OS LC. if cmd (Cmd_Data LC) = LC_SEGMENT \<or> cmd (Cmd_Data LC) = LC_SEGMENT_64
                     then foldl (writeSectionRelocations env Obj fileStart) OS (Cmd_Sections LC)
                     else OS)
           OS (Obj_LoadCommands Obj)"

subsection \<open>The whole image\<close>

definition MachOWriter_writeMachO :: "'d Env \<Rightarrow> 'd MachOYAML_Object \<Rightarrow> raw_ostream \<Rightarrow> Error option \<times> raw_ostream" where
  "MachOWriter_writeMachO env Obj OS =
     (let fileStart = tell OS;
          OS1 = writeHeader env Obj OS;
          OS2 = writeLoadCommands env Obj OS1
      in case writeSectionData env Obj fileStart False OS2 (Obj_LoadCommands Obj) of
           (Some Err, FoundLinkEditSeg, OS3) \<Rightarrow> (Some Err, OS3)
         | (None, FoundLinkEditSeg, OS3) \<Rightarrow>
             (let OS4 = writeRelocations env Obj fileStart OS3
              in (None, if \<not> FoundLinkEditSeg then writeLinkEditData env Obj fileStart OS4 else OS4)))"

section \<open>MachOEmitter.cpp: UniversalWriter\<close>

text \<open>The fat header and the table of architectures are swapped on a little-endian
  host, that is, they are big-endian in the file.\<close>

definition writeFatHeader :: "'d Env \<Rightarrow> 'd UniversalBinary \<Rightarrow> raw_ostream \<Rightarrow> raw_ostream" where
  "writeFatHeader env FatFile OS =
     OS @ struct_image (IsLittleEndianHost env) (IsLittleEndianHost env)
            [F32 (FatH_magic (UB_Header FatFile)), F32 (FatH_nfat_arch (UB_Header FatFile))]"

definition writeFatArch :: "bool \<Rightarrow> 'd Env \<Rightarrow> FatArch \<Rightarrow> u8 list" where
  "writeFatArch is64 env Arch =
     struct_image (IsLittleEndianHost env) (IsLittleEndianHost env)
       (if is64
        then [F32 (FA_cputype Arch), F32 (FA_cpusubtype Arch), F64 (FA_offset Arch),
              F64 (FA_size Arch), F32 (FA_align Arch), F32 (FA_reserved Arch)]
        else [F32 (FA_cputype Arch), F32 (FA_cpusubtype Arch), F32 (ucast (FA_offset Arch)),
              F32 (ucast (FA_size Arch)), F32 (FA_align Arch)])"

definition writeFatArchs :: "'d Env \<Rightarrow> 'd UniversalBinary \<Rightarrow> raw_ostream \<Rightarrow> raw_ostream" where
  "writeFatArchs env FatFile OS =
     OS @ concat (map (writeFatArch (FatH_magic (UB_Header FatFile) = FAT_MAGIC_64) env)
                      (UB_FatArchs FatFile))"

definition slices_error :: Error where
  "slices_error = invalid_argument
     (''cannot write '' @ [CHR 0x27] @ ''Slices'' @ [CHR 0x27] @ '' if not described in '' @
      [CHR 0x27] @ ''FatArches'' @ [CHR 0x27])"

text \<open>
  The loop over the slices.  It runs after the check that there are at least as many
  architectures as slices, so slice \<open>i\<close> is paired with \<open>FatArchs[i]\<close>.
\<close>

fun writeSlices :: "'d Env \<Rightarrow> nat \<Rightarrow> raw_ostream \<Rightarrow> (FatArch \<times> 'd MachOYAML_Object) list \<Rightarrow> Error option \<times> raw_ostream" where
  "writeSlices env fileStart OS [] = (None, OS)"
| "writeSlices env fileStart OS ((Arch, Slice) # rest) =
     (case MachOWriter_writeMachO env Slice (ZeroToOffset fileStart OS (unat (FA_offset Arch))) of
        (Some Err, OS') \<Rightarrow> (Some Err, OS')
      | (None, OS') \<Rightarrow>
          writeSlices env fileStart
            (ZeroToOffset fileStart OS' (unat (FA_offset Arch + FA_size Arch))) rest)"

text \<open>
  \<^verbatim>\<open>UniversalWriter::writeMachO\<close>.  With neither pointer set the function follows a
  null pointer: the result \<open>None\<close>.
\<close>

definition UniversalWriter_writeMachO :: "'d Env \<Rightarrow> 'd YamlObjectFile \<Rightarrow> raw_ostream \<Rightarrow> (Error option \<times> raw_ostream) option" where
  "UniversalWriter_writeMachO env ObjectFile OS =
     (let fileStart = tell OS in
      case YOF_MachO ObjectFile of
        Some Obj \<Rightarrow> Some (MachOWriter_writeMachO env Obj OS)
      | None \<Rightarrow>
          (case YOF_FatMachO ObjectFile of
             None \<Rightarrow> None
           | Some FatFile \<Rightarrow>
               (let OS2 = writeFatArchs env FatFile (writeFatHeader env FatFile OS) in
                if length (UB_FatArchs FatFile) < length (UB_Slices FatFile)
                then Some (Some slices_error, OS2)
                else Some (writeSlices env fileStart OS2
                             (zip (UB_FatArchs FatFile) (UB_Slices FatFile))))))"

section \<open>Vocabulary for the statements about removeSections\<close>

text \<open>
  The sections of an object in load-command order, the sections that a predicate
  leaves, a section with its index blanked (to compare sections up to their index),
  and load commands that agree on everything but their section lists.
\<close>

definition all_sections :: "LoadCommand list \<Rightarrow> Section list" where
  "all_sections LCs = concat (map Sections LCs)"

definition survivors :: "(Section \<Rightarrow> bool) \<Rightarrow> LoadCommand list \<Rightarrow> Section list" where
  "survivors ToRemove LCs = concat (map (\<lambda>LC. filter (\<lambda>Sec. \<not> ToRemove Sec) (Sections LC)) LCs)"

definition forget_index :: "Section \<Rightarrow> Section" where
  "forget_index s = s\<lparr>Index := 0\<rparr>"

definition same_but_sections :: "LoadCommand \<Rightarrow> LoadCommand \<Rightarrow> bool" where
  "same_but_sections LC' LC = (LC'\<lparr>Sections := []\<rparr> = LC\<lparr>Sections := []\<rparr>)"

text \<open>Closed forms used in the proofs: the sections numbered from \<open>n\<close>, a relocation
  that triggers the error, and the symbol entry the last loop leaves.\<close>

definition renumber :: "nat \<Rightarrow> Section list \<Rightarrow> Section list" where
  "renumber n ss = map (\<lambda>(s, i). s\<lparr>Index := i\<rparr>) (zip ss [n..<n + length ss])"

definition offending :: "sym_ptr set \<Rightarrow> (sym_ptr \<Rightarrow> SymbolEntry) \<Rightarrow> Section \<Rightarrow> RelocationInfo \<Rightarrow> Error \<Rightarrow> bool" where
  "offending D heap Sec R e =
     (\<exists>p. Symbol R = Some (Some p) \<and> p \<in> D \<and>
          e = invalid_argument (dead_reloc_message (Name (heap p)) (the (section_of (heap p))) (CanonicalName Sec)))"

definition rewritten :: "(nat \<rightharpoonup> Section) \<Rightarrow> SymbolEntry \<Rightarrow> SymbolEntry" where
  "rewritten M S = (if section_of S \<noteq> None
                    then S\<lparr>n_sect := of_nat (Index (the (M (unat (n_sect S)))))\<rparr> else S)"

text \<open>
  The number that a string of decimal digits names, to say which number a message
  shows: the string is read digit by digit; it names no number when it is empty, has
  a character that is not a digit, or has a leading zero before further digits.
\<close>

definition digit_of :: "char \<Rightarrow> nat option" where
  "digit_of c = (if c \<in> set ''0123456789'' then Some (of_char c - 48) else None)"

fun digits_value :: "nat \<Rightarrow> string \<Rightarrow> nat option" where
  "digits_value acc [] = Some acc"
| "digits_value acc (c # cs) =
     (case digit_of c of None \<Rightarrow> None | Some d \<Rightarrow> digits_value (10 * acc + d) cs)"

definition read_decimal :: "string \<Rightarrow> nat option" where
  "read_decimal s =
     (if s = [] \<or> (hd s = CHR ''0'' \<and> tl s \<noteq> []) then None else digits_value 0 s)"

section \<open>A small object for the concrete checks\<close>

text \<open>
  Three sections in two segments and a symbol table command.  The one relocation,
  in \<^verbatim>\<open>__TEXT,__text\<close>, refers to the symbol at address 7, which is defined in
  section 2 (\<^verbatim>\<open>__DATA,__data\<close>).
\<close>

definition ex_reloc :: RelocationInfo where
  "ex_reloc = \<lparr>Symbol = Some (Some 7)\<rparr>"

definition ex_text :: Section where
  "ex_text = \<lparr>Index = 1, CanonicalName = ''__TEXT,__text'', Relocations = [ex_reloc]\<rparr>"

definition ex_data :: Section where
  "ex_data = \<lparr>Index = 2, CanonicalName = ''__DATA,__data'', Relocations = []\<rparr>"

definition ex_bss :: Section where
  "ex_bss = \<lparr>Index = 3, CanonicalName = ''__DATA,__bss'', Relocations = []\<rparr>"

definition ex_heap :: "sym_ptr \<Rightarrow> SymbolEntry" where
  "ex_heap p = (if p = 7 then \<lparr>Name = ''_foo'', n_sect = 2\<rparr>
                else if p = 8 then \<lparr>Name = ''_bar'', n_sect = 3\<rparr>
                else if p = 10 then \<lparr>Name = ''_main'', n_sect = 1\<rparr>
                else \<lparr>Name = ''_abs'', n_sect = 0\<rparr>)"

definition ex_object :: Object where
  "ex_object = \<lparr>Is64Bit = True,
     LoadCommands = [\<lparr>MachOLoadCommand = constructSegment LC_SEGMENT_64 ''__TEXT'', Sections = [ex_text]\<rparr>,
                     \<lparr>MachOLoadCommand = constructSegment LC_SEGMENT_64 ''__DATA'', Sections = [ex_data, ex_bss]\<rparr>,
                     \<lparr>MachOLoadCommand = zero_load_command\<lparr>cmd := LC_SYMTAB\<rparr>, Sections = []\<rparr>],
     Symbols = [7, 8, 9, 10], SymHeap = ex_heap,
     SymTabCommandIndex = Some 2, DySymTabCommandIndex = None, DyLdInfoCommandIndex = None,
     DataInCodeCommandIndex = None, FunctionStartsCommandIndex = None\<rparr>"

definition is_data :: "Section \<Rightarrow> bool" where
  "is_data Sec = (CanonicalName Sec = ''__DATA,__data'')"

definition is_text :: "Section \<Rightarrow> bool" where
  "is_text Sec = (CanonicalName Sec = ''__TEXT,__text'')"

text \<open>The object after the failed removal of \<^verbatim>\<open>__DATA,__data\<close>, the error
  message of that run, and the object after the removal of \<^verbatim>\<open>__TEXT,__text\<close>.\<close>

definition ex_failed :: Object where
  "ex_failed = ex_object\<lparr>LoadCommands :=
       [\<lparr>MachOLoadCommand = constructSegment LC_SEGMENT_64 ''__TEXT'', Sections = [ex_text]\<rparr>,
        \<lparr>MachOLoadCommand = constructSegment LC_SEGMENT_64 ''__DATA'', Sections = [ex_bss\<lparr>Index := 2\<rparr>]\<rparr>,
        \<lparr>MachOLoadCommand = zero_load_command\<lparr>cmd := LC_SYMTAB\<rparr>, Sections = []\<rparr>]\<rparr>"

definition ex_after :: Object where
  "ex_after = ex_object\<lparr>LoadCommands :=
       [\<lparr>MachOLoadCommand = constructSegment LC_SEGMENT_64 ''__TEXT'', Sections = []\<rparr>,
        \<lparr>MachOLoadCommand = constructSegment LC_SEGMENT_64 ''__DATA'',
          Sections = [ex_data\<lparr>Index := 1\<rparr>, ex_bss\<lparr>Index := 2\<rparr>]\<rparr>,
        \<lparr>MachOLoadCommand = zero_load_command\<lparr>cmd := LC_SYMTAB\<rparr>, Sections = []\<rparr>],
       Symbols := [7, 8, 9],
       SymHeap := ex_heap (7 := \<lparr>Name = ''_foo'', n_sect = 1\<rparr>, 8 := \<lparr>Name = ''_bar'', n_sect = 2\<rparr>)\<rparr>"

definition ex_message :: string where
  "ex_message = ''symbol '' @ [CHR 0x27] @ ''_foo'' @ [CHR 0x27] @
      '' defined in section with index '' @ [CHR 0x27] @ ''2'' @ [CHR 0x27] @
      '' cannot be removed because it is referenced by a relocation in section '' @
      [CHR 0x27] @ ''__TEXT,__text'' @ [CHR 0x27]"

text \<open>
  An object with 257 sections without relocations in one segment, numbered
  2, ..., 257, 1 in this order, and one symbol (\<^verbatim>\<open>_main\<close>, at address 10), which is
  defined in section 1, the last one of the segment.
\<close>

definition ex_numbered :: "nat \<Rightarrow> Section" where
  "ex_numbered i = \<lparr>Index = i, CanonicalName = ''__TEXT,__text'', Relocations = []\<rparr>"

definition ex_many_sections :: Object where
  "ex_many_sections = \<lparr>Is64Bit = True,
     LoadCommands = [\<lparr>MachOLoadCommand = constructSegment LC_SEGMENT_64 ''__TEXT'',
                      Sections = map ex_numbered ([2..<258] @ [1])\<rparr>],
     Symbols = [10], SymHeap = ex_heap,
     SymTabCommandIndex = None, DySymTabCommandIndex = None, DyLdInfoCommandIndex = None,
     DataInCodeCommandIndex = None, FunctionStartsCommandIndex = None\<rparr>"

text \<open>Two objects for the cached indices: one whose only command is the symbol table
  command, with the index that describes it, and one without commands.\<close>

definition ex_symtab :: LoadCommand where
  "ex_symtab = \<lparr>MachOLoadCommand = zero_load_command\<lparr>cmd := LC_SYMTAB\<rparr>, Sections = []\<rparr>"

definition ex_symtab_only :: Object where
  "ex_symtab_only = \<lparr>Is64Bit = True, LoadCommands = [ex_symtab], Symbols = [], SymHeap = ex_heap,
     SymTabCommandIndex = Some 0, DySymTabCommandIndex = None, DyLdInfoCommandIndex = None,
     DataInCodeCommandIndex = None, FunctionStartsCommandIndex = None\<rparr>"

definition ex_no_commands :: Object where
  "ex_no_commands = \<lparr>Is64Bit = True, LoadCommands = [], Symbols = [], SymHeap = ex_heap,
     SymTabCommandIndex = None, DySymTabCommandIndex = None, DyLdInfoCommandIndex = None,
     DataInCodeCommandIndex = None, FunctionStartsCommandIndex = None\<rparr>"

definition is_symtab :: "LoadCommand \<Rightarrow> bool" where
  "is_symtab LC = (cmd (MachOLoadCommand LC) = LC_SYMTAB)"

section \<open>Vocabulary for the statements about the emitter\<close>

text \<open>
  What one round of \<^verbatim>\<open>writeLoadCommands\<close> writes before the final fill (the struct,
  its trailing data, the payload bytes and the explicit pad), the value of
  \<open>BytesWritten\<close> at that point, and the memory of a 32-bit word on the host.
\<close>

definition written_before_fill :: "'d Env \<Rightarrow> 'd MachOYAML_Object \<Rightarrow> MachOYAML_LoadCommand \<Rightarrow> u8 list" where
  "written_before_fill env Obj LC =
     (let st = lc_struct env (cmd (Cmd_Data LC)) in
      map (lc_image env st (swap_needed env (Obj_IsLittleEndian Obj)) (Cmd_Data LC))
          [0..<sizeof_LCStruct st] @
      writeLoadCommandData st env LC (Obj_IsLittleEndian Obj) @
      Cmd_PayloadBytes LC @ replicate (unat (Cmd_ZeroPadBytes LC)) 0)"

definition bytes_written :: "'d Env \<Rightarrow> 'd MachOYAML_Object \<Rightarrow> MachOYAML_LoadCommand \<Rightarrow> u64" where
  "bytes_written env Obj LC =
     (let st = lc_struct env (cmd (Cmd_Data LC)) in
      of_nat (sizeof_LCStruct st) +
      of_nat (length (writeLoadCommandData st env LC (Obj_IsLittleEndian Obj))) +
      of_nat (length (Cmd_PayloadBytes LC)) + Cmd_ZeroPadBytes LC)"

definition host_word :: "'d Env \<Rightarrow> u32 \<Rightarrow> u8 list" where
  "host_word env w = field_image (IsLittleEndianHost env) False (F32 w)"

section \<open>Inputs for the concrete checks of the emitter\<close>

text \<open>
  Modelled from the spec: the rows of \<^verbatim>\<open>MachO.def\<close> (not among the sources) for the
  command types of the file format from \<^verbatim>\<open>LC_SEGMENT\<close> (\<open>0x1\<close>) to \<^verbatim>\<open>LC_BUILD_VERSION\<close>
  (\<open>0x32\<close>), each with its struct; a struct for which \<^verbatim>\<open>writeLoadCommandData\<close> is not
  specialised is given by its size.  (The row of \<^verbatim>\<open>LC_PREPAGE\<close> names the struct
  \<^verbatim>\<open>load_command\<close> itself.)
\<close>

definition MachO_def :: "(u32 \<times> LCStruct) list" where
  "MachO_def =
     [(0x00000001, segment_command),       \<comment> \<open>\<^verbatim>\<open>LC_SEGMENT\<close>\<close>
      (0x00000002, other_struct 24),       \<comment> \<open>\<^verbatim>\<open>LC_SYMTAB\<close>, \<^verbatim>\<open>symtab_command\<close>\<close>
      (0x00000003, other_struct 16),       \<comment> \<open>\<^verbatim>\<open>LC_SYMSEG\<close>, \<^verbatim>\<open>symseg_command\<close>\<close>
      (0x00000004, other_struct 8),        \<comment> \<open>\<^verbatim>\<open>LC_THREAD\<close>, \<^verbatim>\<open>thread_command\<close>\<close>
      (0x00000005, other_struct 8),        \<comment> \<open>\<^verbatim>\<open>LC_UNIXTHREAD\<close>, \<^verbatim>\<open>thread_command\<close>\<close>
      (0x00000006, other_struct 20),       \<comment> \<open>\<^verbatim>\<open>LC_LOADFVMLIB\<close>, \<^verbatim>\<open>fvmlib_command\<close>\<close>
      (0x00000007, other_struct 20),       \<comment> \<open>\<^verbatim>\<open>LC_IDFVMLIB\<close>, \<^verbatim>\<open>fvmlib_command\<close>\<close>
      (0x00000008, other_struct 8),        \<comment> \<open>\<^verbatim>\<open>LC_IDENT\<close>, \<^verbatim>\<open>ident_command\<close>\<close>
      (0x00000009, other_struct 16),       \<comment> \<open>\<^verbatim>\<open>LC_FVMFILE\<close>, \<^verbatim>\<open>fvmfile_command\<close>\<close>
      (0x0000000A, load_command),          \<comment> \<open>\<^verbatim>\<open>LC_PREPAGE\<close>\<close>
      (0x0000000B, other_struct 80),       \<comment> \<open>\<^verbatim>\<open>LC_DYSYMTAB\<close>, \<^verbatim>\<open>dysymtab_command\<close>\<close>
      (0x0000000C, dylib_command),         \<comment> \<open>\<^verbatim>\<open>LC_LOAD_DYLIB\<close>\<close>
      (0x0000000D, dylib_command),         \<comment> \<open>\<^verbatim>\<open>LC_ID_DYLIB\<close>\<close>
      (0x0000000E, dylinker_command),      \<comment> \<open>\<^verbatim>\<open>LC_LOAD_DYLINKER\<close>\<close>
      (0x0000000F, dylinker_command),      \<comment> \<open>\<^verbatim>\<open>LC_ID_DYLINKER\<close>\<close>
      (0x00000010, other_struct 20),       \<comment> \<open>\<^verbatim>\<open>LC_PREBOUND_DYLIB\<close>, \<^verbatim>\<open>prebound_dylib_command\<close>\<close>
      (0x00000011, other_struct 40),       \<comment> \<open>\<^verbatim>\<open>LC_ROUTINES\<close>, \<^verbatim>\<open>routines_command\<close>\<close>
      (0x00000012, other_struct 12),       \<comment> \<open>\<^verbatim>\<open>LC_SUB_FRAMEWORK\<close>, \<^verbatim>\<open>sub_framework_command\<close>\<close>
      (0x00000013, other_struct 12),       \<comment> \<open>\<^verbatim>\<open>LC_SUB_UMBRELLA\<close>, \<^verbatim>\<open>sub_umbrella_command\<close>\<close>
      (0x00000014, other_struct 12),       \<comment> \<open>\<^verbatim>\<open>LC_SUB_CLIENT\<close>, \<^verbatim>\<open>sub_client_command\<close>\<close>
      (0x00000015, other_struct 12),       \<comment> \<open>\<^verbatim>\<open>LC_SUB_LIBRARY\<close>, \<^verbatim>\<open>sub_library_command\<close>\<close>
      (0x00000016, other_struct 16),       \<comment> \<open>\<^verbatim>\<open>LC_TWOLEVEL_HINTS\<close>, \<^verbatim>\<open>twolevel_hints_command\<close>\<close>
      (0x00000017, other_struct 12),       \<comment> \<open>\<^verbatim>\<open>LC_PREBIND_CKSUM\<close>, \<^verbatim>\<open>prebind_cksum_command\<close>\<close>
      (0x80000018, dylib_command),         \<comment> \<open>\<^verbatim>\<open>LC_LOAD_WEAK_DYLIB\<close>\<close>
      (0x00000019, segment_command_64),    \<comment> \<open>\<^verbatim>\<open>LC_SEGMENT_64\<close>\<close>
      (0x0000001A, other_struct 72),       \<comment> \<open>\<^verbatim>\<open>LC_ROUTINES_64\<close>, \<^verbatim>\<open>routines_command_64\<close>\<close>
      (0x0000001B, other_struct 24),       \<comment> \<open>\<^verbatim>\<open>LC_UUID\<close>, \<^verbatim>\<open>uuid_command\<close>\<close>
      (0x8000001C, rpath_command),         \<comment> \<open>\<^verbatim>\<open>LC_RPATH\<close>\<close>
      (0x0000001D, other_struct 16),       \<comment> \<open>\<^verbatim>\<open>LC_CODE_SIGNATURE\<close>, \<^verbatim>\<open>linkedit_data_command\<close>\<close>
      (0x0000001E, other_struct 16),       \<comment> \<open>\<^verbatim>\<open>LC_SEGMENT_SPLIT_INFO\<close>, \<^verbatim>\<open>linkedit_data_command\<close>\<close>
      (0x8000001F, dylib_command),         \<comment> \<open>\<^verbatim>\<open>LC_REEXPORT_DYLIB\<close>\<close>
      (0x00000020, dylib_command),         \<comment> \<open>\<^verbatim>\<open>LC_LAZY_LOAD_DYLIB\<close>\<close>
      (0x00000021, other_struct 20),       \<comment> \<open>\<^verbatim>\<open>LC_ENCRYPTION_INFO\<close>, \<^verbatim>\<open>encryption_info_command\<close>\<close>
      (0x00000022, other_struct 48),       \<comment> \<open>\<^verbatim>\<open>LC_DYLD_INFO\<close>, \<^verbatim>\<open>dyld_info_command\<close>\<close>
      (0x80000022, other_struct 48),       \<comment> \<open>\<^verbatim>\<open>LC_DYLD_INFO_ONLY\<close>, \<^verbatim>\<open>dyld_info_command\<close>\<close>
      (0x80000023, dylib_command),         \<comment> \<open>\<^verbatim>\<open>LC_LOAD_UPWARD_DYLIB\<close>\<close>
      (0x00000024, other_struct 16),       \<comment> \<open>\<^verbatim>\<open>LC_VERSION_MIN_MACOSX\<close>, \<^verbatim>\<open>version_min_command\<close>\<close>
      (0x00000025, other_struct 16),       \<comment> \<open>\<^verbatim>\<open>LC_VERSION_MIN_IPHONEOS\<close>, \<^verbatim>\<open>version_min_command\<close>\<close>
      (0x00000026, other_struct 16),       \<comment> \<open>\<^verbatim>\<open>LC_FUNCTION_STARTS\<close>, \<^verbatim>\<open>linkedit_data_command\<close>\<close>
      (0x00000027, dylinker_command),      \<comment> \<open>\<^verbatim>\<open>LC_DYLD_ENVIRONMENT\<close>\<close>
      (0x80000028, other_struct 24),       \<comment> \<open>\<^verbatim>\<open>LC_MAIN\<close>, \<^verbatim>\<open>entry_point_command\<close>\<close>
      (0x00000029, other_struct 16),       \<comment> \<open>\<^verbatim>\<open>LC_DATA_IN_CODE\<close>, \<^verbatim>\<open>linkedit_data_command\<close>\<close>
      (0x0000002A, other_struct 16),       \<comment> \<open>\<^verbatim>\<open>LC_SOURCE_VERSION\<close>, \<^verbatim>\<open>source_version_command\<close>\<close>
      (0x0000002B, other_struct 16),       \<comment> \<open>\<^verbatim>\<open>LC_DYLIB_CODE_SIGN_DRS\<close>, \<^verbatim>\<open>linkedit_data_command\<close>\<close>
      (0x0000002C, other_struct 24),       \<comment> \<open>\<^verbatim>\<open>LC_ENCRYPTION_INFO_64\<close>, \<^verbatim>\<open>encryption_info_command_64\<close>\<close>
      (0x0000002D, other_struct 12),       \<comment> \<open>\<^verbatim>\<open>LC_LINKER_OPTION\<close>, \<^verbatim>\<open>linker_option_command\<close>\<close>
      (0x0000002E, other_struct 16),       \<comment> \<open>\<^verbatim>\<open>LC_LINKER_OPTIMIZATION_HINT\<close>, \<^verbatim>\<open>linkedit_data_command\<close>\<close>
      (0x0000002F, other_struct 16),       \<comment> \<open>\<^verbatim>\<open>LC_VERSION_MIN_TVOS\<close>, \<^verbatim>\<open>version_min_command\<close>\<close>
      (0x00000030, other_struct 16),       \<comment> \<open>\<^verbatim>\<open>LC_VERSION_MIN_WATCHOS\<close>, \<^verbatim>\<open>version_min_command\<close>\<close>
      (0x00000031, other_struct 40),       \<comment> \<open>\<^verbatim>\<open>LC_NOTE\<close>, \<^verbatim>\<open>note_command\<close>\<close>
      (0x00000032, build_version_command)  \<comment> \<open>\<^verbatim>\<open>LC_BUILD_VERSION\<close>\<close>
     ]"

definition ex_lc_struct :: "u32 \<Rightarrow> LCStruct" where
  "ex_lc_struct c = (case map_of MachO_def c of Some st \<Rightarrow> st | None \<Rightarrow> load_command)"

text \<open>
  The memory of the union for the examples: the fields of the record at their places
  in the struct of the command (the two segment commands, the symbol table command
  and the dyld info command), \<open>cmd\<close> and \<open>cmdsize\<close> for every other command, and zero
  in every other byte.
\<close>

definition ex_lc_fields :: "macho_load_command \<Rightarrow> field list" where
  "ex_lc_fields D =
     (if cmd D = LC_SEGMENT
      then [F32 (cmd D), F32 (cmdsize D), FChars (char16 (segname D)), F32 0, F32 0,
            F32 (fileoff D), F32 (filesize D), F32 0, F32 0, F32 0, F32 0]
      else if cmd D = LC_SEGMENT_64
      then [F32 (cmd D), F32 (cmdsize D), FChars (char16 (segname D)), F64 0, F64 0,
            F64 (fileoff_64 D), F64 (filesize_64 D), F32 0, F32 0, F32 0, F32 0]
      else if cmd D = LC_SYMTAB
      then [F32 (cmd D), F32 (cmdsize D), F32 (symoff D), F32 0, F32 (stroff D), F32 0]
      else if cmd D = LC_DYLD_INFO \<or> cmd D = LC_DYLD_INFO_ONLY
      then [F32 (cmd D), F32 (cmdsize D), F32 (rebase_off D), F32 0, F32 (bind_off D), F32 0,
            F32 (weak_bind_off D), F32 0, F32 (lazy_bind_off D), F32 0, F32 (export_off D), F32 0]
      else [F32 (cmd D), F32 (cmdsize D)])"

text \<open>
  A little-endian host.  The table of command structs is the one above; the two
  encoders write the single byte that encodes a value below 64, which is all the
  examples give them; the debug emitters write nothing.
\<close>

definition ex_env :: "unit Env" where
  "ex_env = \<lparr>IsLittleEndianHost = True,
     lc_struct = ex_lc_struct,
     lc_image = (\<lambda>st swapped D i.
        (struct_image True swapped (ex_lc_fields D) @ replicate 80 0) ! i),
     isVirtualSection = (\<lambda>t. t = 0x1 \<or> t = 0xc \<or> t = 0x12),
     encodeULEB128 = (\<lambda>v. [ucast v]),
     encodeSLEB128 = (\<lambda>v. [ucast v]),
     emitDebugStr = (\<lambda>D. ([], None)),
     emitDebugAbbrev = (\<lambda>D. ([], None)),
     emitDebugAranges = (\<lambda>D. ([], None)),
     emitDebugRanges = (\<lambda>D. ([], None)),
     emitPubSection = (\<lambda>P le. ([], None)),
     emitDebugInfo = (\<lambda>D. ([], None)),
     emitDebugLine = (\<lambda>D. ([], None))\<rparr>"

text \<open>An image without load commands, a section of 12 bytes without content at
  offset 0, the same section at offset 4, the same section in the \<^verbatim>\<open>__DWARF\<close>
  segment under a name that no emitter is chosen for, and a segment command with the
  first two.\<close>

definition ex_yaml :: "unit MachOYAML_Object" where
  "ex_yaml = \<lparr>Obj_IsLittleEndian = True,
     Obj_Header = \<lparr>FH_magic = MH_MAGIC_64, FH_cputype = 0x01000007, FH_cpusubtype = 3,
                    FH_filetype = 1, FH_ncmds = 0, FH_sizeofcmds = 0, FH_flags = 0, FH_reserved = 0\<rparr>,
     Obj_LoadCommands = [],
     Obj_LinkEdit = \<lparr>LE_RebaseOpcodes = [], LE_BindOpcodes = [], LE_WeakBindOpcodes = [],
        LE_LazyBindOpcodes = [],
        LE_ExportTrie = ExportEntry 0 0 [] 0 0 0 [] [],
        LE_NameList = [], LE_StringTable = []\<rparr>,
     Obj_DWARF = \<lparr>PubNames = None, PubTypes = None, DebugSections = ()\<rparr>\<rparr>"

definition ex_section :: MachOYAML_Section where
  "ex_section = \<lparr>Sec_sectname = ''__text'', Sec_segname = ''__TEXT'', Sec_addr = 0, Sec_size = 12,
     Sec_offset = 0, Sec_align = 0, Sec_reloff = 0, Sec_nreloc = 0, Sec_flags = 0,
     Sec_reserved1 = 0, Sec_reserved2 = 0, Sec_reserved3 = 0, Sec_content = None,
     Sec_relocations = []\<rparr>"

definition ex_late_section :: MachOYAML_Section where
  "ex_late_section = ex_section\<lparr>Sec_offset := 4\<rparr>"

definition ex_dwarf_section :: MachOYAML_Section where
  "ex_dwarf_section = ex_section\<lparr>Sec_segname := ''__DWARF'', Sec_sectname := ''__apple_names''\<rparr>"

definition ex_segment_command :: MachOYAML_LoadCommand where
  "ex_segment_command = \<lparr>Cmd_Data = (constructSegment LC_SEGMENT_64 ''__TEXT'')\<lparr>cmdsize := 232\<rparr>,
     Cmd_Sections = [ex_section, ex_late_section], Cmd_Tools = [], Cmd_PayloadBytes = [],
     Cmd_PayloadString = [], Cmd_ZeroPadBytes = 0\<rparr>"

text \<open>A command of a type that is not in the table, declared with 4 bytes, and an
  \<^verbatim>\<open>LC_RPATH\<close> command declared with 24 bytes that has a payload string of four
  characters, two payload bytes and two pad bytes.\<close>

definition ex_small_command :: MachOYAML_LoadCommand where
  "ex_small_command = \<lparr>Cmd_Data = zero_load_command\<lparr>cmd := 0x1234, cmdsize := 4\<rparr>,
     Cmd_Sections = [], Cmd_Tools = [], Cmd_PayloadBytes = [], Cmd_PayloadString = [],
     Cmd_ZeroPadBytes = 0\<rparr>"

definition ex_rpath_command :: MachOYAML_LoadCommand where
  "ex_rpath_command = \<lparr>Cmd_Data = zero_load_command\<lparr>cmd := 0x8000001C, cmdsize := 24\<rparr>,
     Cmd_Sections = [], Cmd_Tools = [], Cmd_PayloadBytes = [0xAA, 0xBB],
     Cmd_PayloadString = ''/lib'', Cmd_ZeroPadBytes = 2\<rparr>"

text \<open>A plain relocation whose symbol index needs 25 bits, and one whose fields fit.\<close>

definition ex_wide_relocation :: Relocation where
  "ex_wide_relocation = \<lparr>Rel_address = 0x10, Rel_symbolnum = 0x1000000, Rel_is_pcrel = False,
     Rel_length = 0, Rel_is_extern = False, Rel_type = 0, Rel_is_scattered = False,
     Rel_value = 0\<rparr>"

definition ex_relocation :: Relocation where
  "ex_relocation = \<lparr>Rel_address = 0x10, Rel_symbolnum = 5, Rel_is_pcrel = True,
     Rel_length = 2, Rel_is_extern = True, Rel_type = 1, Rel_is_scattered = False,
     Rel_value = 0\<rparr>"

text \<open>An image whose symbol table command comes first and places its two tables behind
  the five streams of the dyld info command, with the export trie in front of all.\<close>

definition ex_symtab_command :: MachOYAML_LoadCommand where
  "ex_symtab_command = \<lparr>Cmd_Data = zero_load_command\<lparr>cmd := LC_SYMTAB, cmdsize := 24,
        symoff := 64, stroff := 96\<rparr>,
     Cmd_Sections = [], Cmd_Tools = [], Cmd_PayloadBytes = [], Cmd_PayloadString = [],
     Cmd_ZeroPadBytes = 0\<rparr>"

definition ex_dyld_info_command :: MachOYAML_LoadCommand where
  "ex_dyld_info_command = \<lparr>Cmd_Data = zero_load_command\<lparr>cmd := LC_DYLD_INFO_ONLY, cmdsize := 48,
        rebase_off := 48, bind_off := 52, weak_bind_off := 56, lazy_bind_off := 60,
        export_off := 32\<rparr>,
     Cmd_Sections = [], Cmd_Tools = [], Cmd_PayloadBytes = [], Cmd_PayloadString = [],
     Cmd_ZeroPadBytes = 0\<rparr>"

definition ex_linkedit_yaml :: "unit MachOYAML_Object" where
  "ex_linkedit_yaml = ex_yaml\<lparr>Obj_LoadCommands := [ex_symtab_command, ex_dyld_info_command],
     Obj_LinkEdit := (Obj_LinkEdit ex_yaml)\<lparr>LE_StringTable := [''a'']\<rparr>\<rparr>"

text \<open>A fat file with two architectures and three slices.\<close>

definition ex_fat :: "unit UniversalBinary" where
  "ex_fat = \<lparr>UB_Header = \<lparr>FatH_magic = 0xCAFEBABE, FatH_nfat_arch = 2\<rparr>,
     UB_FatArchs = [\<lparr>FA_cputype = 7, FA_cpusubtype = 3, FA_offset = 4096, FA_size = 32,
                      FA_align = 12, FA_reserved = 0\<rparr>,
                    \<lparr>FA_cputype = 0x01000007, FA_cpusubtype = 3, FA_offset = 8192, FA_size = 32,
                      FA_align = 12, FA_reserved = 0\<rparr>],
     UB_Slices = [ex_yaml, ex_yaml, ex_yaml]\<rparr>"

definition ex_fat_file :: "unit YamlObjectFile" where
  "ex_fat_file = \<lparr>YOF_MachO = None, YOF_FatMachO = Some ex_fat\<rparr>"

section \<open>Object.cpp: properties of removeSections\<close>

lemma renumber_Nil: "renumber n [] = []" by (simp add: renumber_def)

lemma renumber_Cons: "renumber n (s # ss) = s\<lparr>Index := n\<rparr> # renumber (Suc n) ss"
  by (simp add: renumber_def upt_rec)

lemma length_renumber: "length (renumber n ss) = length ss" by (simp add: renumber_def)

lemma renumber_append: "renumber n (xs @ ys) = renumber n xs @ renumber (n + length xs) ys"
  by (induction xs arbitrary: n) (simp_all add: renumber_Nil renumber_Cons)

lemma nth_renumber: "j < length ss \<Longrightarrow> renumber n ss ! j = (ss ! j)\<lparr>Index := n + j\<rparr>"
  by (simp add: renumber_def)

lemma map_Index_renumber: "map Index (renumber n ss) = [n..<n + length ss]"
  by (induction ss arbitrary: n) (simp_all add: renumber_Nil renumber_Cons upt_rec)

lemma reindex_sections:
  "reindex ss n M = (ss', n', M') \<Longrightarrow> ss' = renumber n ss \<and> n' = n + length ss"
proof (induction ss arbitrary: n M ss' n' M')
  case Nil
  then show ?case by (simp add: renumber_Nil)
next
  case (Cons s ss)
  obtain a b c where r: "reindex ss (Suc n) (M(Index s \<mapsto> s\<lparr>Index := n\<rparr>)) = (a, b, c)"
    by (cases "reindex ss (Suc n) (M(Index s \<mapsto> s\<lparr>Index := n\<rparr>))") auto
  from Cons.IH [OF r] have "a = renumber (Suc n) ss" "b = Suc n + length ss" by auto
  moreover from Cons.prems r have "ss' = s\<lparr>Index := n\<rparr> # a" "n' = b" by (auto simp: Let_def)
  ultimately show ?case by (simp add: renumber_Cons)
qed

lemma reindex_dom:
  "reindex ss n M = (ss', n', M') \<Longrightarrow> dom M' = dom M \<union> Index ` set ss"
  by (induction ss arbitrary: n M ss' n' M') (auto simp: Let_def split: prod.splits)

lemma reindex_map:
  "reindex ss n M = (ss', n', M') \<Longrightarrow> M' i = Some sec \<Longrightarrow>
     M i = Some sec \<or> (\<exists>j<length ss. Index (ss ! j) = i \<and> sec = (ss ! j)\<lparr>Index := n + j\<rparr>)"
proof (induction ss arbitrary: n M ss' n' M')
  case Nil
  then show ?case by simp
next
  case (Cons s ss)
  obtain a b c where r: "reindex ss (Suc n) (M(Index s \<mapsto> s\<lparr>Index := n\<rparr>)) = (a, b, c)"
    by (cases "reindex ss (Suc n) (M(Index s \<mapsto> s\<lparr>Index := n\<rparr>))") auto
  with Cons.prems have M': "M' = c" by (simp add: Let_def)
  from Cons.IH [OF r] Cons.prems(2) M'
  have "(M(Index s \<mapsto> s\<lparr>Index := n\<rparr>)) i = Some sec \<or>
        (\<exists>j<length ss. Index (ss ! j) = i \<and> sec = (ss ! j)\<lparr>Index := Suc n + j\<rparr>)" by simp
  then show ?case
  proof
    assume "(M(Index s \<mapsto> s\<lparr>Index := n\<rparr>)) i = Some sec"
    then show ?thesis by (auto split: if_splits)
  next
    assume "\<exists>j<length ss. Index (ss ! j) = i \<and> sec = (ss ! j)\<lparr>Index := Suc n + j\<rparr>"
    then obtain j where "j < length ss" "Index (ss ! j) = i" "sec = (ss ! j)\<lparr>Index := Suc n + j\<rparr>" by blast
    then have "Suc j < length (s # ss) \<and> Index ((s # ss) ! Suc j) = i \<and> sec = ((s # ss) ! Suc j)\<lparr>Index := n + Suc j\<rparr>"
      by simp
    then show ?thesis by blast
  qed
qed

lemma survivors_Cons:
  "survivors T (LC # LCs) = filter (\<lambda>Sec. \<not> T Sec) (Sections LC) @ survivors T LCs"
  by (simp add: survivors_def)

lemma partitionLoop_sections:
  "partitionLoop T LCs n M = (LCs', n', M') \<Longrightarrow>
     all_sections LCs' = renumber n (survivors T LCs) \<and> n' = n + length (survivors T LCs)"
proof (induction LCs arbitrary: n M LCs' n' M')
  case Nil
  then show ?case by (simp add: all_sections_def survivors_def renumber_Nil)
next
  case (Cons LC LCs)
  let ?f = "filter (\<lambda>Sec. \<not> T Sec) (Sections LC)"
  obtain a b c where r: "reindex ?f n M = (a, b, c)" by (cases "reindex ?f n M") auto
  obtain d e f where p: "partitionLoop T LCs b c = (d, e, f)" by (cases "partitionLoop T LCs b c") auto
  from reindex_sections [OF r] have a: "a = renumber n ?f" and b: "b = n + length ?f" by auto
  from Cons.IH [OF p] have d: "all_sections d = renumber b (survivors T LCs)"
    and e: "e = b + length (survivors T LCs)" by auto
  from Cons.prems r p have "LCs' = LC\<lparr>Sections := a\<rparr> # d" "n' = e" by (auto simp: Let_def)
  then show ?case using a b d e
    by (simp add: all_sections_def survivors_Cons renumber_append)
qed

lemma partitionLoop_dom:
  "partitionLoop T LCs n M = (LCs', n', M') \<Longrightarrow> dom M' = dom M \<union> Index ` set (survivors T LCs)"
proof (induction LCs arbitrary: n M LCs' n' M')
  case Nil
  then show ?case by (simp add: survivors_def)
next
  case (Cons LC LCs)
  let ?f = "filter (\<lambda>Sec. \<not> T Sec) (Sections LC)"
  obtain a b c where r: "reindex ?f n M = (a, b, c)" by (cases "reindex ?f n M") auto
  obtain d e f where p: "partitionLoop T LCs b c = (d, e, f)" by (cases "partitionLoop T LCs b c") auto
  from Cons.prems r p have "M' = f" by (auto simp: Let_def)
  then show ?case using reindex_dom [OF r] Cons.IH [OF p]
    by (auto simp: survivors_Cons)
qed

lemma partitionLoop_map:
  "partitionLoop T LCs n M = (LCs', n', M') \<Longrightarrow> M' i = Some sec \<Longrightarrow>
     M i = Some sec \<or>
     (\<exists>j<length (survivors T LCs). Index (survivors T LCs ! j) = i \<and>
         sec = (survivors T LCs ! j)\<lparr>Index := n + j\<rparr>)"
proof (induction LCs arbitrary: n M LCs' n' M')
  case Nil
  then show ?case by simp
next
  case (Cons LC LCs)
  let ?f = "filter (\<lambda>Sec. \<not> T Sec) (Sections LC)"
  let ?s = "survivors T LCs"
  obtain a b c where r: "reindex ?f n M = (a, b, c)" by (cases "reindex ?f n M") auto
  obtain d e f where p: "partitionLoop T LCs b c = (d, e, f)" by (cases "partitionLoop T LCs b c") auto
  from reindex_sections [OF r] have b: "b = n + length ?f" by auto
  from Cons.prems r p have M': "M' = f" by (auto simp: Let_def)
  from Cons.IH [OF p] Cons.prems(2) M'
  consider (old) "c i = Some sec"
    | (new) j where "j < length ?s" "Index (?s ! j) = i" "sec = (?s ! j)\<lparr>Index := b + j\<rparr>"
    by blast
  then show ?case
  proof cases
    case old
    from reindex_map [OF r old]
    show ?thesis
    proof
      assume "M i = Some sec" then show ?thesis by simp
    next
      assume "\<exists>j<length ?f. Index (?f ! j) = i \<and> sec = (?f ! j)\<lparr>Index := n + j\<rparr>"
      then obtain j where j: "j < length ?f" "Index (?f ! j) = i" "sec = (?f ! j)\<lparr>Index := n + j\<rparr>" by blast
      then have "j < length (survivors T (LC # LCs)) \<and> Index (survivors T (LC # LCs) ! j) = i \<and>
         sec = (survivors T (LC # LCs) ! j)\<lparr>Index := n + j\<rparr>"
        by (simp add: survivors_Cons nth_append)
      then show ?thesis by blast
    qed
  next
    case new
    then have "length ?f + j < length (survivors T (LC # LCs)) \<and>
         Index (survivors T (LC # LCs) ! (length ?f + j)) = i \<and>
         sec = (survivors T (LC # LCs) ! (length ?f + j))\<lparr>Index := n + (length ?f + j)\<rparr>"
      using b by (simp add: survivors_Cons nth_append add.assoc)
    then show ?thesis by blast
  qed
qed

lemma forget_renumber: "map forget_index (renumber n ss) = map forget_index ss"
  by (induction ss arbitrary: n) (simp_all add: renumber_Nil renumber_Cons forget_index_def)

lemma partitionLoop_shape:
  "partitionLoop T LCs n M = (LCs', n', M') \<Longrightarrow>
     list_all2 (\<lambda>LC' LC. same_but_sections LC' LC \<and>
                  map forget_index (Sections LC') =
                  map forget_index (filter (\<lambda>Sec. \<not> T Sec) (Sections LC))) LCs' LCs"
proof (induction LCs arbitrary: n M LCs' n' M')
  case Nil
  then show ?case by simp
next
  case (Cons LC LCs)
  let ?f = "filter (\<lambda>Sec. \<not> T Sec) (Sections LC)"
  obtain a b c where r: "reindex ?f n M = (a, b, c)" by (cases "reindex ?f n M") auto
  obtain d e f where p: "partitionLoop T LCs b c = (d, e, f)" by (cases "partitionLoop T LCs b c") auto
  from reindex_sections [OF r] have a: "a = renumber n ?f" by auto
  from Cons.prems r p have "LCs' = LC\<lparr>Sections := a\<rparr> # d" by (auto simp: Let_def)
  then show ?case using a Cons.IH [OF p]
    by (simp add: forget_renumber same_but_sections_def)
qed

lemma set_survivors: "set (survivors T LCs) = {s \<in> set (all_sections LCs). \<not> T s}"
  by (auto simp: survivors_def all_sections_def)

lemma set_renumber:
  "s' \<in> set (renumber n ss) \<Longrightarrow>
     \<exists>s\<in>set ss. Relocations s' = Relocations s \<and> CanonicalName s' = CanonicalName s"
  by (induction ss arbitrary: n) (auto simp: renumber_Nil renumber_Cons)

lemma renumber_has:
  "s \<in> set ss \<Longrightarrow>
     \<exists>s'\<in>set (renumber n ss). Relocations s' = Relocations s \<and> CanonicalName s' = CanonicalName s"
  by (induction ss arbitrary: n) (auto simp: renumber_Nil renumber_Cons)

lemma refersDead_iff: "refersDead D R = (\<exists>p. Symbol R = Some (Some p) \<and> p \<in> D)"
  by (auto simp: refersDead_def split: option.splits)

lemma checkRelocations_None:
  "(checkRelocations D heap Sec Rs = None) = (\<forall>R\<in>set Rs. \<not> refersDead D R)"
  by (induction Rs) (auto simp: Let_def)

lemma checkRelocations_Some:
  "checkRelocations D heap Sec Rs = Some e \<Longrightarrow> \<exists>R\<in>set Rs. offending D heap Sec R e"
  by (induction Rs) (auto simp: Let_def offending_def refersDead_iff split: if_splits)

lemma checkRelocations_SomeD:
  "checkRelocations D heap Sec Rs = Some e \<Longrightarrow> \<exists>R\<in>set Rs. refersDead D R"
  using checkRelocations_None [of D heap Sec Rs] by auto

lemma checkSections_Cons_None:
  "(checkSections D heap (Sec # Secs) = None) =
     (checkRelocations D heap Sec (Relocations Sec) = None \<and> checkSections D heap Secs = None)"
  by (simp split: option.splits)

lemma checkSections_None:
  "(checkSections D heap Secs = None) = (\<forall>Sec\<in>set Secs. \<forall>R\<in>set (Relocations Sec). \<not> refersDead D R)"
proof (induction Secs)
  case Nil
  show ?case by simp
next
  case (Cons Sec Secs)
  show ?case unfolding checkSections_Cons_None Cons.IH checkRelocations_None by simp
qed

lemma checkSections_Some:
  "checkSections D heap Secs = Some e \<Longrightarrow>
     \<exists>Sec\<in>set Secs. \<exists>R\<in>set (Relocations Sec). offending D heap Sec R e"
  by (induction Secs) (auto dest: checkRelocations_Some split: option.splits)

lemma checkSections_SomeD:
  "checkSections D heap Secs = Some e \<Longrightarrow>
     \<exists>Sec\<in>set Secs. \<exists>R\<in>set (Relocations Sec). refersDead D R"
  using checkSections_None [of D heap Secs] by auto

lemma checkLoadCommands_Cons_None:
  "(checkLoadCommands D heap (LC # LCs) = None) =
     (checkSections D heap (Sections LC) = None \<and> checkLoadCommands D heap LCs = None)"
  by (simp split: option.splits)

lemma all_sections_Cons: "all_sections (LC # LCs) = Sections LC @ all_sections LCs"
  by (simp add: all_sections_def)

lemma checkLoadCommands_None:
  "(checkLoadCommands D heap LCs = None) =
     (\<forall>Sec\<in>set (all_sections LCs). \<forall>R\<in>set (Relocations Sec). \<not> refersDead D R)"
proof (induction LCs)
  case Nil
  show ?case by (simp add: all_sections_def)
next
  case (Cons LC LCs)
  show ?case unfolding checkLoadCommands_Cons_None Cons.IH checkSections_None all_sections_Cons
    by auto
qed

lemma checkLoadCommands_Some:
  "checkLoadCommands D heap LCs = Some e \<Longrightarrow>
     \<exists>Sec\<in>set (all_sections LCs). \<exists>R\<in>set (Relocations Sec). offending D heap Sec R e"
  by (induction LCs) (fastforce simp: all_sections_def dest: checkSections_Some split: option.splits)+

lemma unat_small: "j < 256 \<Longrightarrow> unat (of_nat j :: u8) = j"
  by (simp add: unat_of_nat)

lemma rewriteSymbols_total:
  "distinct ps \<Longrightarrow> \<forall>p\<in>set ps. \<not> IsDead M (heap p) \<Longrightarrow>
     rewriteSymbols M ps heap =
       Some (\<lambda>q. if q \<in> set ps then rewritten M (heap q) else heap q)"
proof (induction ps arbitrary: heap)
  case Nil
  then show ?case by simp
next
  case (Cons p ps)
  show ?case
  proof (cases "section_of (heap p) = None")
    case True
    then have "rewriteSymbols M (p # ps) heap = rewriteSymbols M ps heap" by simp
    also have "\<dots> = Some (\<lambda>q. if q \<in> set ps then rewritten M (heap q) else heap q)"
      using Cons by simp
    also have "(\<lambda>q. if q \<in> set ps then rewritten M (heap q) else heap q) =
               (\<lambda>q. if q \<in> set (p # ps) then rewritten M (heap q) else heap q)"
      using True by (auto simp: rewritten_def)
    finally show ?thesis .
  next
    case False
    then obtain i where i: "section_of (heap p) = Some i" by auto
    then have iu: "i = unat (n_sect (heap p))" by (auto simp: section_of_def split: if_splits)
    from Cons.prems(2) i have "M i \<noteq> None" by (auto simp: IsDead_def)
    then obtain Sec where Sec: "M (unat (n_sect (heap p))) = Some Sec" using iu by auto
    let ?h = "heap(p := (heap p)\<lparr>n_sect := of_nat (Index Sec)\<rparr>)"
    have step: "rewriteSymbols M (p # ps) heap = rewriteSymbols M ps ?h"
      using False Sec by simp
    have "distinct ps" using Cons.prems by simp
    moreover have "\<forall>q\<in>set ps. \<not> IsDead M (?h q)" using Cons.prems by auto
    ultimately have "rewriteSymbols M ps ?h =
        Some (\<lambda>q. if q \<in> set ps then rewritten M (?h q) else ?h q)"
      by (rule Cons.IH)
    also have "(\<lambda>q. if q \<in> set ps then rewritten M (?h q) else ?h q) =
               (\<lambda>q. if q \<in> set (p # ps) then rewritten M (heap q) else heap q)"
      using Cons.prems(1) False Sec by (intro ext) (auto simp: rewritten_def)
    finally have fin: "rewriteSymbols M ps ?h =
        Some (\<lambda>q. if q \<in> set (p # ps) then rewritten M (heap q) else heap q)" .
    show ?thesis by (simp only: step fin)
  qed
qed

lemma removeSections_unfold:
  assumes "partitionLoop T (LoadCommands obj) 1 Map.empty = (LCs', n', M)"
  shows "removeSections T obj =
     (case checkLoadCommands {p \<in> set (Symbols obj). IsDead M (SymHeap obj p)} (SymHeap obj) LCs' of
        Some e \<Rightarrow> Some (Some e, obj\<lparr>LoadCommands := LCs'\<rparr>)
      | None \<Rightarrow>
          (case rewriteSymbols M (filter (\<lambda>p. \<not> IsDead M (SymHeap obj p)) (Symbols obj)) (SymHeap obj) of
             None \<Rightarrow> None
           | Some heap' \<Rightarrow>
               Some (None, obj\<lparr>LoadCommands := LCs',
                                Symbols := filter (\<lambda>p. \<not> IsDead M (SymHeap obj p)) (Symbols obj),
                                SymHeap := heap'\<rparr>)))"
  unfolding removeSections_def assms by (simp add: Let_def split: option.splits)

lemma partitionLoop_None:
  assumes "partitionLoop T LCs n Map.empty = (LCs', n', M)"
  shows "(M i = None) = (i \<notin> Index ` set (survivors T LCs))"
proof -
  have "dom M = Index ` set (survivors T LCs)" using partitionLoop_dom [OF assms] by simp
  then show ?thesis by (metis domIff)
qed

lemma removed_index_not_surviving:
  assumes d: "distinct (map Index (all_sections LCs))"
    and r: "Removed \<in> set (all_sections LCs)" "T Removed"
  shows "Index Removed \<notin> Index ` set (survivors T LCs)"
proof
  assume "Index Removed \<in> Index ` set (survivors T LCs)"
  then obtain s where s: "s \<in> set (all_sections LCs)" "\<not> T s" "Index s = Index Removed"
    by (auto simp: set_survivors)
  from d have "inj_on Index (set (all_sections LCs))" by (simp add: distinct_map)
  with s r have "s = Removed" by (auto dest: inj_onD)
  with s r show False by simp
qed

lemma digit_of_digit_char: "d < 10 \<Longrightarrow> digit_of (digit_char d) = Some d"
proof -
  assume "d < 10"
  then have "d \<in> {0, 1, 2, 3, 4, 5, 6, 7, 8, 9}" by auto
  then show ?thesis by (auto simp: digit_of_def digit_char_def)
qed

lemma digit_char_zero: "d < 10 \<Longrightarrow> (digit_char d = CHR ''0'') = (d = 0)"
proof -
  assume "d < 10"
  then have "d \<in> {0, 1, 2, 3, 4, 5, 6, 7, 8, 9}" by auto
  then show ?thesis by (auto simp: digit_char_def)
qed

lemma digits_value_snoc:
  "digits_value acc (xs @ [c]) =
     (case digits_value acc xs of None \<Rightarrow> None
      | Some m \<Rightarrow> (case digit_of c of None \<Rightarrow> None | Some d \<Rightarrow> Some (10 * m + d)))"
  by (induction xs arbitrary: acc) (simp_all split: option.splits)

lemma digits_value_show_nat: "digits_value 0 (show_nat n) = Some n"
proof (induction n rule: show_nat.induct)
  case (1 n)
  show ?case
  proof (cases "n < 10")
    case True
    then show ?thesis by (simp add: show_nat.simps [of n] digit_of_digit_char)
  next
    case False
    with 1 have "digits_value 0 (show_nat (n div 10)) = Some (n div 10)" by simp
    with False show ?thesis
      by (simp add: show_nat.simps [of n] digits_value_snoc digit_of_digit_char)
  qed
qed

lemma show_nat_not_Nil: "show_nat n \<noteq> []"
  by (simp add: show_nat.simps [of n])

lemma hd_show_nat: "0 < n \<Longrightarrow> hd (show_nat n) \<noteq> CHR ''0''"
proof (induction n rule: show_nat.induct)
  case (1 n)
  show ?case
  proof (cases "n < 10")
    case True
    with 1(2) show ?thesis by (simp add: show_nat.simps [of n] digit_char_zero)
  next
    case False
    then have "0 < n div 10" by simp
    with 1(1) False have "hd (show_nat (n div 10)) \<noteq> CHR ''0''" by simp
    with False show ?thesis by (simp add: show_nat.simps [of n] show_nat_not_Nil)
  qed
qed

text \<open>The digits that \<^verbatim>\<open>%u\<close> prints name the number printed.\<close>

lemma read_decimal_show_nat: "read_decimal (show_nat n) = Some n"
proof (cases "n = 0")
  case True
  then show ?thesis
    by (simp add: read_decimal_def show_nat.simps [of 0] digit_of_def digit_char_def)
next
  case False
  then have "hd (show_nat n) \<noteq> CHR ''0''" by (simp add: hd_show_nat)
  then show ?thesis by (simp add: read_decimal_def show_nat_not_Nil digits_value_show_nat)
qed

text \<open>
  Claim C1.  Let the section indices of the object be pairwise distinct.  If a section
  that the predicate leaves has a relocation whose symbol pointer is the address of
  a symbol of the table, and that symbol is defined in a section that the predicate
  removes, then \<^verbatim>\<open>removeSections\<close> returns the invalid-argument error.  The message is
  that of a relocation of this kind (the first one met), and it reads: \<^verbatim>\<open>symbol '\<close>, the
  name of the symbol (up to its first NUL), \<^verbatim>\<open>' defined in section with index '\<close>, the
  decimal digits of the number of the symbol's section, which no remaining section
  had, \<^verbatim>\<open>' cannot be removed because it is referenced by a relocation in section '\<close>,
  the canonical name of the section that holds the relocation, and \<^verbatim>\<open>'\<close>.  The call
  does not succeed.
\<close>

theorem removeSections_dangling_relocation:
  assumes d: "distinct (map Index (all_sections (LoadCommands obj)))"
    and Sec: "Sec \<in> set (survivors ToRemove (LoadCommands obj))"
    and R: "R \<in> set (Relocations Sec)" "Symbol R = Some (Some p)"
    and p: "p \<in> set (Symbols obj)"
    and Removed: "Removed \<in> set (all_sections (LoadCommands obj))" "ToRemove Removed"
    and def_sec: "section_of (SymHeap obj p) = Some (Index Removed)"
  shows "\<exists>obj' Sec0 R0 p0 i0 digits.
      removeSections ToRemove obj =
        Some (Some (invalid_argument
                (''symbol '' @ [CHR 0x27] @
                 takeWhile (\<lambda>c. c \<noteq> CHR 0x00) (Name (SymHeap obj p0)) @ [CHR 0x27] @
                 '' defined in section with index '' @ [CHR 0x27] @ digits @ [CHR 0x27] @
                 '' cannot be removed because it is referenced by a relocation in section '' @
                 [CHR 0x27] @ takeWhile (\<lambda>c. c \<noteq> CHR 0x00) (CanonicalName Sec0) @
                 [CHR 0x27])), obj') \<and>
      read_decimal digits = Some i0 \<and>
      Sec0 \<in> set (survivors ToRemove (LoadCommands obj)) \<and> R0 \<in> set (Relocations Sec0) \<and>
      Symbol R0 = Some (Some p0) \<and> p0 \<in> set (Symbols obj) \<and>
      section_of (SymHeap obj p0) = Some i0 \<and>
      i0 \<notin> Index ` set (survivors ToRemove (LoadCommands obj))"
proof -
  obtain LCs' n' M where pl: "partitionLoop ToRemove (LoadCommands obj) 1 Map.empty = (LCs', n', M)"
    by (cases "partitionLoop ToRemove (LoadCommands obj) 1 Map.empty") auto
  let ?D = "{p \<in> set (Symbols obj). IsDead M (SymHeap obj p)}"
  let ?surv = "survivors ToRemove (LoadCommands obj)"
  have secs: "all_sections LCs' = renumber 1 ?surv"
    using partitionLoop_sections [OF pl] by simp
  have "M (Index Removed) = None"
    using removed_index_not_surviving [where T = ToRemove, OF d Removed] by (simp add: partitionLoop_None [OF pl])
  then have "p \<in> ?D" using p def_sec by (simp add: IsDead_def)
  then have "refersDead ?D R" using R by (simp add: refersDead_def)
  moreover obtain Sec' where "Sec' \<in> set (all_sections LCs')" "Relocations Sec' = Relocations Sec"
    using renumber_has [OF Sec, of 1] secs by auto
  ultimately have "checkLoadCommands ?D (SymHeap obj) LCs' \<noteq> None"
    using R(1) unfolding checkLoadCommands_None by metis
  then obtain e where e: "checkLoadCommands ?D (SymHeap obj) LCs' = Some e" by auto
  from checkLoadCommands_Some [OF e] obtain Sec1 R0 where
    o: "Sec1 \<in> set (all_sections LCs')" "R0 \<in> set (Relocations Sec1)" "offending ?D (SymHeap obj) Sec1 R0 e"
    by blast
  from o(1) secs set_renumber [of Sec1 1 ?surv] obtain Sec0 where
    Sec0: "Sec0 \<in> set ?surv" "Relocations Sec1 = Relocations Sec0" "CanonicalName Sec1 = CanonicalName Sec0"
    by auto
  from o(3) obtain p0 where p0: "Symbol R0 = Some (Some p0)" "p0 \<in> ?D"
    "e = invalid_argument (dead_reloc_message (Name (SymHeap obj p0))
            (the (section_of (SymHeap obj p0))) (CanonicalName Sec1))"
    by (auto simp: offending_def)
  from p0(2) obtain i0 where i0: "section_of (SymHeap obj p0) = Some i0" "M i0 = None"
    by (auto simp: IsDead_def split: option.splits)
  have res: "removeSections ToRemove obj = Some (Some e, obj\<lparr>LoadCommands := LCs'\<rparr>)"
    by (simp add: removeSections_unfold [OF pl] e)
  have msg: "e = invalid_argument
                (''symbol '' @ [CHR 0x27] @
                 takeWhile (\<lambda>c. c \<noteq> CHR 0x00) (Name (SymHeap obj p0)) @ [CHR 0x27] @
                 '' defined in section with index '' @ [CHR 0x27] @ show_nat i0 @ [CHR 0x27] @
                 '' cannot be removed because it is referenced by a relocation in section '' @
                 [CHR 0x27] @ takeWhile (\<lambda>c. c \<noteq> CHR 0x00) (CanonicalName Sec0) @
                 [CHR 0x27])"
    unfolding p0(3) dead_reloc_message_def c_str_def i0(1) Sec0(3) by simp
  have c1: "removeSections ToRemove obj =
        Some (Some (invalid_argument
                (''symbol '' @ [CHR 0x27] @
                 takeWhile (\<lambda>c. c \<noteq> CHR 0x00) (Name (SymHeap obj p0)) @ [CHR 0x27] @
                 '' defined in section with index '' @ [CHR 0x27] @ show_nat i0 @ [CHR 0x27] @
                 '' cannot be removed because it is referenced by a relocation in section '' @
                 [CHR 0x27] @ takeWhile (\<lambda>c. c \<noteq> CHR 0x00) (CanonicalName Sec0) @
                 [CHR 0x27])), obj\<lparr>LoadCommands := LCs'\<rparr>)"
    using res by (simp only: msg)
  have c2: "read_decimal (show_nat i0) = Some i0" by (rule read_decimal_show_nat)
  have c4: "R0 \<in> set (Relocations Sec0)" using o(2) Sec0(2) by simp
  have c6: "p0 \<in> set (Symbols obj)" using p0(2) by simp
  have c8: "i0 \<notin> Index ` set ?surv" using i0(2) by (simp add: partitionLoop_None [OF pl])
  show ?thesis
    by (intro exI conjI) (rule c1 c2 Sec0(1) c4 p0(1) c6 i0(1) c8)+
qed

text \<open>
  Claim C10.  When \<^verbatim>\<open>removeSections\<close> returns an error, the object differs from the
  original in its load commands only: the symbol list and every symbol entry are as
  before, while each load command has lost the sections that match the predicate
  and the remaining sections are numbered 1, 2, ... in order.  The section lists
  are not restored.
\<close>

theorem removeSections_failure_state:
  assumes "removeSections ToRemove obj = Some (Some e, obj')"
  shows "obj' = obj\<lparr>LoadCommands := LoadCommands obj'\<rparr> \<and>
         Symbols obj' = Symbols obj \<and> SymHeap obj' = SymHeap obj \<and>
         list_all2 (\<lambda>LC' LC. same_but_sections LC' LC \<and>
                      map forget_index (Sections LC') =
                      map forget_index (filter (\<lambda>Sec. \<not> ToRemove Sec) (Sections LC)))
           (LoadCommands obj') (LoadCommands obj) \<and>
         map Index (all_sections (LoadCommands obj')) =
           [1..<Suc (length (survivors ToRemove (LoadCommands obj)))]"
proof -
  obtain LCs' n' M where pl: "partitionLoop ToRemove (LoadCommands obj) 1 Map.empty = (LCs', n', M)"
    by (cases "partitionLoop ToRemove (LoadCommands obj) 1 Map.empty") auto
  from assms have obj': "obj' = obj\<lparr>LoadCommands := LCs'\<rparr>"
    by (auto simp: removeSections_unfold [OF pl] split: option.splits)
  have "map Index (all_sections LCs') = [1..<Suc (length (survivors ToRemove (LoadCommands obj)))]"
    using partitionLoop_sections [OF pl] by (simp add: map_Index_renumber)
  with obj' partitionLoop_shape [OF pl] show ?thesis by simp
qed

lemma survivors_filter: "survivors T LCs = filter (\<lambda>Sec. \<not> T Sec) (all_sections LCs)"
  by (simp add: survivors_def all_sections_def filter_concat comp_def)

lemma strict_nth_lower:
  fixes ys :: "nat list"
  assumes "sorted_wrt (<) ys" "\<forall>y\<in>set ys. 1 \<le> y"
  shows "j < length ys \<Longrightarrow> Suc j \<le> ys ! j"
proof (induction j)
  case 0
  then have "ys ! 0 \<in> set ys" by simp
  with assms(2) show ?case by auto
next
  case (Suc j)
  then have "Suc j \<le> ys ! j" by simp
  moreover have "ys ! j < ys ! Suc j"
    using assms(1) Suc.prems by (simp add: sorted_wrt_nth_less)
  ultimately show ?case by simp
qed

lemma numbered_survivors:
  assumes "map Index (all_sections LCs) = [1..<Suc (length (all_sections LCs))]"
    and "j < length (survivors T LCs)"
  shows "Suc j \<le> Index (survivors T LCs ! j)"
proof -
  let ?all = "all_sections LCs"
  have "sorted_wrt (<) (map Index ?all)" by (simp only: assms(1) sorted_wrt_upt)
  then have "sorted_wrt (\<lambda>a b. Index a < Index b) ?all" by (simp add: sorted_wrt_map)
  then have "sorted_wrt (\<lambda>a b. Index a < Index b) (survivors T LCs)"
    unfolding survivors_filter by (rule sorted_wrt_filter)
  then have s: "sorted_wrt (<) (map Index (survivors T LCs))" by (simp add: sorted_wrt_map)
  have "\<forall>y\<in>set (map Index ?all). 1 \<le> y" by (simp only: assms(1)) auto
  then have p: "\<forall>y\<in>set (map Index (survivors T LCs)). 1 \<le> y"
    by (auto simp: survivors_filter)
  from strict_nth_lower [OF s p, of j] assms(2) show ?thesis by simp
qed

text \<open>What the last loop stores in a symbol that stays: the new index of the section
  recorded under the symbol's old section number, narrowed to one byte.\<close>

lemma removeSections_new_n_sect:
  assumes ok: "removeSections T obj = Some (None, obj')"
    and ds: "distinct (Symbols obj)"
    and p: "p \<in> set (Symbols obj')" "section_of (SymHeap obj p) = Some i"
  shows "\<exists>j<length (survivors T (LoadCommands obj)).
           Index (survivors T (LoadCommands obj) ! j) = i \<and>
           Index (all_sections (LoadCommands obj') ! j) = Suc j \<and>
           n_sect (SymHeap obj' p) = of_nat (Suc j)"
proof -
  obtain LCs' n' M where pl: "partitionLoop T (LoadCommands obj) 1 Map.empty = (LCs', n', M)"
    by (cases "partitionLoop T (LoadCommands obj) 1 Map.empty") auto
  let ?surv = "survivors T (LoadCommands obj)"
  let ?keep = "filter (\<lambda>p. \<not> IsDead M (SymHeap obj p)) (Symbols obj)"
  have rw: "rewriteSymbols M ?keep (SymHeap obj) =
      Some (\<lambda>q. if q \<in> set ?keep then rewritten M (SymHeap obj q) else SymHeap obj q)"
    using ds by (intro rewriteSymbols_total) auto
  from ok have LCs: "LoadCommands obj' = LCs'" and syms: "Symbols obj' = ?keep"
    and heap: "SymHeap obj' = (\<lambda>q. if q \<in> set ?keep then rewritten M (SymHeap obj q) else SymHeap obj q)"
    by (auto simp: removeSections_unfold [OF pl] rw split: option.splits)
  have secs: "all_sections LCs' = renumber 1 ?surv"
    using partitionLoop_sections [OF pl] by simp
  from p have keep: "p \<in> set ?keep" by (simp add: syms)
  then have "\<not> IsDead M (SymHeap obj p)" by simp
  with p(2) obtain sec where sec: "M i = Some sec" by (auto simp: IsDead_def)
  from partitionLoop_map [OF pl sec] obtain j where
    j: "j < length ?surv" "Index (?surv ! j) = i" "sec = (?surv ! j)\<lparr>Index := 1 + j\<rparr>"
    by auto
  from p(2) have iu: "i = unat (n_sect (SymHeap obj p))"
    by (auto simp: section_of_def split: if_splits)
  have new: "n_sect (SymHeap obj' p) = of_nat (Suc j)"
    using keep p(2) sec j(3) iu by (simp add: heap rewritten_def)
  have "Index (all_sections (LoadCommands obj') ! j) = Suc j"
    using j(1) by (simp add: LCs secs nth_renumber)
  with j new show ?thesis by auto
qed

text \<open>
  Claim C2, amended.  Let the section indices and the symbol addresses of the object
  be pairwise distinct, and let the new section numbers fit the one-byte \<^verbatim>\<open>n_sect\<close>:
  fewer than 256 sections remain, or the sections of the object are numbered
  1, ..., n in load-command order (as the function itself leaves them).  When
  \<^verbatim>\<open>removeSections\<close> succeeds: the remaining sections, in load-command order and in
  their order within each command, carry the indices 1, ..., k, and each command
  keeps exactly its sections that do not match; a symbol whose section is one of the
  removed sections is no longer in the table; and a symbol that stays and had
  section number \<open>i\<close> now has the new index of the remaining section whose old index
  was \<open>i\<close>.
\<close>

theorem removeSections_success:
  assumes ok: "removeSections ToRemove obj = Some (None, obj')"
    and d: "distinct (map Index (all_sections (LoadCommands obj)))"
    and ds: "distinct (Symbols obj)"
    and fits: "length (survivors ToRemove (LoadCommands obj)) < 256 \<or>
               map Index (all_sections (LoadCommands obj)) =
                 [1..<Suc (length (all_sections (LoadCommands obj)))]"
  shows "map Index (all_sections (LoadCommands obj')) =
           [1..<Suc (length (survivors ToRemove (LoadCommands obj)))] \<and>
         list_all2 (\<lambda>LC' LC. same_but_sections LC' LC \<and>
                      map forget_index (Sections LC') =
                      map forget_index (filter (\<lambda>Sec. \<not> ToRemove Sec) (Sections LC)))
           (LoadCommands obj') (LoadCommands obj) \<and>
         (\<forall>p\<in>set (Symbols obj). \<forall>Removed\<in>set (all_sections (LoadCommands obj)).
             ToRemove Removed \<and> section_of (SymHeap obj p) = Some (Index Removed)
               \<longrightarrow> p \<notin> set (Symbols obj')) \<and>
         (\<forall>p\<in>set (Symbols obj'). \<forall>i. section_of (SymHeap obj p) = Some i \<longrightarrow>
             (\<exists>j<length (survivors ToRemove (LoadCommands obj)).
                 Index (survivors ToRemove (LoadCommands obj) ! j) = i \<and>
                 section_of (SymHeap obj' p) =
                   Some (Index (all_sections (LoadCommands obj') ! j))))"
proof -
  obtain LCs' n' M where pl: "partitionLoop ToRemove (LoadCommands obj) 1 Map.empty = (LCs', n', M)"
    by (cases "partitionLoop ToRemove (LoadCommands obj) 1 Map.empty") auto
  let ?surv = "survivors ToRemove (LoadCommands obj)"
  let ?keep = "filter (\<lambda>p. \<not> IsDead M (SymHeap obj p)) (Symbols obj)"
  have rw: "rewriteSymbols M ?keep (SymHeap obj) =
      Some (\<lambda>q. if q \<in> set ?keep then rewritten M (SymHeap obj q) else SymHeap obj q)"
    using ds by (intro rewriteSymbols_total) auto
  from ok have LCs: "LoadCommands obj' = LCs'" and syms: "Symbols obj' = ?keep"
    by (auto simp: removeSections_unfold [OF pl] rw split: option.splits)
  have secs: "all_sections LCs' = renumber 1 ?surv"
    using partitionLoop_sections [OF pl] by simp
  have a: "map Index (all_sections (LoadCommands obj')) = [1..<Suc (length ?surv)]"
    using secs LCs by (simp add: map_Index_renumber)
  have b: "list_all2 (\<lambda>LC' LC. same_but_sections LC' LC \<and>
                      map forget_index (Sections LC') =
                      map forget_index (filter (\<lambda>Sec. \<not> ToRemove Sec) (Sections LC)))
           (LoadCommands obj') (LoadCommands obj)"
    using partitionLoop_shape [OF pl] LCs by simp
  have c: "p \<notin> set (Symbols obj')"
    if "Removed \<in> set (all_sections (LoadCommands obj))" "ToRemove Removed"
       "section_of (SymHeap obj p) = Some (Index Removed)" for p Removed
  proof -
    have "M (Index Removed) = None"
      using removed_index_not_surviving [where T = ToRemove, OF d that(1,2)] by (simp add: partitionLoop_None [OF pl])
    then show ?thesis using that(3) by (simp add: syms IsDead_def)
  qed
  have e: "\<exists>j<length ?surv. Index (?surv ! j) = i \<and>
              section_of (SymHeap obj' p) = Some (Index (all_sections (LoadCommands obj') ! j))"
    if "p \<in> set (Symbols obj')" "section_of (SymHeap obj p) = Some i" for p i
  proof -
    from removeSections_new_n_sect [OF ok ds that] obtain j where
      j: "j < length ?surv" "Index (?surv ! j) = i"
         "Index (all_sections (LoadCommands obj') ! j) = Suc j"
      and new: "n_sect (SymHeap obj' p) = of_nat (Suc j)"
      by blast
    from that(2) have iu: "i = unat (n_sect (SymHeap obj p))"
      by (auto simp: section_of_def split: if_splits)
    have "i < 256" using unsigned_less [of "n_sect (SymHeap obj p)", where ?'a = nat] iu by simp
    have "Suc j < 256"
      using fits
    proof
      assume "length ?surv < 256"
      then show ?thesis using j(1) by simp
    next
      assume "map Index (all_sections (LoadCommands obj)) =
                 [1..<Suc (length (all_sections (LoadCommands obj)))]"
      from numbered_survivors [OF this j(1)] j(2) \<open>i < 256\<close> show ?thesis by simp
    qed
    then have "unat (of_nat (Suc j) :: u8) = Suc j" by (rule unat_small)
    then have "unat (n_sect (SymHeap obj' p)) = Suc j" by (simp only: new)
    then have "section_of (SymHeap obj' p) = Some (Suc j)"
      by (auto simp: section_of_def)
    with j show ?thesis by auto
  qed
  from a b c e show ?thesis by blast
qed

lemma removeSections_defined:
  assumes "distinct (Symbols obj)"
  shows "removeSections ToRemove obj \<noteq> None"
proof -
  obtain LCs' n' M where pl: "partitionLoop ToRemove (LoadCommands obj) 1 Map.empty = (LCs', n', M)"
    by (cases "partitionLoop ToRemove (LoadCommands obj) 1 Map.empty") auto
  let ?keep = "filter (\<lambda>p. \<not> IsDead M (SymHeap obj p)) (Symbols obj)"
  have rw: "rewriteSymbols M ?keep (SymHeap obj) =
      Some (\<lambda>q. if q \<in> set ?keep then rewritten M (SymHeap obj q) else SymHeap obj q)"
    using assms by (intro rewriteSymbols_total) auto
  show ?thesis by (simp add: removeSections_unfold [OF pl] rw split: option.splits)
qed

lemma removeSections_succeeds:
  assumes ds: "distinct (Symbols obj)"
    and nr: "\<forall>Sec\<in>set (survivors T (LoadCommands obj)). Relocations Sec = []"
  shows "\<exists>obj'. removeSections T obj = Some (None, obj')"
proof -
  obtain LCs' n' M where pl: "partitionLoop T (LoadCommands obj) 1 Map.empty = (LCs', n', M)"
    by (cases "partitionLoop T (LoadCommands obj) 1 Map.empty") auto
  let ?D = "{p \<in> set (Symbols obj). IsDead M (SymHeap obj p)}"
  let ?keep = "filter (\<lambda>p. \<not> IsDead M (SymHeap obj p)) (Symbols obj)"
  have secs: "all_sections LCs' = renumber 1 (survivors T (LoadCommands obj))"
    using partitionLoop_sections [OF pl] by simp
  have "Relocations Sec' = []" if "Sec' \<in> set (all_sections LCs')" for Sec'
    using that set_renumber [of Sec' 1 "survivors T (LoadCommands obj)"] nr secs by auto
  then have chk: "checkLoadCommands ?D (SymHeap obj) LCs' = None"
    unfolding checkLoadCommands_None by simp
  have rw: "rewriteSymbols M ?keep (SymHeap obj) =
      Some (\<lambda>q. if q \<in> set ?keep then rewritten M (SymHeap obj q) else SymHeap obj q)"
    using ds by (intro rewriteSymbols_total) auto
  show ?thesis by (simp add: removeSections_unfold [OF pl] chk rw)
qed

lemma removeSections_keeps_symbol:
  assumes ok: "removeSections T obj = Some (None, obj')"
    and p: "p \<in> set (Symbols obj)" "section_of (SymHeap obj p) = Some i"
    and i: "i \<in> Index ` set (survivors T (LoadCommands obj))"
  shows "p \<in> set (Symbols obj')"
proof -
  obtain LCs' n' M where pl: "partitionLoop T (LoadCommands obj) 1 Map.empty = (LCs', n', M)"
    by (cases "partitionLoop T (LoadCommands obj) 1 Map.empty") auto
  from ok have syms: "Symbols obj' = filter (\<lambda>p. \<not> IsDead M (SymHeap obj p)) (Symbols obj)"
    by (auto simp: removeSections_unfold [OF pl] split: option.splits)
  have "M i \<noteq> None" using i by (simp add: partitionLoop_None [OF pl])
  then show ?thesis using p by (auto simp: syms IsDead_def)
qed

lemma ex_many_all_sections:
  "all_sections (LoadCommands ex_many_sections) = map ex_numbered ([2..<258] @ [1])"
  by (simp add: ex_many_sections_def all_sections_def del: upt_rec_numeral)

lemma ex_many_survivors:
  "survivors (\<lambda>Sec. False) (LoadCommands ex_many_sections) = map ex_numbered ([2..<258] @ [1])"
  by (simp add: ex_many_sections_def survivors_def del: upt_rec_numeral)

lemma Index_ex_numbered: "map Index (map ex_numbered xs) = xs"
  by (induction xs) (simp_all add: ex_numbered_def)

lemma ex_many_nth:
  assumes "j < 257"
  shows "Index (map ex_numbered ([2..<258] @ [1]) ! j) = (if j < 256 then 2 + j else 1)"
proof -
  have "map ex_numbered ([2..<258] @ [1]) ! j = ex_numbered (([2..<258] @ [1]) ! j)"
    using assms by (intro nth_map) simp
  then have "Index (map ex_numbered ([2..<258] @ [1]) ! j) = ([2..<258] @ [1]) ! j"
    by (simp add: ex_numbered_def del: upt_rec_numeral)
  also have "\<dots> = (if j < 256 then 2 + j else 1)"
    using assms by (simp add: nth_append del: upt_rec_numeral)
  finally show ?thesis .
qed

text \<open>
  Claim C2 as stated covers every object.  In the object with 257 sections numbered
  2, ..., 257, 1, nothing is removed and the call succeeds.  The symbol \<^verbatim>\<open>_main\<close>
  stays; its section is the one with the old index 1, the last of the 257, which gets
  the new index 257.  The one-byte \<^verbatim>\<open>n_sect\<close> of the symbol takes this number modulo
  256: the symbol's section number is 1 afterwards, the new index of another section,
  and not 257.
\<close>

theorem removeSections_narrows_section_index:
  "\<exists>obj'. removeSections (\<lambda>Sec. False) ex_many_sections = Some (None, obj') \<and>
      distinct (map Index (all_sections (LoadCommands ex_many_sections))) \<and>
      distinct (Symbols ex_many_sections) \<and>
      length (survivors (\<lambda>Sec. False) (LoadCommands ex_many_sections)) = 257 \<and>
      10 \<in> set (Symbols obj') \<and>
      section_of (SymHeap ex_many_sections 10) = Some 1 \<and>
      Index (survivors (\<lambda>Sec. False) (LoadCommands ex_many_sections) ! 256) = 1 \<and>
      Index (all_sections (LoadCommands obj') ! 256) = 257 \<and>
      section_of (SymHeap obj' 10) = Some 1 \<and>
      section_of (SymHeap obj' 10) \<noteq> Some (Index (all_sections (LoadCommands obj') ! 256))"
proof -
  let ?T = "\<lambda>Sec :: Section. False"
  let ?surv = "survivors ?T (LoadCommands ex_many_sections)"
  have ds: "distinct (Symbols ex_many_sections)"
    by (simp add: ex_many_sections_def del: upt_rec_numeral)
  have d: "distinct (map Index (all_sections (LoadCommands ex_many_sections)))"
    by (simp only: ex_many_all_sections Index_ex_numbered) (simp del: upt_rec_numeral)
  have nr: "\<forall>Sec\<in>set ?surv. Relocations Sec = []"
    by (auto simp: ex_many_survivors ex_numbered_def simp del: upt_rec_numeral)
  from removeSections_succeeds [OF ds nr] obtain obj' where
    ok: "removeSections ?T ex_many_sections = Some (None, obj')" by blast
  have s: "section_of (SymHeap ex_many_sections 10) = Some 1"
    by (simp add: ex_many_sections_def ex_heap_def section_of_def del: upt_rec_numeral)
  have len: "length ?surv = 257"
    by (simp add: ex_many_survivors del: upt_rec_numeral)
  have "Index (map ex_numbered ([2..<258] @ [1]) ! 256) = (if (256::nat) < 256 then 2 + 256 else 1)"
    by (rule ex_many_nth) simp
  then have last: "Index (?surv ! 256) = 1"
    by (simp only: ex_many_survivors) (simp del: upt_rec_numeral)
  have "256 < length ?surv" by (simp add: len)
  then have "?surv ! 256 \<in> set ?surv" by (rule nth_mem)
  then have "Index (?surv ! 256) \<in> Index ` set ?surv" by (rule imageI)
  then have i: "1 \<in> Index ` set ?surv" by (simp only: last)
  have m: "10 \<in> set (Symbols ex_many_sections)"
    by (simp add: ex_many_sections_def del: upt_rec_numeral)
  have k: "10 \<in> set (Symbols obj')"
    by (rule removeSections_keeps_symbol [OF ok m s i])
  from removeSections_new_n_sect [OF ok ds k s] obtain j where
    j: "j < length ?surv" "Index (?surv ! j) = 1"
       "Index (all_sections (LoadCommands obj') ! j) = Suc j"
       "n_sect (SymHeap obj' 10) = of_nat (Suc j)"
    by blast
  from j(1) have j257: "j < 257" by (simp only: len)
  from j(2) have "Index (map ex_numbered ([2..<258] @ [1]) ! j) = 1"
    by (simp only: ex_many_survivors)
  with ex_many_nth [OF j257] have "(if j < 256 then 2 + j else 1) = 1" by (simp only:)
  then have "j = 256" using j257 by (simp split: if_splits)
  with j(3,4) have a: "Index (all_sections (LoadCommands obj') ! 256) = 257"
    and n: "n_sect (SymHeap obj' 10) = 1" by simp_all
  from n have b: "section_of (SymHeap obj' 10) = Some 1" by (simp add: section_of_def)
  from a b have c: "section_of (SymHeap obj' 10) \<noteq> Some (Index (all_sections (LoadCommands obj') ! 256))"
    by simp
  from ok d ds len k s last a b c show ?thesis by blast
qed

lemmas ex_defs = ex_object_def ex_text_def ex_data_def ex_bss_def ex_reloc_def ex_heap_def
  is_data_def is_text_def all_sections_def survivors_def constructSegment_def zero_load_command_def

lemma removeSections_ex_failed:
  "removeSections is_data ex_object = Some (Some (invalid_argument ex_message), ex_failed)"
  by (simp add: removeSections_def ex_defs ex_failed_def ex_message_def Let_def IsDead_def
        section_of_def refersDead_def dead_reloc_message_def c_str_def show_nat.simps digit_char_def)

lemma removeSections_ex_after:
  "removeSections is_text ex_object = Some (None, ex_after)"
  by (simp add: removeSections_def ex_defs ex_after_def Let_def IsDead_def section_of_def
        refersDead_def fun_upd_def)


section \<open>The theorems at the example object\<close>

text \<open>The theorem of C1 at the example object: \<^verbatim>\<open>__DATA,__data\<close> is removed, and the
  relocation of \<^verbatim>\<open>__TEXT,__text\<close> refers to the symbol at address 7, \<^verbatim>\<open>_foo\<close>, defined
  in that section, which has the index 2.\<close>

theorem removeSections_dangling_relocation_witness:
  "distinct (map Index (all_sections (LoadCommands ex_object))) \<and>
   ex_text \<in> set (survivors is_data (LoadCommands ex_object)) \<and>
   ex_reloc \<in> set (Relocations ex_text) \<and> Symbol ex_reloc = Some (Some 7) \<and>
   7 \<in> set (Symbols ex_object) \<and>
   ex_data \<in> set (all_sections (LoadCommands ex_object)) \<and> is_data ex_data \<and>
   section_of (SymHeap ex_object 7) = Some (Index ex_data) \<and>
   (\<exists>obj' Sec0 R0 p0 i0 digits.
      removeSections is_data ex_object =
        Some (Some (invalid_argument
                (''symbol '' @ [CHR 0x27] @
                 takeWhile (\<lambda>c. c \<noteq> CHR 0x00) (Name (SymHeap ex_object p0)) @ [CHR 0x27] @
                 '' defined in section with index '' @ [CHR 0x27] @ digits @ [CHR 0x27] @
                 '' cannot be removed because it is referenced by a relocation in section '' @
                 [CHR 0x27] @ takeWhile (\<lambda>c. c \<noteq> CHR 0x00) (CanonicalName Sec0) @
                 [CHR 0x27])), obj') \<and>
      read_decimal digits = Some i0 \<and>
      Sec0 \<in> set (survivors is_data (LoadCommands ex_object)) \<and> R0 \<in> set (Relocations Sec0) \<and>
      Symbol R0 = Some (Some p0) \<and> p0 \<in> set (Symbols ex_object) \<and>
      section_of (SymHeap ex_object p0) = Some i0 \<and>
      i0 \<notin> Index ` set (survivors is_data (LoadCommands ex_object))) \<and>
   removeSections is_data ex_object =
     Some (Some (invalid_argument
             (''symbol '' @ [CHR 0x27] @ ''_foo'' @ [CHR 0x27] @
              '' defined in section with index '' @ [CHR 0x27] @ ''2'' @ [CHR 0x27] @
              '' cannot be removed because it is referenced by a relocation in section '' @
              [CHR 0x27] @ ''__TEXT,__text'' @ [CHR 0x27])), ex_failed)"
proof -
  have h1: "distinct (map Index (all_sections (LoadCommands ex_object)))" by (simp add: ex_defs)
  have h2: "ex_text \<in> set (survivors is_data (LoadCommands ex_object))" by (simp add: ex_defs)
  have h3: "ex_reloc \<in> set (Relocations ex_text)" by (simp add: ex_defs)
  have h4: "Symbol ex_reloc = Some (Some 7)" by (simp add: ex_defs)
  have h5: "7 \<in> set (Symbols ex_object)" by (simp add: ex_defs)
  have h6: "ex_data \<in> set (all_sections (LoadCommands ex_object))" by (simp add: ex_defs)
  have h7: "is_data ex_data" by (simp add: ex_defs)
  have h8: "section_of (SymHeap ex_object 7) = Some (Index ex_data)"
    by (simp add: ex_defs section_of_def)
  note c = removeSections_dangling_relocation [OF h1 h2 h3 h4 h5 h6 h7 h8]
  have r: "removeSections is_data ex_object =
     Some (Some (invalid_argument
             (''symbol '' @ [CHR 0x27] @ ''_foo'' @ [CHR 0x27] @
              '' defined in section with index '' @ [CHR 0x27] @ ''2'' @ [CHR 0x27] @
              '' cannot be removed because it is referenced by a relocation in section '' @
              [CHR 0x27] @ ''__TEXT,__text'' @ [CHR 0x27])), ex_failed)"
    using removeSections_ex_failed by (simp only: ex_message_def)
  show ?thesis using h1 h2 h3 h4 h5 h6 h7 h8 c r by (intro conjI)
qed

text \<open>The theorem of C2 at the example object: \<^verbatim>\<open>__TEXT,__text\<close> is removed; the
  symbol at address 10, defined there, leaves the table, and the symbol at address
  8, of old section 3, gets the new index of that section.\<close>

theorem removeSections_success_witness:
  "removeSections is_text ex_object = Some (None, ex_after) \<and>
   distinct (map Index (all_sections (LoadCommands ex_object))) \<and>
   distinct (Symbols ex_object) \<and>
   length (survivors is_text (LoadCommands ex_object)) < 256 \<and>
   map Index (all_sections (LoadCommands ex_object)) =
     [1..<Suc (length (all_sections (LoadCommands ex_object)))] \<and>
   map Index (all_sections (LoadCommands ex_after)) = [1, 2] \<and>
   10 \<notin> set (Symbols ex_after) \<and>
   (\<exists>j<length (survivors is_text (LoadCommands ex_object)).
       Index (survivors is_text (LoadCommands ex_object) ! j) = 3 \<and>
       section_of (SymHeap ex_after 8) = Some (Index (all_sections (LoadCommands ex_after) ! j)))"
proof -
  have h2: "distinct (map Index (all_sections (LoadCommands ex_object)))" by (simp add: ex_defs)
  have h3: "distinct (Symbols ex_object)" by (simp add: ex_defs)
  have h4: "length (survivors is_text (LoadCommands ex_object)) < 256 \<or>
            map Index (all_sections (LoadCommands ex_object)) =
              [1..<Suc (length (all_sections (LoadCommands ex_object)))]"
    by (simp add: ex_defs)
  note c = removeSections_success [OF removeSections_ex_after h2 h3 h4]
  have len: "Suc (length (survivors is_text (LoadCommands ex_object))) = 3" by (simp add: ex_defs)
  from c have a: "map Index (all_sections (LoadCommands ex_after)) = [1, 2]"
    by (simp add: len upt_rec)
  have "10 \<in> set (Symbols ex_object)" "ex_text \<in> set (all_sections (LoadCommands ex_object))"
    "is_text ex_text" "section_of (SymHeap ex_object 10) = Some (Index ex_text)"
    by (simp_all add: ex_defs section_of_def)
  with c have b: "10 \<notin> set (Symbols ex_after)" by blast
  have "8 \<in> set (Symbols ex_after)" "section_of (SymHeap ex_object 8) = Some 3"
    by (simp_all add: ex_after_def ex_defs section_of_def)
  with c have d: "\<exists>j<length (survivors is_text (LoadCommands ex_object)).
       Index (survivors is_text (LoadCommands ex_object) ! j) = 3 \<and>
       section_of (SymHeap ex_after 8) = Some (Index (all_sections (LoadCommands ex_after) ! j))"
    by blast
  have h5: "length (survivors is_text (LoadCommands ex_object)) < 256" by (simp add: ex_defs)
  have h6: "map Index (all_sections (LoadCommands ex_object)) =
              [1..<Suc (length (all_sections (LoadCommands ex_object)))]"
    by (simp add: ex_defs upt_rec)
  from removeSections_ex_after h2 h3 h5 h6 a b d show ?thesis by (intro conjI)
qed

text \<open>The theorem of C10 at the example object, for the failed removal of
  \<^verbatim>\<open>__DATA,__data\<close>: the load commands of the object have changed.\<close>

theorem removeSections_failure_state_witness:
  "removeSections is_data ex_object = Some (Some (invalid_argument ex_message), ex_failed) \<and>
   ex_failed = ex_object\<lparr>LoadCommands := LoadCommands ex_failed\<rparr> \<and>
   Symbols ex_failed = Symbols ex_object \<and> SymHeap ex_failed = SymHeap ex_object \<and>
   list_all2 (\<lambda>LC' LC. same_but_sections LC' LC \<and>
                map forget_index (Sections LC') =
                map forget_index (filter (\<lambda>Sec. \<not> is_data Sec) (Sections LC)))
     (LoadCommands ex_failed) (LoadCommands ex_object) \<and>
   map Index (all_sections (LoadCommands ex_failed)) =
     [1..<Suc (length (survivors is_data (LoadCommands ex_object)))] \<and>
   LoadCommands ex_failed \<noteq> LoadCommands ex_object"
proof -
  note c = removeSections_failure_state [OF removeSections_ex_failed]
  have "LoadCommands ex_failed \<noteq> LoadCommands ex_object"
    by (simp add: ex_failed_def ex_defs)
  with removeSections_ex_failed c show ?thesis by (intro conjI) simp_all
qed

section \<open>Object.cpp: the cached indices after a mutation\<close>

text \<open>
  Claim C9 asks that after \<^verbatim>\<open>addSegment\<close>, \<^verbatim>\<open>addLoadCommand\<close> and
  \<^verbatim>\<open>removeLoadCommands\<close> every cached index is the position of a command of its
  type, and designates none when there is no such command.  The code at two inputs:
  removing the only symbol table command leaves the index 0 in an object without
  commands, since \<^verbatim>\<open>updateLoadCommandIndexes\<close> only ever stores positions; and
  appending a symbol table command to an object without commands leaves the index
  empty, since \<^verbatim>\<open>addLoadCommand\<close> does not recompute.
\<close>

theorem cached_index_stale_after_mutation:
  "LoadCommands (snd (removeLoadCommands is_symtab ex_symtab_only)) = [] \<and>
   SymTabCommandIndex (snd (removeLoadCommands is_symtab ex_symtab_only)) = Some 0 \<and>
   LoadCommands (addLoadCommand ex_symtab ex_no_commands) = [ex_symtab] \<and>
   SymTabCommandIndex (addLoadCommand ex_symtab ex_no_commands) = None"
  by (simp add: removeLoadCommands_def updateLoadCommandIndexes_def addLoadCommand_def
        ex_symtab_only_def ex_no_commands_def ex_symtab_def is_symtab_def zero_load_command_def
        updateIndex_def)

section \<open>MachOEmitter.cpp: padding and the offsets of sections\<close>

lemma ZeroToOffset_eq:
  "ZeroToOffset fileStart OS Offset = OS @ replicate (Offset - (tell OS - fileStart)) 0"
  by (simp add: ZeroToOffset_def ZeroFillBytes_def Let_def)

lemma ZeroToOffset_reached:
  "Offset \<le> tell OS - fileStart \<Longrightarrow> ZeroToOffset fileStart OS Offset = OS"
  by (simp add: ZeroToOffset_def Let_def)

lemma tell_ZeroToOffset:
  "fileStart \<le> tell OS \<Longrightarrow>
     tell (ZeroToOffset fileStart OS Offset) - fileStart = max Offset (tell OS - fileStart)"
  by (auto simp: ZeroToOffset_eq tell_def)

lemma too_far_after_padding:
  "(tell (ZeroToOffset fileStart OS Offset) - fileStart > Offset) = (tell OS - fileStart > Offset)"
  by (auto simp: ZeroToOffset_eq tell_def)

lemma writeSection_too_far:
  assumes "unat (Sec_offset Sec) < tell OS - fileStart" "Sec_offset Sec \<noteq> 0"
  shows "writeSection env Obj fileStart OS Sec = (Some offsets_error, OS)"
proof -
  have "ZeroToOffset fileStart OS (unat (Sec_offset Sec)) = OS"
    using assms(1) by (simp add: ZeroToOffset_reached)
  then show ?thesis using assms by (simp add: writeSection_def Let_def)
qed

lemma writeSection_prefix:
  "\<exists>rest. snd (writeSection env Obj fileStart OS Sec) =
      ZeroToOffset fileStart OS (unat (Sec_offset Sec)) @ rest"
  by (auto simp: writeSection_def Let_def ZeroFillBytes_def Fill_def split: prod.splits option.splits)

lemma writeSections_take_error:
  assumes "writeSections env Obj fileStart OS (take i Secs) = (None, OSi)" "i < length Secs"
    and "writeSection env Obj fileStart OSi (Secs ! i) = (Some e, OS')"
  shows "writeSections env Obj fileStart OS Secs = (Some e, OS')"
  using assms
proof (induction Secs arbitrary: OS i)
  case Nil
  then show ?case by simp
next
  case (Cons Sec Secs)
  show ?case
  proof (cases i)
    case 0
    with Cons.prems show ?thesis by simp
  next
    case (Suc j)
    with Cons.prems(1) obtain OS1 where
      s: "writeSection env Obj fileStart OS Sec = (None, OS1)"
      and r: "writeSections env Obj fileStart OS1 (take j Secs) = (None, OSi)"
      by (auto split: prod.splits option.splits)
    from Cons.prems(2,3) Suc have "j < length Secs"
      "writeSection env Obj fileStart OSi (Secs ! j) = (Some e, OS')" by simp_all
    from Cons.IH [OF r this] s show ?thesis by simp
  qed
qed

lemma writeSectionData_append:
  "writeSectionData env Obj fileStart F OS pre = (None, F', OS') \<Longrightarrow>
     writeSectionData env Obj fileStart F OS (pre @ LCs) =
     writeSectionData env Obj fileStart F' OS' LCs"
proof (induction pre arbitrary: F OS)
  case Nil
  then show ?case by simp
next
  case (Cons LC pre)
  show ?case
  proof (cases "cmd (Cmd_Data LC) = LC_SEGMENT \<or> cmd (Cmd_Data LC) = LC_SEGMENT_64")
    case False
    with Cons show ?thesis by (simp add: Let_def)
  next
    case True
    let ?OS1 = "if strncmp_eq (segname (Cmd_Data LC)) ''__LINKEDIT'' 16
                then writeLinkEditData env Obj fileStart OS else OS"
    obtain r OS2 where w: "writeSections env Obj fileStart ?OS1 (Cmd_Sections LC) = (r, OS2)"
      by (cases "writeSections env Obj fileStart ?OS1 (Cmd_Sections LC)") auto
    show ?thesis
    proof (cases r)
      case None
      with Cons.prems True w Cons.IH show ?thesis by (simp add: Let_def)
    next
      case (Some e)
      with Cons.prems True w show ?thesis by (simp add: Let_def)
    qed
  qed
qed

lemma writeSectionData_segment_error:
  assumes "cmd (Cmd_Data LC) = LC_SEGMENT \<or> cmd (Cmd_Data LC) = LC_SEGMENT_64"
    and "writeSections env Obj fileStart
           (if strncmp_eq (segname (Cmd_Data LC)) ''__LINKEDIT'' 16
            then writeLinkEditData env Obj fileStart OS else OS) (Cmd_Sections LC) = (Some e, OS2)"
  shows "writeSectionData env Obj fileStart F OS (LC # LCs) =
           (Some e, F \<or> strncmp_eq (segname (Cmd_Data LC)) ''__LINKEDIT'' 16, OS2)"
  using assms by (simp add: Let_def)

text \<open>
  Claim C6.  For a section \<open>Sec\<close> met with the sink \<open>OS\<close>: if the position relative to
  the start of the image is past the section's offset and the offset is not zero,
  the round returns the invalid-argument error and has written nothing; in every
  case what the round leaves starts with \<open>OS\<close> followed by the zero bytes up to the
  offset; and padding to an offset that is already reached returns the sink as it
  is.  For every section of every segment command: when the commands before
  (\<open>pre\<close>) and the sections before (the first \<open>i\<close>) were written without error and
  section \<open>i\<close> is met past its nonzero offset, \<^verbatim>\<open>writeSectionData\<close> returns that
  error, with the sink as it was when the section was met.
\<close>

theorem writeSection_offset_check:
  "(unat (Sec_offset Sec) < tell OS - fileStart \<and> Sec_offset Sec \<noteq> 0 \<longrightarrow>
      writeSection env Obj fileStart OS Sec = (Some offsets_error, OS)) \<and>
   (\<exists>msg. offsets_error = invalid_argument msg) \<and>
   (\<exists>rest. snd (writeSection env Obj fileStart OS Sec) =
      OS @ replicate (unat (Sec_offset Sec) - (tell OS - fileStart)) 0 @ rest) \<and>
   (unat (Sec_offset Sec) \<le> tell OS - fileStart \<longrightarrow>
      ZeroToOffset fileStart OS (unat (Sec_offset Sec)) = OS) \<and>
   (\<forall>pre LC LCs F F' OS0 OS' i OSi.
       writeSectionData env Obj fileStart F OS0 pre = (None, F', OS') \<and>
       (cmd (Cmd_Data LC) = LC_SEGMENT \<or> cmd (Cmd_Data LC) = LC_SEGMENT_64) \<and>
       writeSections env Obj fileStart
         (if strncmp_eq (segname (Cmd_Data LC)) ''__LINKEDIT'' 16
          then writeLinkEditData env Obj fileStart OS' else OS')
         (take i (Cmd_Sections LC)) = (None, OSi) \<and>
       i < length (Cmd_Sections LC) \<and>
       unat (Sec_offset (Cmd_Sections LC ! i)) < tell OSi - fileStart \<and>
       Sec_offset (Cmd_Sections LC ! i) \<noteq> 0 \<longrightarrow>
       fst (writeSectionData env Obj fileStart F OS0 (pre @ LC # LCs)) = Some offsets_error \<and>
       snd (snd (writeSectionData env Obj fileStart F OS0 (pre @ LC # LCs))) = OSi)"
proof (intro conjI allI impI)
  show "writeSection env Obj fileStart OS Sec = (Some offsets_error, OS)"
    if "unat (Sec_offset Sec) < tell OS - fileStart \<and> Sec_offset Sec \<noteq> 0"
    using that by (simp add: writeSection_too_far)
  show "\<exists>msg. offsets_error = invalid_argument msg"
    by (simp add: offsets_error_def)
  show "\<exists>rest. snd (writeSection env Obj fileStart OS Sec) =
      OS @ replicate (unat (Sec_offset Sec) - (tell OS - fileStart)) 0 @ rest"
    using writeSection_prefix [of env Obj fileStart OS Sec] by (simp add: ZeroToOffset_eq)
  show "ZeroToOffset fileStart OS (unat (Sec_offset Sec)) = OS"
    if "unat (Sec_offset Sec) \<le> tell OS - fileStart"
    using that by (rule ZeroToOffset_reached)
next
  fix pre and LC :: MachOYAML_LoadCommand and LCs F F' OS0 OS' i OSi
  let ?OS1 = "if strncmp_eq (segname (Cmd_Data LC)) ''__LINKEDIT'' 16
              then writeLinkEditData env Obj fileStart OS' else OS'"
  assume h: "writeSectionData env Obj fileStart F OS0 pre = (None, F', OS') \<and>
       (cmd (Cmd_Data LC) = LC_SEGMENT \<or> cmd (Cmd_Data LC) = LC_SEGMENT_64) \<and>
       writeSections env Obj fileStart ?OS1 (take i (Cmd_Sections LC)) = (None, OSi) \<and>
       i < length (Cmd_Sections LC) \<and>
       unat (Sec_offset (Cmd_Sections LC ! i)) < tell OSi - fileStart \<and>
       Sec_offset (Cmd_Sections LC ! i) \<noteq> 0"
  then have "writeSection env Obj fileStart OSi (Cmd_Sections LC ! i) = (Some offsets_error, OSi)"
    by (simp add: writeSection_too_far)
  with h have "writeSections env Obj fileStart ?OS1 (Cmd_Sections LC) = (Some offsets_error, OSi)"
    by (intro writeSections_take_error [where i = i and OSi = OSi]) simp_all
  with h have "writeSectionData env Obj fileStart F' OS' (LC # LCs) =
      (Some offsets_error, F' \<or> strncmp_eq (segname (Cmd_Data LC)) ''__LINKEDIT'' 16, OSi)"
    by (intro writeSectionData_segment_error) simp_all
  moreover from h have "writeSectionData env Obj fileStart F OS0 (pre @ LC # LCs) =
      writeSectionData env Obj fileStart F' OS' (LC # LCs)"
    by (intro writeSectionData_append) simp
  ultimately show
    "fst (writeSectionData env Obj fileStart F OS0 (pre @ LC # LCs)) = Some offsets_error"
    "snd (snd (writeSectionData env Obj fileStart F OS0 (pre @ LC # LCs))) = OSi"
    by simp_all
qed

section \<open>MachOEmitter.cpp: the filler of a section without content\<close>

lemma le_bytes_deadbeef: "le_bytes 4 (0xDEADBEEF :: u32) = [0xEF, 0xBE, 0xAD, 0xDE]"
  by (simp add: le_bytes_def upt_rec drop_bit_eq_div)

lemma nth_concat_replicate:
  "bs \<noteq> [] \<Longrightarrow> i < k * length bs \<Longrightarrow> concat (replicate k bs) ! i = bs ! (i mod length bs)"
proof (induction k arbitrary: i)
  case 0
  then show ?case by simp
next
  case (Suc k)
  show ?case
  proof (cases "i < length bs")
    case True
    then show ?thesis by (simp add: nth_append)
  next
    case False
    then have "i - length bs < k * length bs" using Suc.prems by simp
    from Suc.IH [OF Suc.prems(1) this] False show ?thesis
      by (simp add: nth_append le_mod_geq)
  qed
qed

lemma length_fill: "length bs = 4 \<Longrightarrow> length (take n (concat (replicate (n div 4 + 1) bs))) = n"
proof -
  assume "length bs = 4"
  then have "length (concat (replicate (n div 4 + 1) bs)) = 4 * (n div 4 + 1)"
    by (simp add: length_concat sum_list_replicate)
  moreover have "n \<le> 4 * (n div 4 + 1)" by presburger
  ultimately show ?thesis by simp
qed

lemma host_image_deadbeef:
  "field_image hostLE False (F32 0xDEADBEEF) =
     (if hostLE then [0xEF, 0xBE, 0xAD, 0xDE] else [0xDE, 0xAD, 0xBE, 0xEF])"
  by (simp add: in_memory_def le_bytes_deadbeef)

text \<open>
  Claim C8, amended.  For a section that is not in the \<^verbatim>\<open>__DWARF\<close> segment, is not
  virtual, has no content and is not met past its offset, the round writes, after
  the padding, exactly \<open>Sec_size\<close> bytes, and byte \<open>i\<close> of them is byte \<open>i mod 4\<close> of
  the host's memory of the 32-bit value \<^verbatim>\<open>0xDEADBEEF\<close>: \<^verbatim>\<open>EF BE AD DE\<close> on a
  little-endian host, \<^verbatim>\<open>DE AD BE EF\<close> on a big-endian one.
\<close>

theorem writeSection_filler:
  assumes nd: "\<not> strncmp_eq (Sec_segname Sec) ''__DWARF'' 16"
    and nv: "\<not> isVirtualSection env (Sec_flags Sec AND SECTION_TYPE)"
    and nc: "Sec_content Sec = None"
    and ok: "\<not> (unat (Sec_offset Sec) < tell OS - fileStart \<and> Sec_offset Sec \<noteq> 0)"
  shows "\<exists>filler.
      writeSection env Obj fileStart OS Sec =
        (None, ZeroToOffset fileStart OS (unat (Sec_offset Sec)) @ filler) \<and>
      length filler = unat (Sec_size Sec) \<and>
      (\<forall>i<unat (Sec_size Sec).
          filler ! i = (if IsLittleEndianHost env then [0xEF, 0xBE, 0xAD, 0xDE]
                        else [0xDE, 0xAD, 0xBE, 0xEF]) ! (i mod 4))"
proof -
  let ?pat = "if IsLittleEndianHost env then [0xEF, 0xBE, 0xAD, 0xDE] else [0xDE, 0xAD, 0xBE, 0xEF :: u8]"
  let ?n = "unat (Sec_size Sec)"
  let ?filler = "take ?n (concat (replicate (?n div 4 + 1) ?pat))"
  have len4: "length ?pat = 4" by simp
  have w: "writeSection env Obj fileStart OS Sec =
             (None, ZeroToOffset fileStart OS (unat (Sec_offset Sec)) @ ?filler)"
    using nd nv nc ok
    by (simp add: writeSection_def Let_def too_far_after_padding Fill_def host_image_deadbeef
          del: field_image.simps)
  have l: "length ?filler = ?n" using len4 by (rule length_fill)
  have n: "?filler ! i = ?pat ! (i mod 4)" if "i < ?n" for i
  proof -
    have "i < (?n div 4 + 1) * length ?pat" using that len4 by (simp only: len4) presburger
    moreover have "?pat \<noteq> []" by simp
    ultimately have "concat (replicate (?n div 4 + 1) ?pat) ! i = ?pat ! (i mod length ?pat)"
      by (intro nth_concat_replicate)
    then show ?thesis using that by (simp only: len4 nth_take)
  qed
  from w l n show ?thesis by blast
qed

lemma strncmp_text: "\<not> strncmp_eq ''__TEXT'' ''__DWARF'' 16"
  by code_simp

lemma ex_fill: "writeSection ex_env ex_yaml 0 [] ex_section =
    (None, [0xEF, 0xBE, 0xAD, 0xDE, 0xEF, 0xBE, 0xAD, 0xDE, 0xEF, 0xBE, 0xAD, 0xDE])"
  by code_simp

text \<open>
  Claim C8 as stated asks, for every section that is not virtual and has no content,
  for the bytes \<^verbatim>\<open>DE AD BE EF\<close>.  On a little-endian host the section of 12 bytes
  without content is written as three times \<^verbatim>\<open>EF BE AD DE\<close>.  And the same section
  in the \<^verbatim>\<open>__DWARF\<close> segment takes the branch of the debug emitters, which ends the
  round: under a name that none of the comparisons matches, nothing is written.
\<close>

theorem filler_on_little_endian_host:
  "\<not> isVirtualSection ex_env (Sec_flags ex_section AND SECTION_TYPE) \<and>
   Sec_content ex_section = None \<and> Sec_size ex_section = 12 \<and>
   writeSection ex_env ex_yaml 0 [] ex_section =
     (None, [0xEF, 0xBE, 0xAD, 0xDE, 0xEF, 0xBE, 0xAD, 0xDE, 0xEF, 0xBE, 0xAD, 0xDE]) \<and>
   snd (writeSection ex_env ex_yaml 0 [] ex_section) \<noteq>
     [0xDE, 0xAD, 0xBE, 0xEF, 0xDE, 0xAD, 0xBE, 0xEF, 0xDE, 0xAD, 0xBE, 0xEF] \<and>
   \<not> isVirtualSection ex_env (Sec_flags ex_dwarf_section AND SECTION_TYPE) \<and>
   Sec_content ex_dwarf_section = None \<and> Sec_size ex_dwarf_section = 12 \<and>
   writeSection ex_env ex_yaml 0 [] ex_dwarf_section = (None, [])"
  by code_simp

text \<open>The amended statement at the section of 12 bytes, met after three bytes.\<close>

theorem writeSection_filler_witness:
  "\<not> strncmp_eq (Sec_segname ex_section) ''__DWARF'' 16 \<and>
   \<not> isVirtualSection ex_env (Sec_flags ex_section AND SECTION_TYPE) \<and>
   Sec_content ex_section = None \<and>
   \<not> (unat (Sec_offset ex_section) < tell [1, 2, 3] - 0 \<and> Sec_offset ex_section \<noteq> 0) \<and>
   (\<exists>filler.
      writeSection ex_env ex_yaml 0 [1, 2, 3] ex_section =
        (None, ZeroToOffset 0 [1, 2, 3] (unat (Sec_offset ex_section)) @ filler) \<and>
      length filler = 12 \<and> filler ! 5 = 0xBE)"
proof -
  have h1: "\<not> strncmp_eq (Sec_segname ex_section) ''__DWARF'' 16" by code_simp
  have h2: "\<not> isVirtualSection ex_env (Sec_flags ex_section AND SECTION_TYPE)" by code_simp
  have h3: "Sec_content ex_section = None" by (simp add: ex_section_def)
  have h4: "\<not> (unat (Sec_offset ex_section) < tell [1, 2, 3] - 0 \<and> Sec_offset ex_section \<noteq> 0)"
    by (simp add: ex_section_def)
  have sz: "unat (Sec_size ex_section) = 12" by (simp add: ex_section_def)
  have le: "IsLittleEndianHost ex_env" by (simp add: ex_env_def)
  from writeSection_filler [OF h1 h2 h3 h4, of ex_yaml] obtain filler where
    f: "writeSection ex_env ex_yaml 0 [1, 2, 3] ex_section =
          (None, ZeroToOffset 0 [1, 2, 3] (unat (Sec_offset ex_section)) @ filler)"
       "length filler = unat (Sec_size ex_section)"
       "\<forall>i<unat (Sec_size ex_section).
          filler ! i = (if IsLittleEndianHost ex_env then [0xEF, 0xBE, 0xAD, 0xDE]
                        else [0xDE, 0xAD, 0xBE, 0xEF]) ! (i mod 4)"
    by blast
  from f(3) have "filler ! 5 = 0xBE" by (simp add: sz le)
  with f(1,2) h1 h2 h3 h4 show ?thesis by (auto simp: sz)
qed

text \<open>The theorem at the section at offset 4, met after six bytes, after two bytes, and
  as the second section of a segment behind 12 bytes of filler.\<close>

theorem writeSection_offset_check_witness:
  "unat (Sec_offset ex_late_section) < tell [1, 2, 3, 4, 5, 6] - 0 \<and>
   Sec_offset ex_late_section \<noteq> 0 \<and>
   writeSection ex_env ex_yaml 0 [1, 2, 3, 4, 5, 6] ex_late_section =
     (Some offsets_error, [1, 2, 3, 4, 5, 6]) \<and>
   (\<exists>rest. snd (writeSection ex_env ex_yaml 0 [1, 2] ex_late_section) =
      [1, 2] @ replicate (unat (Sec_offset ex_late_section) - (tell [1, 2] - 0)) 0 @ rest) \<and>
   ZeroToOffset 0 [1, 2, 3, 4, 5, 6] (unat (Sec_offset ex_late_section)) = [1, 2, 3, 4, 5, 6] \<and>
   fst (writeSectionData ex_env ex_yaml 0 False [] ([] @ ex_segment_command # [])) =
     Some offsets_error \<and>
   snd (snd (writeSectionData ex_env ex_yaml 0 False [] ([] @ ex_segment_command # []))) =
     [0xEF, 0xBE, 0xAD, 0xDE, 0xEF, 0xBE, 0xAD, 0xDE, 0xEF, 0xBE, 0xAD, 0xDE]"
proof -
  let ?filled = "[0xEF, 0xBE, 0xAD, 0xDE, 0xEF, 0xBE, 0xAD, 0xDE, 0xEF, 0xBE, 0xAD, 0xDE] :: u8 list"
  have h1: "unat (Sec_offset ex_late_section) < tell [1, 2, 3, 4, 5, 6 :: u8] - 0"
    by (simp add: ex_late_section_def tell_def)
  have h2: "Sec_offset ex_late_section \<noteq> 0" by (simp add: ex_late_section_def)
  have h3: "unat (Sec_offset ex_late_section) \<le> tell [1, 2, 3, 4, 5, 6 :: u8] - 0"
    using h1 by simp
  note c = writeSection_offset_check [of ex_late_section "[1, 2, 3, 4, 5, 6]" 0 ex_env ex_yaml]
  note d = writeSection_offset_check [of ex_late_section "[1, 2]" 0 ex_env ex_yaml]
  note e = writeSection_offset_check [of ex_late_section "[]" 0 ex_env ex_yaml]
  have secs: "Cmd_Sections ex_segment_command = [ex_section, ex_late_section]"
    and seg: "cmd (Cmd_Data ex_segment_command) = LC_SEGMENT_64"
    and nm: "\<not> strncmp_eq (segname (Cmd_Data ex_segment_command)) ''__LINKEDIT'' 16"
    by (simp add: ex_segment_command_def, simp add: ex_segment_command_def constructSegment_def,
        code_simp)
  have g0: "writeSectionData ex_env ex_yaml 0 False [] [] = (None, False, [])" by simp
  have g1: "writeSections ex_env ex_yaml 0
         (if strncmp_eq (segname (Cmd_Data ex_segment_command)) ''__LINKEDIT'' 16
          then writeLinkEditData ex_env ex_yaml 0 [] else [])
         (take 1 (Cmd_Sections ex_segment_command)) = (None, ?filled)"
    using ex_fill by (simp add: secs nm)
  have g2: "1 < length (Cmd_Sections ex_segment_command)"
    "unat (Sec_offset (Cmd_Sections ex_segment_command ! 1)) < tell ?filled - 0"
    "Sec_offset (Cmd_Sections ex_segment_command ! 1) \<noteq> 0"
    by (simp_all add: secs ex_late_section_def tell_def)
  from e g0 g1 g2 seg
  have k: "fst (writeSectionData ex_env ex_yaml 0 False [] ([] @ ex_segment_command # [])) =
             Some offsets_error \<and>
           snd (snd (writeSectionData ex_env ex_yaml 0 False [] ([] @ ex_segment_command # []))) =
             ?filled"
    by blast
  from c h1 h2 have c1: "writeSection ex_env ex_yaml 0 [1, 2, 3, 4, 5, 6] ex_late_section =
     (Some offsets_error, [1, 2, 3, 4, 5, 6])" by blast
  from c h3 have c2: "ZeroToOffset 0 [1, 2, 3, 4, 5, 6] (unat (Sec_offset ex_late_section)) =
     [1, 2, 3, 4, 5, 6]" by blast
  from d have d1: "\<exists>rest. snd (writeSection ex_env ex_yaml 0 [1, 2] ex_late_section) =
      [1, 2] @ replicate (unat (Sec_offset ex_late_section) - (tell [1, 2] - 0)) 0 @ rest"
    by blast
  from h1 h2 c1 d1 c2 k show ?thesis by (intro conjI) blast+
qed

section \<open>MachOEmitter.cpp: more slices than architectures\<close>

text \<open>
  Claim C7.  For a fat input with more slices than architectures, the universal
  \<^verbatim>\<open>writeMachO\<close> returns the invalid-argument error, and the sink holds what it held
  before followed by the fat header and the table of architectures and nothing
  else: no byte of a slice and no padding towards one.
\<close>

theorem writeMachO_more_slices_than_archs:
  assumes "YOF_MachO ObjectFile = None" "YOF_FatMachO ObjectFile = Some FatFile"
    and "length (UB_FatArchs FatFile) < length (UB_Slices FatFile)"
  shows "UniversalWriter_writeMachO env ObjectFile OS =
           Some (Some slices_error,
                 OS @ struct_image (IsLittleEndianHost env) (IsLittleEndianHost env)
                        [F32 (FatH_magic (UB_Header FatFile)), F32 (FatH_nfat_arch (UB_Header FatFile))]
                    @ concat (map (writeFatArch (FatH_magic (UB_Header FatFile) = FAT_MAGIC_64) env)
                                  (UB_FatArchs FatFile))) \<and>
         (\<exists>msg. slices_error = invalid_argument msg)"
  using assms
  by (simp add: UniversalWriter_writeMachO_def writeFatArchs_def writeFatHeader_def Let_def
        slices_error_def)

text \<open>The theorem at the fat file with two architectures and three slices.\<close>

theorem writeMachO_more_slices_than_archs_witness:
  "YOF_MachO ex_fat_file = None \<and> YOF_FatMachO ex_fat_file = Some ex_fat \<and>
   length (UB_FatArchs ex_fat) < length (UB_Slices ex_fat) \<and>
   UniversalWriter_writeMachO ex_env ex_fat_file [] =
     Some (Some slices_error,
           [0xCA, 0xFE, 0xBA, 0xBE, 0, 0, 0, 2,
            0, 0, 0, 7, 0, 0, 0, 3, 0, 0, 0x10, 0, 0, 0, 0, 32, 0, 0, 0, 12,
            1, 0, 0, 7, 0, 0, 0, 3, 0, 0, 0x20, 0, 0, 0, 0, 32, 0, 0, 0, 12])"
proof -
  have h1: "YOF_MachO ex_fat_file = None" by (simp add: ex_fat_file_def)
  have h2: "YOF_FatMachO ex_fat_file = Some ex_fat" by (simp add: ex_fat_file_def)
  have h3: "length (UB_FatArchs ex_fat) < length (UB_Slices ex_fat)" by (simp add: ex_fat_def)
  have b: "[] @ struct_image (IsLittleEndianHost ex_env) (IsLittleEndianHost ex_env)
                        [F32 (FatH_magic (UB_Header ex_fat)), F32 (FatH_nfat_arch (UB_Header ex_fat))]
                    @ concat (map (writeFatArch (FatH_magic (UB_Header ex_fat) = FAT_MAGIC_64) ex_env)
                                  (UB_FatArchs ex_fat)) =
           [0xCA, 0xFE, 0xBA, 0xBE, 0, 0, 0, 2,
            0, 0, 0, 7, 0, 0, 0, 3, 0, 0, 0x10, 0, 0, 0, 0, 32, 0, 0, 0, 12,
            1, 0, 0, 7, 0, 0, 0, 3, 0, 0, 0x20, 0, 0, 0, 0, 32, 0, 0, 0, 12]"
    by code_simp
  from writeMachO_more_slices_than_archs [OF h1 h2 h3, of ex_env "[]"] b h1 h2 h3
  show ?thesis by simp
qed

section \<open>MachOEmitter.cpp: the size of a load command\<close>

lemma unat_eq_zero_u64: "(unat (w :: u64) = 0) = (w = 0)"
  by (simp add: unat_eq_0)

lemma writeLoadCommand_eq:
  "writeLoadCommand env Obj OS LC =
     OS @ written_before_fill env Obj LC @
     replicate (unat (ucast (cmdsize (Cmd_Data LC)) - bytes_written env Obj LC)) 0"
proof -
  have z: "replicate (unat (Cmd_ZeroPadBytes LC)) (0::u8) = []" if "\<not> 0 < Cmd_ZeroPadBytes LC"
    using that by (simp add: word_neq_0_conv [symmetric])
  have r: "replicate (unat w) (0::u8) = []" if "\<not> 0 < w" for w :: u64
    using that by (simp add: word_neq_0_conv [symmetric])
  show ?thesis
    by (cases "Cmd_PayloadBytes LC = []"; cases "0 < Cmd_ZeroPadBytes LC";
        cases "0 < ucast (cmdsize (Cmd_Data LC)) - bytes_written env Obj LC")
       (simp_all add: writeLoadCommand_def written_before_fill_def bytes_written_def Let_def
          ZeroFillBytes_def z r word_neq_0_conv [symmetric])
qed

lemma unat_of_nat_u64: "n < 2 ^ 64 \<Longrightarrow> unat (of_nat n :: u64) = n"
  by (simp add: unat_of_nat)

lemma unat_bytes_written:
  assumes "length (written_before_fill env Obj LC) < 2 ^ 64"
  shows "unat (bytes_written env Obj LC) = length (written_before_fill env Obj LC)"
proof -
  let ?st = "lc_struct env (cmd (Cmd_Data LC))"
  define n where "n = sizeof_LCStruct ?st +
     length (writeLoadCommandData ?st env LC (Obj_IsLittleEndian Obj)) +
     length (Cmd_PayloadBytes LC)"
  let ?z = "Cmd_ZeroPadBytes LC"
  have len: "length (written_before_fill env Obj LC) = n + unat ?z"
    by (simp add: written_before_fill_def Let_def n_def)
  with assms have s: "n + unat ?z < 2 ^ 64" by simp
  have bw: "bytes_written env Obj LC = of_nat n + ?z"
    by (simp add: bytes_written_def Let_def n_def)
  have u: "unat (of_nat n :: u64) = n" using s by (intro unat_of_nat_u64) simp
  have "unat (of_nat n :: u64) + unat ?z < 2 ^ LENGTH(64)" using s u by simp
  then have "unat (of_nat n + ?z) = unat (of_nat n :: u64) + unat ?z"
    by (rule unat_add_lem [THEN iffD1])
  then show ?thesis by (simp only: bw len u)
qed

text \<open>
  Claim C3, amended.  For a load command whose struct, trailing data, payload bytes
  and explicit pad together are no longer than its \<open>cmdsize\<close>, the round writes these
  bytes followed by zero bytes up to \<open>cmdsize\<close>: \<open>cmdsize\<close> bytes in all.
\<close>

theorem writeLoadCommand_cmdsize:
  assumes "length (written_before_fill env Obj LC) \<le> unat (cmdsize (Cmd_Data LC))"
  shows "writeLoadCommand env Obj OS LC =
           OS @ written_before_fill env Obj LC @
           replicate (unat (cmdsize (Cmd_Data LC)) - length (written_before_fill env Obj LC)) 0 \<and>
         length (writeLoadCommand env Obj OS LC) = length OS + unat (cmdsize (Cmd_Data LC))"
proof -
  let ?c = "cmdsize (Cmd_Data LC)"
  let ?w = "written_before_fill env Obj LC"
  have c: "unat ?c < 2 ^ 32" using unsigned_less [of ?c, where ?'a = nat] by simp
  then have lt: "length ?w < 2 ^ 64" using assms by simp
  have bw: "unat (bytes_written env Obj LC) = length ?w" using lt by (rule unat_bytes_written)
  have uc: "unat (ucast ?c :: u64) = unat ?c"
    by (simp add: unsigned_ucast_eq take_bit_nat_eq_self_iff) (use c in simp)
  have "bytes_written env Obj LC \<le> ucast ?c"
    using assms by (simp add: word_le_nat_alt bw uc)
  then have "unat (ucast ?c - bytes_written env Obj LC) = unat ?c - length ?w"
    by (simp add: unat_sub bw uc)
  then have e: "writeLoadCommand env Obj OS LC = OS @ ?w @ replicate (unat ?c - length ?w) 0"
    by (simp add: writeLoadCommand_eq)
  then show ?thesis using assms by simp
qed

lemma ex_lc_struct_unlisted: "ex_lc_struct 0x1234 = load_command"
  by (simp add: ex_lc_struct_def MachO_def_def)

lemma ex_lc_struct_rpath: "ex_lc_struct 0x8000001C = rpath_command"
  by (simp add: ex_lc_struct_def MachO_def_def)

text \<open>
  Claim C3 as stated covers every load command.  A command of an unlisted type
  declared with \<open>cmdsize = 4\<close>: the 8 bytes of the struct are written, which is
  already more than \<open>cmdsize\<close>; the unsigned difference \<open>4 - 8\<close> wraps around and the
  fill that follows is asked for \<open>2\<^sup>6\<^sup>4 - 4\<close> bytes more.
\<close>

theorem writeLoadCommand_exceeds_cmdsize:
  "unat (cmdsize (Cmd_Data ex_small_command)) = 4 \<and>
   take 8 (writeLoadCommand ex_env ex_yaml [] ex_small_command) = [0x34, 0x12, 0, 0, 4, 0, 0, 0] \<and>
   length (take 8 (writeLoadCommand ex_env ex_yaml [] ex_small_command)) = 8 \<and>
   unat (cmdsize (Cmd_Data ex_small_command)) < length (writeLoadCommand ex_env ex_yaml [] ex_small_command) \<and>
   length (writeLoadCommand ex_env ex_yaml [] ex_small_command) \<noteq>
     unat (cmdsize (Cmd_Data ex_small_command))"
  by (simp add: writeLoadCommand_eq written_before_fill_def bytes_written_def Let_def
        ex_small_command_def ex_env_def ex_yaml_def ex_lc_struct_unlisted ex_lc_fields_def
        zero_load_command_def
        LC_SEGMENT_def LC_SEGMENT_64_def LC_SYMTAB_def LC_DYLD_INFO_def LC_DYLD_INFO_ONLY_def
        swap_needed_def struct_image_def in_memory_def le_bytes_def upt_rec drop_bit_eq_div)

text \<open>The amended statement at the \<^verbatim>\<open>LC_RPATH\<close> command declared with 24 bytes: 12 of
  the struct \<^verbatim>\<open>rpath_command\<close>, 4 of the payload string, 2 of payload bytes, 2 of pad
  and 4 of fill.\<close>

theorem writeLoadCommand_cmdsize_witness:
  "length (written_before_fill ex_env ex_yaml ex_rpath_command) \<le> unat (cmdsize (Cmd_Data ex_rpath_command)) \<and>
   lc_struct ex_env (cmd (Cmd_Data ex_rpath_command)) = rpath_command \<and>
   writeLoadCommand ex_env ex_yaml [] ex_rpath_command =
     [0x1C, 0, 0, 0x80, 24, 0, 0, 0, 0, 0, 0, 0, 0x2F, 0x6C, 0x69, 0x62, 0xAA, 0xBB, 0, 0,
      0, 0, 0, 0] \<and>
   length (writeLoadCommand ex_env ex_yaml [] ex_rpath_command) = 24"
proof -
  have w: "written_before_fill ex_env ex_yaml ex_rpath_command =
        [0x1C, 0, 0, 0x80, 24, 0, 0, 0, 0, 0, 0, 0, 0x2F, 0x6C, 0x69, 0x62, 0xAA, 0xBB, 0, 0]"
    by code_simp
  have c: "unat (cmdsize (Cmd_Data ex_rpath_command)) = 24"
    by (simp add: ex_rpath_command_def)
  have st: "lc_struct ex_env (cmd (Cmd_Data ex_rpath_command)) = rpath_command"
    by (simp add: ex_env_def ex_rpath_command_def ex_lc_struct_rpath)
  have h: "length (written_before_fill ex_env ex_yaml ex_rpath_command) \<le>
           unat (cmdsize (Cmd_Data ex_rpath_command))"
    by (simp add: w c)
  from writeLoadCommand_cmdsize [OF h, of "[]"] show ?thesis
    using h st by (simp add: w c numeral_eq_Suc)
qed

section \<open>MachOEmitter.cpp: plain relocations\<close>

lemma le_layout:
  fixes s l t :: u32 and p e :: bool
  defines "w \<equiv> push_bit 0 (take_bit 24 s) OR push_bit 24 (of_bool p) OR push_bit 25 (take_bit 2 l) OR
               push_bit 27 (of_bool e) OR push_bit 28 (take_bit 4 t)"
  shows "take_bit 24 w = take_bit 24 s" and "bit w 24 = p"
    and "take_bit 2 (drop_bit 25 w) = take_bit 2 l" and "bit w 27 = e"
    and "drop_bit 28 w = take_bit 4 t"
proof -
  show "take_bit 24 w = take_bit 24 s"
    unfolding w_def by (rule bit_eqI) (auto simp: bit_simps)
  show "bit w 24 = p"
    unfolding w_def by (auto simp: bit_simps)
  show "take_bit 2 (drop_bit 25 w) = take_bit 2 l"
    unfolding w_def by (rule bit_eqI) (auto simp: bit_simps)
  show "bit w 27 = e"
    unfolding w_def by (auto simp: bit_simps)
  show "drop_bit 28 w = take_bit 4 t"
    unfolding w_def by (rule bit_eqI) (auto simp: bit_simps)
qed

lemma be_layout:
  fixes s l t :: u32 and p e :: bool
  defines "w \<equiv> push_bit 8 (take_bit 24 s) OR push_bit 7 (of_bool p) OR push_bit 5 (take_bit 2 l) OR
               push_bit 4 (of_bool e) OR push_bit 0 (take_bit 4 t)"
  shows "take_bit 4 w = take_bit 4 t" and "bit w 4 = e"
    and "take_bit 2 (drop_bit 5 w) = take_bit 2 l" and "bit w 7 = p"
    and "drop_bit 8 w = take_bit 24 s"
proof -
  show "take_bit 4 w = take_bit 4 t"
    unfolding w_def by (rule bit_eqI) (auto simp: bit_simps)
  show "bit w 4 = e"
    unfolding w_def by (auto simp: bit_simps)
  show "take_bit 2 (drop_bit 5 w) = take_bit 2 l"
    unfolding w_def by (rule bit_eqI) (auto simp: bit_simps)
  show "bit w 7 = p"
    unfolding w_def by (auto simp: bit_simps)
  show "drop_bit 8 w = take_bit 24 s"
    unfolding w_def by (rule bit_eqI) (auto simp: bit_simps)
qed

lemma take_bit_small: "(w :: 'a::len word) < 2 ^ n \<Longrightarrow> take_bit n w = w"
  by (simp add: take_bit_eq_mask less_mask_eq)

lemma ucast_small_u8:
  fixes b :: u8
  assumes "b < 2 ^ n"
  shows "take_bit n (ucast b :: u32) = ucast b"
proof -
  from assms have "take_bit n b = b" by (rule take_bit_small)
  then have "ucast (take_bit n b) = (ucast b :: u32)" by simp
  then show ?thesis by (simp add: unsigned_take_bit_eq)
qed

lemma writeRelocation_image:
  "writeRelocation env Obj R =
     (let MRE = (if Rel_is_scattered R then makeScatteredRelocationInfo R
                 else makeRelocationInfo R (Obj_IsLittleEndian Obj))
      in if Obj_IsLittleEndian Obj = IsLittleEndianHost env
         then host_word env (fst MRE) @ host_word env (snd MRE)
         else rev (host_word env (fst MRE)) @ rev (host_word env (snd MRE)))"
  by (auto simp: writeRelocation_def Let_def struct_image_def swap_needed_def in_memory_def
        host_word_def)

lemma length_host_word: "length (host_word env w) = 4"
  by (simp add: host_word_def in_memory_def le_bytes_def)

text \<open>
  Claim C5, amended.  For a plain relocation whose symbol index is below \<open>2\<^sup>2\<^sup>4\<close>,
  whose length is below 4 and whose type is below 16: \<open>r_word0\<close> is the address; for a
  little-endian image \<open>r_word1\<close> has the symbol index in bits 0-23, the pc-relative
  flag in bit 24, the length in bits 25-26, the external flag in bit 27 and the type
  in bits 28-31; for a big-endian image it has the type in bits 0-3, the external
  flag in bit 4, the length in bits 5-6, the pc-relative flag in bit 7 and the symbol
  index in bits 8-31.  The record written is 8 bytes: the host's memory of the two
  words when the image's byte order is the host's, and each word byte-reversed when
  it is not.  The two layouts are not byte swaps of each other: there is a
  relocation whose little-endian word, byte by byte, is not the reverse of its
  big-endian word.
\<close>

theorem writeRelocation_plain:
  assumes ns: "\<not> Rel_is_scattered R"
    and s: "Rel_symbolnum R < 2 ^ 24" and l: "Rel_length R < 4" and t: "Rel_type R < 16"
  shows "fst (makeRelocationInfo R IsLE) = Rel_address R \<and>
    (IsLE \<longrightarrow>
       take_bit 24 (snd (makeRelocationInfo R IsLE)) = Rel_symbolnum R \<and>
       bit (snd (makeRelocationInfo R IsLE)) 24 = Rel_is_pcrel R \<and>
       take_bit 2 (drop_bit 25 (snd (makeRelocationInfo R IsLE))) = ucast (Rel_length R) \<and>
       bit (snd (makeRelocationInfo R IsLE)) 27 = Rel_is_extern R \<and>
       drop_bit 28 (snd (makeRelocationInfo R IsLE)) = ucast (Rel_type R)) \<and>
    (\<not> IsLE \<longrightarrow>
       take_bit 4 (snd (makeRelocationInfo R IsLE)) = ucast (Rel_type R) \<and>
       bit (snd (makeRelocationInfo R IsLE)) 4 = Rel_is_extern R \<and>
       take_bit 2 (drop_bit 5 (snd (makeRelocationInfo R IsLE))) = ucast (Rel_length R) \<and>
       bit (snd (makeRelocationInfo R IsLE)) 7 = Rel_is_pcrel R \<and>
       drop_bit 8 (snd (makeRelocationInfo R IsLE)) = Rel_symbolnum R) \<and>
    writeRelocation env Obj R =
      (if Obj_IsLittleEndian Obj = IsLittleEndianHost env
       then host_word env (fst (makeRelocationInfo R (Obj_IsLittleEndian Obj))) @
            host_word env (snd (makeRelocationInfo R (Obj_IsLittleEndian Obj)))
       else rev (host_word env (fst (makeRelocationInfo R (Obj_IsLittleEndian Obj)))) @
            rev (host_word env (snd (makeRelocationInfo R (Obj_IsLittleEndian Obj))))) \<and>
    length (writeRelocation env Obj R) = 8 \<and>
    (\<exists>R'. le_bytes 4 (snd (makeRelocationInfo R' True)) \<noteq>
           rev (le_bytes 4 (snd (makeRelocationInfo R' False))))"
proof -
  have s': "take_bit 24 (Rel_symbolnum R) = Rel_symbolnum R" using s by (rule take_bit_small)
  have "Rel_length R < 2 ^ 2" using l by simp
  then have l': "take_bit 2 (ucast (Rel_length R) :: u32) = ucast (Rel_length R)"
    by (rule ucast_small_u8)
  have "Rel_type R < 2 ^ 4" using t by simp
  then have t': "take_bit 4 (ucast (Rel_type R) :: u32) = ucast (Rel_type R)"
    by (rule ucast_small_u8)
  have a: "fst (makeRelocationInfo R IsLE) = Rel_address R"
    by (simp add: makeRelocationInfo_def)
  have b: "take_bit 24 (snd (makeRelocationInfo R True)) = Rel_symbolnum R"
      "bit (snd (makeRelocationInfo R True)) 24 = Rel_is_pcrel R"
      "take_bit 2 (drop_bit 25 (snd (makeRelocationInfo R True))) = ucast (Rel_length R)"
      "bit (snd (makeRelocationInfo R True)) 27 = Rel_is_extern R"
      "drop_bit 28 (snd (makeRelocationInfo R True)) = ucast (Rel_type R)"
    using le_layout [of "Rel_symbolnum R" "Rel_is_pcrel R" "ucast (Rel_length R)"
                       "Rel_is_extern R" "ucast (Rel_type R)"]
    by (simp_all add: makeRelocationInfo_def s' l' t')
  have c: "take_bit 4 (snd (makeRelocationInfo R False)) = ucast (Rel_type R)"
      "bit (snd (makeRelocationInfo R False)) 4 = Rel_is_extern R"
      "take_bit 2 (drop_bit 5 (snd (makeRelocationInfo R False))) = ucast (Rel_length R)"
      "bit (snd (makeRelocationInfo R False)) 7 = Rel_is_pcrel R"
      "drop_bit 8 (snd (makeRelocationInfo R False)) = Rel_symbolnum R"
    using be_layout [of "Rel_symbolnum R" "Rel_is_pcrel R" "ucast (Rel_length R)"
                       "Rel_is_extern R" "ucast (Rel_type R)"]
    by (simp_all add: makeRelocationInfo_def s' l' t')
  have d: "writeRelocation env Obj R =
      (if Obj_IsLittleEndian Obj = IsLittleEndianHost env
       then host_word env (fst (makeRelocationInfo R (Obj_IsLittleEndian Obj))) @
            host_word env (snd (makeRelocationInfo R (Obj_IsLittleEndian Obj)))
       else rev (host_word env (fst (makeRelocationInfo R (Obj_IsLittleEndian Obj)))) @
            rev (host_word env (snd (makeRelocationInfo R (Obj_IsLittleEndian Obj)))))"
    using ns by (simp add: writeRelocation_image Let_def)
  have e: "length (writeRelocation env Obj R) = 8"
    by (simp add: writeRelocation_image Let_def length_host_word)
  have "le_bytes 4 (snd (makeRelocationInfo ex_relocation True)) \<noteq>
        rev (le_bytes 4 (snd (makeRelocationInfo ex_relocation False)))"
    by code_simp
  then have f: "\<exists>R'. le_bytes 4 (snd (makeRelocationInfo R' True)) \<noteq>
           rev (le_bytes 4 (snd (makeRelocationInfo R' False)))" ..
  show ?thesis
  proof (cases IsLE)
    case True
    with a b d e f show ?thesis by simp
  next
    case False
    with a c d e f show ?thesis by simp
  qed
qed

text \<open>
  Claim C5 as stated covers every plain relocation.  The fields are combined
  without masks: a symbol index of \<open>2\<^sup>2\<^sup>4\<close> in a relocation that is not
  pc-relative sets bit 24, and bits 0-23 are not the symbol index.
\<close>

theorem wide_symbol_index_sets_pcrel_bit:
  "\<not> Rel_is_scattered ex_wide_relocation \<and> \<not> Rel_is_pcrel ex_wide_relocation \<and>
   snd (makeRelocationInfo ex_wide_relocation True) = 0x1000000 \<and>
   bit (snd (makeRelocationInfo ex_wide_relocation True)) 24 \<and>
   take_bit 24 (snd (makeRelocationInfo ex_wide_relocation True)) \<noteq> Rel_symbolnum ex_wide_relocation"
  by code_simp

text \<open>The amended statement at the relocation with symbol index 5, in both layouts.\<close>

theorem writeRelocation_plain_witness:
  "\<not> Rel_is_scattered ex_relocation \<and> Rel_symbolnum ex_relocation < 2 ^ 24 \<and>
   Rel_length ex_relocation < 4 \<and> Rel_type ex_relocation < 16 \<and>
   take_bit 24 (snd (makeRelocationInfo ex_relocation True)) = 5 \<and>
   bit (snd (makeRelocationInfo ex_relocation True)) 24 \<and>
   drop_bit 8 (snd (makeRelocationInfo ex_relocation False)) = 5 \<and>
   bit (snd (makeRelocationInfo ex_relocation False)) 7 \<and>
   length (writeRelocation ex_env ex_yaml ex_relocation) = 8"
proof -
  have h1: "\<not> Rel_is_scattered ex_relocation" by (simp add: ex_relocation_def)
  have h2: "Rel_symbolnum ex_relocation < 2 ^ 24" by (simp add: ex_relocation_def)
  have h3: "Rel_length ex_relocation < 4" by (simp add: ex_relocation_def)
  have h4: "Rel_type ex_relocation < 16" by (simp add: ex_relocation_def)
  have v: "Rel_symbolnum ex_relocation = 5" "Rel_is_pcrel ex_relocation"
    by (simp_all add: ex_relocation_def)
  from writeRelocation_plain [OF h1 h2 h3 h4, of True ex_env ex_yaml]
       writeRelocation_plain [OF h1 h2 h3 h4, of False ex_env ex_yaml]
  show ?thesis using h1 h2 h3 h4 v by simp
qed

section \<open>MachOEmitter.cpp: the order of the link-edit data\<close>

lemma runQueue_foldl:
  "runQueue env Obj fileStart OS q =
     foldl (\<lambda>OS op. callHandler env Obj (snd op)
                        (OS @ replicate (unat (fst op) - (tell OS - fileStart)) 0)) OS q"
  by (induction q arbitrary: OS) (simp_all add: ZeroToOffset_eq)

lemma queueOf_symtab:
  "cmd (Cmd_Data LC) = LC_SYMTAB \<Longrightarrow>
     queueOf LC = [(ucast (symoff (Cmd_Data LC)), WriteNameList),
                   (ucast (stroff (Cmd_Data LC)), WriteStringTable)]"
  by (simp add: queueOf_def Let_def)

lemma queueOf_dyld_info_only:
  "cmd (Cmd_Data LC) = LC_DYLD_INFO_ONLY \<Longrightarrow>
     queueOf LC = [(ucast (rebase_off (Cmd_Data LC)), WriteRebaseOpcodes),
                   (ucast (bind_off (Cmd_Data LC)), WriteBasicBindOpcodes),
                   (ucast (weak_bind_off (Cmd_Data LC)), WriteWeakBindOpcodes),
                   (ucast (lazy_bind_off (Cmd_Data LC)), WriteLazyBindOpcodes),
                   (ucast (export_off (Cmd_Data LC)), WriteExportTrie)]"
  by (simp add: queueOf_def Let_def LC_SYMTAB_def LC_DYLD_INFO_ONLY_def)

lemma padded_reaches_offset:
  "fileStart \<le> tell OS \<Longrightarrow>
     Offset \<le> tell (OS @ replicate (Offset - (tell OS - fileStart)) 0) - fileStart"
  by (simp add: tell_def)

lemma sort_insert_offsets:
  fixes x :: "'a::linorder \<times> 'b"
  shows "sort_insert (\<lambda>a b. fst a < fst b) x ys = insort_key fst x ys"
  by (induction ys) (auto simp: not_less)

lemma llvm_sort_offsets:
  fixes xs :: "('a::linorder \<times> 'b) list"
  shows "llvm_sort (\<lambda>a b. fst a < fst b) xs = sort_key fst xs"
  by (induction xs) (simp_all add: sort_insert_offsets)

lemma sorted_llvm_sort:
  fixes xs :: "('a::linorder \<times> 'b) list"
  shows "sorted (map fst (llvm_sort (\<lambda>a b. fst a < fst b) xs))"
  by (simp add: llvm_sort_offsets)

lemma mset_llvm_sort:
  fixes xs :: "('a::linorder \<times> 'b) list"
  shows "mset (llvm_sort (\<lambda>a b. fst a < fst b) xs) = mset xs"
  by (simp add: llvm_sort_offsets)

lemma filter_key_distinct:
  "distinct (map f xs) \<Longrightarrow> k \<in> set xs \<Longrightarrow> filter (\<lambda>x. f k = f x) xs = [k]"
proof (induction xs)
  case Nil
  then show ?case by simp
next
  case (Cons a xs)
  show ?case
  proof (cases "k = a")
    case True
    have "filter (\<lambda>x. f a = f x) xs = []"
      using Cons.prems(1) by (auto simp: filter_empty_conv)
    with True show ?thesis by simp
  next
    case False
    with Cons.prems have k: "k \<in> set xs" by simp
    then have "f k \<in> f ` set xs" by (rule imageI)
    with Cons.prems(1) have "f k \<noteq> f a" by auto
    with Cons k show ?thesis by simp
  qed
qed

text \<open>When no two operations of the queue have the same offset, the queue has one
  ascending order, which is the one the sort returns.\<close>

lemma ascending_order_unique:
  fixes Q :: "('a::linorder \<times> 'b) list"
  assumes "mset ops = mset Q" "sorted (map fst ops)" "distinct (map fst Q)"
  shows "ops = llvm_sort (\<lambda>a b. fst a < fst b) Q"
proof -
  have "mset (map fst ops) = mset (map fst Q)" using assms(1) by simp
  then have d: "distinct (map fst ops)"
    using assms(3) by (metis mset_eq_imp_distinct_iff)
  have s: "set ops = set Q" using assms(1) by (rule mset_eq_setD)
  have "sort_key fst Q = ops"
  proof (rule properties_for_sort_key)
    show "mset ops = mset Q" by (rule assms(1))
    show "sorted (map fst ops)" by (rule assms(2))
    show "filter (\<lambda>x. fst k = fst x) ops = filter (\<lambda>x. fst k = fst x) Q" if "k \<in> set ops" for k
      using that s by (simp add: filter_key_distinct [OF d] filter_key_distinct [OF assms(3)])
  qed
  then show ?thesis by (simp add: llvm_sort_offsets)
qed

text \<open>
  Claim C4.  \<^verbatim>\<open>writeLinkEditData\<close> runs a sequence \<open>ops\<close> of write operations, each by
  appending zero bytes up to its offset (none when the offset is reached) and then
  calling its handler, such that: the offsets of \<open>ops\<close> ascend; \<open>ops\<close> is a
  permutation of the operations the commands declare, in whatever order they declare
  them; when the declared offsets differ from one another, \<open>ops\<close> is the only
  ascending order of these operations; every symbol table command contributes the
  symbol list at \<open>symoff\<close> and the string table at \<open>stroff\<close>; every
  \<^verbatim>\<open>LC_DYLD_INFO_ONLY\<close> command contributes the five streams at their offsets; the
  padding brings the sink to the offset or beyond; and the seven handlers are the
  seven writers.
\<close>

theorem writeLinkEditData_ascending:
  "\<exists>ops.
      writeLinkEditData env Obj fileStart OS =
        foldl (\<lambda>OS op. callHandler env Obj (snd op)
                           (OS @ replicate (unat (fst op) - (tell OS - fileStart)) 0)) OS ops \<and>
      sorted (map fst ops) \<and>
      mset ops = mset (concat (map queueOf (Obj_LoadCommands Obj))) \<and>
      (distinct (map fst (concat (map queueOf (Obj_LoadCommands Obj)))) \<longrightarrow>
         (\<forall>ops'. mset ops' = mset (concat (map queueOf (Obj_LoadCommands Obj))) \<and>
                 sorted (map fst ops') \<longrightarrow> ops' = ops)) \<and>
      (\<forall>LC\<in>set (Obj_LoadCommands Obj). cmd (Cmd_Data LC) = LC_SYMTAB \<longrightarrow>
          {(ucast (symoff (Cmd_Data LC)), WriteNameList),
           (ucast (stroff (Cmd_Data LC)), WriteStringTable)} \<subseteq> set ops) \<and>
      (\<forall>LC\<in>set (Obj_LoadCommands Obj). cmd (Cmd_Data LC) = LC_DYLD_INFO_ONLY \<longrightarrow>
          {(ucast (rebase_off (Cmd_Data LC)), WriteRebaseOpcodes),
           (ucast (bind_off (Cmd_Data LC)), WriteBasicBindOpcodes),
           (ucast (weak_bind_off (Cmd_Data LC)), WriteWeakBindOpcodes),
           (ucast (lazy_bind_off (Cmd_Data LC)), WriteLazyBindOpcodes),
           (ucast (export_off (Cmd_Data LC)), WriteExportTrie)} \<subseteq> set ops) \<and>
      (\<forall>OS' Offset. fileStart \<le> tell OS' \<longrightarrow>
          Offset \<le> tell (OS' @ replicate (Offset - (tell OS' - fileStart)) 0) - fileStart) \<and>
      (\<forall>OS'. callHandler env Obj WriteNameList OS' = writeNameList env Obj OS' \<and>
             callHandler env Obj WriteStringTable OS' = writeStringTable env Obj OS' \<and>
             callHandler env Obj WriteRebaseOpcodes OS' = writeRebaseOpcodes env Obj OS' \<and>
             callHandler env Obj WriteBasicBindOpcodes OS' =
               writeBindOpcodes env OS' (LE_BindOpcodes (Obj_LinkEdit Obj)) \<and>
             callHandler env Obj WriteWeakBindOpcodes OS' =
               writeBindOpcodes env OS' (LE_WeakBindOpcodes (Obj_LinkEdit Obj)) \<and>
             callHandler env Obj WriteLazyBindOpcodes OS' =
               writeBindOpcodes env OS' (LE_LazyBindOpcodes (Obj_LinkEdit Obj)) \<and>
             callHandler env Obj WriteExportTrie OS' = writeExportTrie env Obj OS')"
proof -
  let ?Q = "collectQueue (Obj_LoadCommands Obj)"
  let ?ops = "llvm_sort (\<lambda>a b. fst a < fst b) ?Q"
  have Q: "concat (map queueOf (Obj_LoadCommands Obj)) = ?Q" by (simp add: collectQueue_def)
  have perm: "mset ?ops = mset ?Q" by (rule mset_llvm_sort)
  have set_ops: "set ?ops = set ?Q" using perm by (rule mset_eq_setD)
  have a: "writeLinkEditData env Obj fileStart OS =
        foldl (\<lambda>OS op. callHandler env Obj (snd op)
                           (OS @ replicate (unat (fst op) - (tell OS - fileStart)) 0)) OS ?ops"
    by (simp add: writeLinkEditData_def runQueue_foldl)
  have b: "sorted (map fst ?ops)" by (rule sorted_llvm_sort)
  have c: "mset ?ops = mset (concat (map queueOf (Obj_LoadCommands Obj)))"
    using perm by (simp only: Q)
  have u: "distinct (map fst (concat (map queueOf (Obj_LoadCommands Obj)))) \<longrightarrow>
         (\<forall>ops'. mset ops' = mset (concat (map queueOf (Obj_LoadCommands Obj))) \<and>
                 sorted (map fst ops') \<longrightarrow> ops' = ?ops)"
    unfolding Q using ascending_order_unique [where Q = ?Q] by blast
  have d: "set (queueOf LC) \<subseteq> set ?ops" if "LC \<in> set (Obj_LoadCommands Obj)" for LC
    using that unfolding set_ops by (auto simp: collectQueue_def)
  have e: "\<forall>LC\<in>set (Obj_LoadCommands Obj). cmd (Cmd_Data LC) = LC_SYMTAB \<longrightarrow>
           {(ucast (symoff (Cmd_Data LC)), WriteNameList),
            (ucast (stroff (Cmd_Data LC)), WriteStringTable)} \<subseteq> set ?ops"
  proof (intro ballI impI)
    fix LC assume "LC \<in> set (Obj_LoadCommands Obj)" "cmd (Cmd_Data LC) = LC_SYMTAB"
    then show "{(ucast (symoff (Cmd_Data LC)), WriteNameList),
            (ucast (stroff (Cmd_Data LC)), WriteStringTable)} \<subseteq> set ?ops"
      using d [of LC] by (simp add: queueOf_symtab)
  qed
  have f: "\<forall>LC\<in>set (Obj_LoadCommands Obj). cmd (Cmd_Data LC) = LC_DYLD_INFO_ONLY \<longrightarrow>
          {(ucast (rebase_off (Cmd_Data LC)), WriteRebaseOpcodes),
           (ucast (bind_off (Cmd_Data LC)), WriteBasicBindOpcodes),
           (ucast (weak_bind_off (Cmd_Data LC)), WriteWeakBindOpcodes),
           (ucast (lazy_bind_off (Cmd_Data LC)), WriteLazyBindOpcodes),
           (ucast (export_off (Cmd_Data LC)), WriteExportTrie)} \<subseteq> set ?ops"
  proof (intro ballI impI)
    fix LC assume "LC \<in> set (Obj_LoadCommands Obj)" "cmd (Cmd_Data LC) = LC_DYLD_INFO_ONLY"
    then show "{(ucast (rebase_off (Cmd_Data LC)), WriteRebaseOpcodes),
           (ucast (bind_off (Cmd_Data LC)), WriteBasicBindOpcodes),
           (ucast (weak_bind_off (Cmd_Data LC)), WriteWeakBindOpcodes),
           (ucast (lazy_bind_off (Cmd_Data LC)), WriteLazyBindOpcodes),
           (ucast (export_off (Cmd_Data LC)), WriteExportTrie)} \<subseteq> set ?ops"
      using d [of LC] by (simp add: queueOf_dyld_info_only)
  qed
  have g: "\<forall>OS' Offset. fileStart \<le> tell OS' \<longrightarrow>
          Offset \<le> tell (OS' @ replicate (Offset - (tell OS' - fileStart)) 0) - fileStart"
    using padded_reaches_offset by blast
  have h: "\<forall>OS'. callHandler env Obj WriteNameList OS' = writeNameList env Obj OS' \<and>
             callHandler env Obj WriteStringTable OS' = writeStringTable env Obj OS' \<and>
             callHandler env Obj WriteRebaseOpcodes OS' = writeRebaseOpcodes env Obj OS' \<and>
             callHandler env Obj WriteBasicBindOpcodes OS' =
               writeBindOpcodes env OS' (LE_BindOpcodes (Obj_LinkEdit Obj)) \<and>
             callHandler env Obj WriteWeakBindOpcodes OS' =
               writeBindOpcodes env OS' (LE_WeakBindOpcodes (Obj_LinkEdit Obj)) \<and>
             callHandler env Obj WriteLazyBindOpcodes OS' =
               writeBindOpcodes env OS' (LE_LazyBindOpcodes (Obj_LinkEdit Obj)) \<and>
             callHandler env Obj WriteExportTrie OS' = writeExportTrie env Obj OS'"
    by simp
  show ?thesis
    by (rule exI [of _ ?ops]) (intro conjI a b c u e f g h)
qed

lemma ex_collected_queue:
  "collectQueue (Obj_LoadCommands ex_linkedit_yaml) =
     [(64, WriteNameList), (96, WriteStringTable), (48, WriteRebaseOpcodes),
      (52, WriteBasicBindOpcodes), (56, WriteWeakBindOpcodes), (60, WriteLazyBindOpcodes),
      (32, WriteExportTrie)]"
  by (simp add: collectQueue_def queueOf_def ex_linkedit_yaml_def ex_symtab_command_def
        ex_dyld_info_command_def zero_load_command_def Let_def LC_SYMTAB_def LC_DYLD_INFO_ONLY_def)

lemma ex_sorted_queue:
  "llvm_sort (\<lambda>a b. fst a < fst b) (collectQueue (Obj_LoadCommands ex_linkedit_yaml)) =
     [(32, WriteExportTrie), (48, WriteRebaseOpcodes), (52, WriteBasicBindOpcodes),
      (56, WriteWeakBindOpcodes), (60, WriteLazyBindOpcodes), (64, WriteNameList),
      (96, WriteStringTable)]"
  by (simp add: ex_collected_queue)

lemma ex_linkedit_output:
  "writeLinkEditData ex_env ex_linkedit_yaml 0 [] =
     replicate 32 0 @ [0, 0] @ replicate 62 0 @ [0x61, 0]"
  by code_simp

text \<open>The theorem at the image whose export trie has the lowest offset and is declared
  last: the seven offsets differ, so the order is the only ascending one; the trie
  (two bytes) is written at 32 and the string table at 96, the other streams and the
  symbol list being empty.\<close>

theorem writeLinkEditData_ascending_witness:
  "(\<exists>ops.
      writeLinkEditData ex_env ex_linkedit_yaml 0 [] =
        foldl (\<lambda>OS op. callHandler ex_env ex_linkedit_yaml (snd op)
                           (OS @ replicate (unat (fst op) - (tell OS - 0)) 0)) [] ops \<and>
      sorted (map fst ops) \<and>
      mset ops = mset (concat (map queueOf (Obj_LoadCommands ex_linkedit_yaml))) \<and>
      ops = [(32, WriteExportTrie), (48, WriteRebaseOpcodes), (52, WriteBasicBindOpcodes),
             (56, WriteWeakBindOpcodes), (60, WriteLazyBindOpcodes), (64, WriteNameList),
             (96, WriteStringTable)]) \<and>
   concat (map queueOf (Obj_LoadCommands ex_linkedit_yaml)) =
     [(64, WriteNameList), (96, WriteStringTable), (48, WriteRebaseOpcodes),
      (52, WriteBasicBindOpcodes), (56, WriteWeakBindOpcodes), (60, WriteLazyBindOpcodes),
      (32, WriteExportTrie)] \<and>
   writeLinkEditData ex_env ex_linkedit_yaml 0 [] =
     replicate 32 0 @ [0, 0] @ replicate 62 0 @ [0x61, 0]"
proof -
  let ?sorted = "[(32, WriteExportTrie), (48, WriteRebaseOpcodes), (52, WriteBasicBindOpcodes),
             (56, WriteWeakBindOpcodes), (60, WriteLazyBindOpcodes), (64, WriteNameList),
             (96 :: u64, WriteStringTable)]"
  have q: "concat (map queueOf (Obj_LoadCommands ex_linkedit_yaml)) =
     [(64, WriteNameList), (96, WriteStringTable), (48, WriteRebaseOpcodes),
      (52, WriteBasicBindOpcodes), (56, WriteWeakBindOpcodes), (60, WriteLazyBindOpcodes),
      (32, WriteExportTrie)]"
    using ex_collected_queue by (simp only: collectQueue_def)
  have dq: "distinct (map fst (concat (map queueOf (Obj_LoadCommands ex_linkedit_yaml))))"
    by (simp add: q)
  have ms: "mset ?sorted = mset (concat (map queueOf (Obj_LoadCommands ex_linkedit_yaml)))"
    by (simp add: q)
  have ss: "sorted (map fst ?sorted)" by simp
  from writeLinkEditData_ascending [of ex_env ex_linkedit_yaml 0 "[]"] obtain ops where
    o: "writeLinkEditData ex_env ex_linkedit_yaml 0 [] =
          foldl (\<lambda>OS op. callHandler ex_env ex_linkedit_yaml (snd op)
                           (OS @ replicate (unat (fst op) - (tell OS - 0)) 0)) [] ops"
       "sorted (map fst ops)"
       "mset ops = mset (concat (map queueOf (Obj_LoadCommands ex_linkedit_yaml)))"
       "distinct (map fst (concat (map queueOf (Obj_LoadCommands ex_linkedit_yaml)))) \<longrightarrow>
         (\<forall>ops'. mset ops' = mset (concat (map queueOf (Obj_LoadCommands ex_linkedit_yaml))) \<and>
                 sorted (map fst ops') \<longrightarrow> ops' = ops)"
    by blast
  from o(4) dq ms ss have "?sorted = ops" by blast
  with o(1,2,3) have "\<exists>ops.
      writeLinkEditData ex_env ex_linkedit_yaml 0 [] =
        foldl (\<lambda>OS op. callHandler ex_env ex_linkedit_yaml (snd op)
                           (OS @ replicate (unat (fst op) - (tell OS - 0)) 0)) [] ops \<and>
      sorted (map fst ops) \<and>
      mset ops = mset (concat (map queueOf (Obj_LoadCommands ex_linkedit_yaml))) \<and>
      ops = ?sorted"
    by blast
  with q ex_linkedit_output show ?thesis by (intro conjI)
qed

section \<open>MachOEmitter.cpp: the writers at the smallest inputs\<close>

text \<open>
  The image without load commands is its header: on the little-endian host, for the
  little-endian image, the eight fields least significant byte first.  The file that
  holds this image alone is written by the writer of the image.
\<close>

lemma writeMachO_header_only:
  "MachOWriter_writeMachO ex_env ex_yaml [] =
     (None, [0xCF, 0xFA, 0xED, 0xFE, 0x07, 0, 0, 0x01, 3, 0, 0, 0, 1, 0, 0, 0,
             0, 0, 0, 0, 0, 0, 0, 0, 0, 0, 0, 0, 0, 0, 0, 0])"
  by code_simp

lemma writeMachO_single_image:
  "UniversalWriter_writeMachO ex_env \<lparr>YOF_MachO = Some ex_yaml, YOF_FatMachO = None\<rparr> [] =
     Some (MachOWriter_writeMachO ex_env ex_yaml [])"
  by (simp add: UniversalWriter_writeMachO_def)

end
